(* ===== verification/Prelude.thy ===== *)
theory Prelude
  imports Main "HOL-Library.Word" "HOL-Library.Sublist"
begin

text \<open>
  The vocabulary every other theory uses: the types of the Go values the program works with,
  the errors it returns, and the generic lemmas on results, lists and maps.

  A Go function that returns \<open>(T, error)\<close> is modelled by a value of \<open>err + T\<close> (the zero
  value that accompanies an error is dropped), one that returns only an \<open>error\<close> by an
  \<open>err option\<close> with \<open>None\<close> for \<open>nil\<close>.  A call with an effect takes the state it works on
  and returns the new one beside its result.
\<close>

section \<open>Collections of facts\<close>

named_theorems golib
  \<comment> \<open>computation rules of the modelled Go standard library\<close>
named_theorems link_ops
  \<comment> \<open>the operations of the link aggregate, unfolded\<close>
named_theorems store_ops
  \<comment> \<open>the operations of the storage adapters, unfolded\<close>

section \<open>Base types\<close>

type_synonym u64 = "64 word"
type_synonym byte = "8 word"

text \<open>
  An instant is its number of nanoseconds since January 1, year 1, 00:00:00 UTC, the instant of
  the zero \<open>time.Time\<close>; the location of a \<open>time.Time\<close> plays no role in the operations the
  program uses (\<open>Before\<close>, \<open>After\<close>, \<open>Equal\<close>, \<open>Sub\<close>, \<open>IsZero\<close>, \<open>UnixMilli\<close>).
  A duration is a number of nanoseconds in the range of \<open>int64\<close>.
\<close>

type_synonym time = int
type_synonym duration = int

text \<open>
  A \<open>*time.Time\<close> that is not \<open>nil\<close>: the address of the variable and the instant stored there.
  The program never writes through such a pointer, it only allocates and reads; the address
  matters where two structs that hold a pointer are compared with \<open>==\<close>.
\<close>

datatype time_ref = TimeRef (addr: nat) (deref: time)

text \<open>Arithmetic of \<open>int64\<close> wraps around.\<close>

definition int64 :: "int \<Rightarrow> int" where
  "int64 i = (i + 2 ^ 63) mod 2 ^ 64 - 2 ^ 63"

lemma int64_id: "- (2 ^ 63) \<le> i \<Longrightarrow> i < 2 ^ 63 \<Longrightarrow> int64 i = i"
  by (simp add: int64_def)

lemma int64_range: "- (2 ^ 63) \<le> int64 i \<and> int64 i < 2 ^ 63"
  using pos_mod_bound [of "2 ^ 64" "i + 2 ^ 63"] pos_mod_sign [of "2 ^ 64" "i + 2 ^ 63"]
  by (simp add: int64_def)

definition Nanosecond :: duration where "Nanosecond = 1"
definition Millisecond :: duration where "Millisecond = 1000000 * Nanosecond"
definition Second :: duration where "Second = 1000 * Millisecond"

text \<open>\<open>t.Sub(u)\<close>, which saturates at the bounds of \<open>int64\<close>; \<open>d.Milliseconds()\<close>, which rounds
  toward zero.\<close>

definition Sub :: "time \<Rightarrow> time \<Rightarrow> duration" where
  "Sub t u = max (- (2 ^ 63)) (min (2 ^ 63 - 1) (t - u))"

definition Milliseconds :: "duration \<Rightarrow> int" where
  "Milliseconds d = sgn d * (\<bar>d\<bar> div Millisecond)"

lemma Millisecond_eq: "Millisecond = 1000000"
  by (simp add: Millisecond_def Nanosecond_def)

lemma Sub_pos_iff: "0 < Sub t u \<longleftrightarrow> u < t"
  by (auto simp: Sub_def)

lemma Sub_le: "u < t \<Longrightarrow> Sub t u \<le> t - u"
  by (auto simp: Sub_def)

lemma Milliseconds_pos: "0 < Milliseconds d \<longleftrightarrow> Millisecond \<le> d"
  by (auto simp: Milliseconds_def Millisecond_eq sgn_if zero_less_mult_iff pos_imp_zdiv_pos_iff)

section \<open>Errors\<close>

text \<open>The sentinel errors of \<^verbatim>\<open>internal/link/domain\<close>: \<^verbatim>\<open>link.go\<close>, then \<^verbatim>\<open>status.go\<close>,
  then \<^verbatim>\<open>destination_url.go\<close>.\<close>

datatype domain_error =
    ErrEmptyCode | ErrZeroDestination | ErrEmptyOwnerID | ErrZeroCreatedAt
  | ErrInvalidExpiresAt | ErrInvalidTransition | ErrZeroUpdatedAt | ErrUpdateBeforeCreatedAt
  | ErrUpdateNotAfterPrevious | ErrDeletedLink | ErrUnchangedDestination
  | ErrUnchangedExpiration | ErrNoExpiration | ErrZeroVersion
  | ErrInvalidLinkStatus
  | ErrEmptyDestination | ErrMalformedDestination | ErrUnsupportedScheme | ErrMissingHost

text \<open>The sentinel errors of \<^verbatim>\<open>internal/link/ports\<close>: \<^verbatim>\<open>repository.go\<close>,
  \<^verbatim>\<open>idempotency.go\<close>, \<^verbatim>\<open>redirect_cache.go\<close>.\<close>

datatype ports_error =
    ErrLinkNotFound | ErrLinkAlreadyExists | ErrVersionConflict
  | ErrIdempotencyKeyNotFound | ErrIdempotencyKeyConflict
  | ErrRedirectCacheMiss

text \<open>The sentinel errors of \<^verbatim>\<open>internal/link/application\<close>.\<close>

datatype app_error =
    ErrCodeGenerationExhausted | ErrLinkAccessDenied | ErrInvalidExpectedVersion
  | ErrLinkUnavailable

text \<open>The sentinel errors of \<^verbatim>\<open>internal/analytics/domain\<close>.\<close>

datatype analytics_error = ErrEmptyAnalyticsCode | ErrZeroOccurredAt

text \<open>
  A Go error: a sentinel, an error of the standard library or of a driver (known by a name only),
  an error made by \<open>fmt.Errorf\<close> without \<open>%w\<close> (its text), one that wraps another with \<open>%w\<close>,
  or an \<open>errors.Join\<close>.
\<close>

datatype err =
    Domain domain_error
  | Ports ports_error
  | App app_error
  | Analytics analytics_error
  | Foreign string
  | Plain string
  | Wrap string err
  | Join "err list"

text \<open>\<open>errors.Is\<close>: the error itself, or any error it wraps or joins.\<close>

fun errors_is :: "err \<Rightarrow> err \<Rightarrow> bool" where
  "errors_is (Wrap m e) t \<longleftrightarrow> Wrap m e = t \<or> errors_is e t"
| "errors_is (Join es) t \<longleftrightarrow> Join es = t \<or> (\<exists>e \<in> set es. errors_is e t)"
| "errors_is (Domain d) t \<longleftrightarrow> Domain d = t"
| "errors_is (Ports p) t \<longleftrightarrow> Ports p = t"
| "errors_is (App a) t \<longleftrightarrow> App a = t"
| "errors_is (Analytics a) t \<longleftrightarrow> Analytics a = t"
| "errors_is (Foreign m) t \<longleftrightarrow> Foreign m = t"
| "errors_is (Plain m) t \<longleftrightarrow> Plain m = t"

lemma errors_is_refl [simp]: "errors_is e e"
  by (cases e) auto

section \<open>Contexts\<close>

text \<open>
  A \<open>context.Context\<close>, as far as a call that does not wait looks at it: what \<open>ctx.Err()\<close>
  returns, which is \<open>nil\<close> or one of the two errors of package \<open>context\<close>.
\<close>

datatype context_error = Canceled | DeadlineExceeded

type_synonym ctx = "context_error option"

fun context_err :: "context_error \<Rightarrow> err" where
  "context_err Canceled = Foreign ''context canceled''"
| "context_err DeadlineExceeded = Foreign ''context deadline exceeded''"

definition ctx_Err :: "ctx \<Rightarrow> err option" where
  "ctx_Err c = map_option context_err c"

lemma ctx_Err_simps [simp]: "ctx_Err None = None" "ctx_Err (Some x) = Some (context_err x)"
  by (simp_all add: ctx_Err_def)

lemma errors_is_context [simp]:
  "\<not> errors_is (context_err x) (Ports p)" "\<not> errors_is (context_err x) (App a)"
  "\<not> errors_is (context_err x) (Domain d)"
  by (cases x; simp)+

section \<open>Networks\<close>

text \<open>What becomes of a call of a server.\<close>

datatype network = Delivered | RequestLost | ReplyLost

section \<open>Operations on a part of the state\<close>

definition lift :: "('w \<Rightarrow> 's) \<Rightarrow> ('s \<Rightarrow> 'w \<Rightarrow> 'w) \<Rightarrow> ('s \<Rightarrow> 'a \<times> 's) \<Rightarrow> 'w \<Rightarrow> 'a \<times> 'w" where
  "lift get put f w = (case f (get w) of (r, s) \<Rightarrow> (r, put s w))"

lemma lift_iff: "lift get put f w = (r, w') \<longleftrightarrow> (\<exists>s. f (get w) = (r, s) \<and> w' = put s w)"
  by (auto simp: lift_def split: prod.splits)

section \<open>Generic lemmas\<close>

lemma find_None_all: "find P xs = None \<longleftrightarrow> (\<forall>x \<in> set xs. \<not> P x)"
  by (induction xs) auto

lemma find_Some_mem: "find P xs = Some x \<Longrightarrow> x \<in> set xs \<and> P x"
  by (induction xs) (auto split: if_splits)

lemma length_filter_mono:
  "(\<And>x. x \<in> set xs \<Longrightarrow> P x \<Longrightarrow> Q x) \<Longrightarrow> length (filter P xs) \<le> length (filter Q xs)"
  by (induction xs) auto

lemma case_sum_Inr_iff:
  "(case r of Inl e \<Rightarrow> Inl (f e) | Inr x \<Rightarrow> g x) = Inr y \<longleftrightarrow> (\<exists>x. r = Inr x \<and> g x = Inr y)"
  by (cases r) auto

lemma split_pairE: "(case p of (a, b) \<Rightarrow> f a b) = c \<Longrightarrow> (\<And>a b. p = (a, b) \<Longrightarrow> f a b = c \<Longrightarrow> P) \<Longrightarrow> P"
  by (cases p) auto


lemma u64_Suc:
  assumes "(v :: u64) \<noteq> - 1"
  shows "unat (v + 1) = unat v + 1" "v < v + 1"
proof -
  have "unat v \<noteq> unat (- 1 :: u64)" using assms by (simp add: word_unat_eq_iff)
  then have "unat v + 1 < 2 ^ 64"
    using unsigned_less [of v, where 'a = nat]
    by (simp add: unsigned_minus_1_eq_mask mask_eq_exp_minus_1)
  then show "unat (v + 1) = unat v + 1" by (simp add: unat_word_ariths)
  then show "v < v + 1" by (simp add: word_less_nat_alt)
qed

end
