(* ===== verification/Status.thy ===== *)
theory Status
  imports Prelude
begin

text \<open>\<^verbatim>\<open>internal/link/domain/status.go\<close>: the life cycle of a link and the texts its states
  are stored under.\<close>

section \<open>Link states\<close>

datatype LinkStatus = Unknown | Active | Disabled | Deleted

fun status_IsValid :: "LinkStatus \<Rightarrow> bool" where
  "status_IsValid Active = True"
| "status_IsValid Disabled = True"
| "status_IsValid Deleted = True"
| "status_IsValid _ = False"

definition status_CanRedirect :: "LinkStatus \<Rightarrow> bool" where
  "status_CanRedirect s \<longleftrightarrow> s = Active"

fun CanTransitionTo :: "LinkStatus \<Rightarrow> LinkStatus \<Rightarrow> bool" where
  "CanTransitionTo Active next = (next = Disabled \<or> next = Deleted)"
| "CanTransitionTo Disabled next = (next = Active \<or> next = Deleted)"
| "CanTransitionTo _ next = False"

fun status_String :: "LinkStatus \<Rightarrow> string" where
  "status_String Active = ''active''"
| "status_String Disabled = ''disabled''"
| "status_String Deleted = ''deleted''"
| "status_String _ = ''unknown''"

definition ParseLinkStatus :: "string \<Rightarrow> err + LinkStatus" where
  "ParseLinkStatus v =
     (if v = ''active'' then Inr Active
      else if v = ''disabled'' then Inr Disabled
      else if v = ''deleted'' then Inr Deleted
      else Inl (Domain ErrInvalidLinkStatus))"

section \<open>Facts\<close>

lemma status_IsValid_iff: "status_IsValid s \<longleftrightarrow> s \<noteq> Unknown"
  by (cases s) auto

lemma ParseLinkStatus_String [simp]: "status_IsValid s \<Longrightarrow> ParseLinkStatus (status_String s) = Inr s"
  by (cases s) (auto simp: ParseLinkStatus_def)

lemma ParseLinkStatus_Inr: "ParseLinkStatus v = Inr s \<longleftrightarrow> status_IsValid s \<and> v = status_String s"
  by (cases s) (auto simp: ParseLinkStatus_def)

lemma CanTransitionTo_iff:
  "CanTransitionTo s t \<longleftrightarrow> (s = Active \<or> s = Disabled) \<and> status_IsValid t \<and> t \<noteq> s"
  by (cases s; cases t) auto

end
