(* ===== verification/GoStrings.thy ===== *)
theory GoStrings
  imports Prelude
begin

text \<open>
  The parts of Go's \<open>strings\<close> and \<open>strconv\<close> packages the program uses, on strings as lists of
  bytes (\<open>char\<close>).  \<open>TrimSpace\<close> removes Unicode white space, so it looks for the UTF-8 encodings
  of the white-space code points; \<open>ToLower\<close> maps ASCII letters itself and leaves a string with
  other bytes to \<open>ul\<close>, Go's \<open>strings.Map(unicode.ToLower, s)\<close>, whose table is Unicode data.
\<close>

section \<open>White space\<close>

text \<open>The UTF-8 encodings of the code points for which \<open>unicode.IsSpace\<close> holds.\<close>

definition space_seqs :: "string list" where
  "space_seqs =
     [[CHR 0x09], [CHR 0x0A], [CHR 0x0B], [CHR 0x0C], [CHR 0x0D], [CHR 0x20],
      [CHR 0xC2, CHR 0x85], [CHR 0xC2, CHR 0xA0],
      [CHR 0xE1, CHR 0x9A, CHR 0x80],
      [CHR 0xE2, CHR 0x80, CHR 0x80], [CHR 0xE2, CHR 0x80, CHR 0x81], [CHR 0xE2, CHR 0x80, CHR 0x82],
      [CHR 0xE2, CHR 0x80, CHR 0x83], [CHR 0xE2, CHR 0x80, CHR 0x84], [CHR 0xE2, CHR 0x80, CHR 0x85],
      [CHR 0xE2, CHR 0x80, CHR 0x86], [CHR 0xE2, CHR 0x80, CHR 0x87], [CHR 0xE2, CHR 0x80, CHR 0x88],
      [CHR 0xE2, CHR 0x80, CHR 0x89], [CHR 0xE2, CHR 0x80, CHR 0x8A],
      [CHR 0xE2, CHR 0x80, CHR 0xA8], [CHR 0xE2, CHR 0x80, CHR 0xA9], [CHR 0xE2, CHR 0x80, CHR 0xAF],
      [CHR 0xE2, CHR 0x81, CHR 0x9F], [CHR 0xE3, CHR 0x80, CHR 0x80]]"

text \<open>Removing leading occurrences of the given sequences until none is left.\<close>

definition leading :: "string list \<Rightarrow> string \<Rightarrow> string option" where
  "leading ws s = find (\<lambda>w. w \<noteq> [] \<and> take (length w) s = w) ws"

lemma leading_Some:
  "leading ws s = Some w \<Longrightarrow> w \<in> set ws \<and> w \<noteq> [] \<and> s = w @ drop (length w) s"
  unfolding leading_def by (drule find_Some_mem) (metis append_take_drop_id)

function strip :: "string list \<Rightarrow> string \<Rightarrow> string" where
  "strip ws s = (case leading ws s of None \<Rightarrow> s | Some w \<Rightarrow> strip ws (drop (length w) s))"
  by pat_completeness auto
termination
proof (relation "measure (\<lambda>(ws, s). length s)")
  fix ws s w
  assume "leading ws s = Some w"
  then have "w \<noteq> []" "s = w @ drop (length w) s" by (auto dest: leading_Some)
  then show "((ws, drop (length w) s), ws, s) \<in> measure (\<lambda>(ws, s). length s)"
    by (cases s) (auto simp: leading_def)
qed simp

declare strip.simps [simp del]

definition trim_left :: "string \<Rightarrow> string" where
  "trim_left s = strip space_seqs s"

definition trim_right :: "string \<Rightarrow> string" where
  "trim_right s = rev (strip (map rev space_seqs) (rev s))"

definition TrimSpace :: "string \<Rightarrow> string" where
  "TrimSpace s = trim_right (trim_left s)"

lemma strip_stop: "leading ws s = None \<Longrightarrow> strip ws s = s"
  by (simp add: strip.simps)

lemma leading_strip: "leading ws (strip ws s) = None"
proof (induction ws s rule: strip.induct)
  case (1 ws s)
  then show ?case
    by (cases "leading ws s") (auto simp: strip.simps[of ws s])
qed

lemma strip_suffix: "\<exists>p. s = p @ strip ws s"
proof (induction ws s rule: strip.induct)
  case (1 ws s)
  show ?case
  proof (cases "leading ws s")
    case None
    then show ?thesis by (simp add: strip_stop)
  next
    case (Some w)
    with 1 obtain p where "drop (length w) s = p @ strip ws (drop (length w) s)" by blast
    moreover have "strip ws s = strip ws (drop (length w) s)"
      using Some by (simp add: strip.simps[of ws s])
    moreover have "s = w @ drop (length w) s" using Some leading_Some by blast
    ultimately have "s = (w @ p) @ strip ws s" by simp
    then show ?thesis by blast
  qed
qed

lemma leading_prefix_None: "leading ws (p @ q) = None \<Longrightarrow> leading ws p = None"
  by (auto simp: leading_def find_None_all)

lemma trim_right_prefix: "\<exists>q. s = trim_right s @ q"
proof -
  obtain p where "rev s = p @ strip (map rev space_seqs) (rev s)"
    using strip_suffix by blast
  then have "s = trim_right s @ rev p"
    unfolding trim_right_def by (metis rev_append rev_rev_ident)
  then show ?thesis by blast
qed

lemma TrimSpace_ends:
  "leading space_seqs (TrimSpace s) = None"
  "leading (map rev space_seqs) (rev (TrimSpace s)) = None"
proof -
  obtain q where "trim_left s = TrimSpace s @ q"
    unfolding TrimSpace_def using trim_right_prefix by blast
  moreover have "leading space_seqs (trim_left s) = None"
    by (simp add: trim_left_def leading_strip)
  ultimately show "leading space_seqs (TrimSpace s) = None"
    by (metis leading_prefix_None)
  show "leading (map rev space_seqs) (rev (TrimSpace s)) = None"
    by (simp add: TrimSpace_def trim_right_def leading_strip)
qed

lemma TrimSpace_trimmed:
  assumes "leading space_seqs s = None" "leading (map rev space_seqs) (rev s) = None"
  shows "TrimSpace s = s"
  using assms by (simp add: TrimSpace_def trim_left_def trim_right_def strip_stop)

lemma TrimSpace_idem [simp]: "TrimSpace (TrimSpace s) = TrimSpace s"
  by (rule TrimSpace_trimmed) (rule TrimSpace_ends)+

lemma TrimSpace_Nil [simp]: "TrimSpace [] = []"
  by (rule TrimSpace_trimmed) (auto simp: leading_def find_None_all)


text \<open>Printable ASCII characters are never white space, nor part of its encoding.\<close>

definition graphic :: "char \<Rightarrow> bool" where
  "graphic c \<longleftrightarrow> 0x20 < (of_char c :: nat) \<and> (of_char c :: nat) < 0x7F"

lemma leading_graphic_None:
  assumes "list_all (\<lambda>w. w \<noteq> [] \<longrightarrow> \<not> graphic (hd w)) ws" "s = [] \<or> graphic (hd s)"
  shows "leading ws s = None"
proof -
  have "w = [] \<or> take (length w) s \<noteq> w" if "w \<in> set ws" for w
    using assms that by (cases s; cases w) (auto simp: list_all_iff)
  then show ?thesis by (auto simp: leading_def find_None_all)
qed

lemma space_seqs_not_graphic:
  "list_all (\<lambda>w. w \<noteq> [] \<longrightarrow> \<not> graphic (hd w)) space_seqs"
  "list_all (\<lambda>w. w \<noteq> [] \<longrightarrow> \<not> graphic (hd w)) (map rev space_seqs)"
  by (simp_all add: space_seqs_def graphic_def)

lemma TrimSpace_graphic:
  assumes "s = [] \<or> graphic (hd s) \<and> graphic (last s)"
  shows "TrimSpace s = s"
proof (rule TrimSpace_trimmed)
  show "leading space_seqs s = None"
    using assms space_seqs_not_graphic(1) by (intro leading_graphic_None) auto
  show "leading (map rev space_seqs) (rev s) = None"
    using assms space_seqs_not_graphic(2) by (intro leading_graphic_None) (auto simp: hd_rev)
qed

lemma TrimSpace_all_graphic: "list_all graphic s \<Longrightarrow> TrimSpace s = s"
  by (rule TrimSpace_graphic) (cases s, auto simp: list_all_iff)

section \<open>Case mapping\<close>

definition is_ascii :: "string \<Rightarrow> bool" where
  "is_ascii s = list_all (\<lambda>c. (of_char c :: nat) < 0x80) s"

definition lower_char :: "char \<Rightarrow> char" where
  "lower_char c =
     (if 0x41 \<le> (of_char c :: nat) \<and> (of_char c :: nat) \<le> 0x5A
      then char_of ((of_char c :: nat) + 32) else c)"

text \<open>\<open>strings.ToLower\<close>; \<open>ul\<close> is \<open>strings.Map(unicode.ToLower, s)\<close>.\<close>

definition ToLower :: "(string \<Rightarrow> string) \<Rightarrow> string \<Rightarrow> string" where
  "ToLower ul s = (if is_ascii s then map lower_char s else ul s)"

lemma of_char_lower_char:
  "(of_char (lower_char c) :: nat) =
     (if 0x41 \<le> (of_char c :: nat) \<and> (of_char c :: nat) \<le> 0x5A then of_char c + 32 else of_char c)"
  by (simp add: lower_char_def of_char_of)

lemma lower_char_idem [simp]: "lower_char (lower_char c) = lower_char c"
  by (simp add: lower_char_def of_char_of)

lemma is_ascii_lower [simp]: "is_ascii (map lower_char s) = is_ascii s"
  by (auto simp: is_ascii_def list_all_iff of_char_lower_char)

lemma ToLower_ascii_idem: "is_ascii s \<Longrightarrow> ToLower ul (ToLower ul s) = ToLower ul s"
  by (simp add: ToLower_def)

section \<open>Prefixes and cuts\<close>

definition HasPrefix :: "string \<Rightarrow> string \<Rightarrow> bool" where
  "HasPrefix s p \<longleftrightarrow> take (length p) s = p"

definition TrimPrefix :: "string \<Rightarrow> string \<Rightarrow> string" where
  "TrimPrefix s p = (if HasPrefix s p then drop (length p) s else s)"

definition CutPrefix :: "string \<Rightarrow> string \<Rightarrow> string \<times> bool" where
  "CutPrefix s p = (if HasPrefix s p then (drop (length p) s, True) else (s, False))"

text \<open>\<open>strings.Cut\<close> with a one-byte separator, and \<open>strings.Split(s, sep)[0]\<close>.\<close>

definition Cut :: "char \<Rightarrow> string \<Rightarrow> string \<times> string \<times> bool" where
  "Cut c s = (takeWhile (\<lambda>x. x \<noteq> c) s, drop 1 (dropWhile (\<lambda>x. x \<noteq> c) s), c \<in> set s)"

definition split_first :: "char \<Rightarrow> string \<Rightarrow> string" where
  "split_first c s = takeWhile (\<lambda>x. x \<noteq> c) s"

text \<open>\<open>strings.TrimRight(s, c)\<close> for a one-character cutset.\<close>

definition TrimRight :: "char \<Rightarrow> string \<Rightarrow> string" where
  "TrimRight c s = rev (dropWhile (\<lambda>x. x = c) (rev s))"

lemma HasPrefix_append [simp]: "HasPrefix (p @ s) p"
  by (simp add: HasPrefix_def)

lemma HasPrefix_iff: "HasPrefix s p \<longleftrightarrow> (\<exists>t. s = p @ t)"
  by (metis HasPrefix_append HasPrefix_def append_take_drop_id)

lemma TrimPrefix_append [simp]: "TrimPrefix (p @ s) p = s"
  by (simp add: TrimPrefix_def)

lemma CutPrefix_append [simp]: "CutPrefix (p @ s) p = (s, True)"
  by (simp add: CutPrefix_def)

section \<open>Decimal numbers\<close>

definition digit :: "nat \<Rightarrow> char" where
  "digit n = char_of (48 + n)"

definition is_digit :: "char \<Rightarrow> bool" where
  "is_digit c \<longleftrightarrow> 48 \<le> (of_char c :: nat) \<and> (of_char c :: nat) \<le> 57"

definition digit_val :: "char \<Rightarrow> nat" where
  "digit_val c = of_char c - 48"

text \<open>\<open>strconv.FormatUint(n, 10)\<close>.\<close>

fun format_nat :: "nat \<Rightarrow> string" where
  "format_nat n = (if n < 10 then [digit n] else format_nat (n div 10) @ [digit (n mod 10)])"

declare format_nat.simps [simp del]

definition FormatUint :: "u64 \<Rightarrow> string" where
  "FormatUint n = format_nat (unat n)"

text \<open>
  \<open>strconv.ParseUint(s, 10, 64)\<close>: the loop over the bytes, which fails with \<open>ErrSyntax\<close> at a
  byte that is no digit and with \<open>ErrRange\<close> as soon as the value leaves 64 bits.
\<close>

definition ErrSyntax :: err where "ErrSyntax = Foreign ''strconv: invalid syntax''"
definition ErrRange :: err where "ErrRange = Foreign ''strconv: value out of range''"

fun parse_digits :: "nat \<Rightarrow> string \<Rightarrow> err + nat" where
  "parse_digits n [] = Inr n"
| "parse_digits n (c # cs) =
     (if \<not> is_digit c then Inl ErrSyntax
      else if n * 10 + digit_val c \<ge> 2 ^ 64 then Inl ErrRange
      else parse_digits (n * 10 + digit_val c) cs)"

definition ParseUint :: "string \<Rightarrow> err + u64" where
  "ParseUint s =
     (if s = [] then Inl ErrSyntax
      else case parse_digits 0 s of Inl e \<Rightarrow> Inl e | Inr n \<Rightarrow> Inr (of_nat n))"

text \<open>\<open>strconv.FormatInt(i, 10)\<close> and \<open>strconv.ParseInt(s, 10, 64)\<close> on the range of \<open>int64\<close>.\<close>

definition FormatInt :: "int \<Rightarrow> string" where
  "FormatInt i = (if i < 0 then CHR ''-'' # format_nat (nat (- i)) else format_nat (nat i))"

definition ParseInt :: "string \<Rightarrow> err + int" where
  "ParseInt s =
     (if s = [] then Inl ErrSyntax
      else
        let neg = (hd s = CHR ''-'');
            t = (if hd s = CHR ''+'' \<or> neg then tl s else s)
        in if t = [] then Inl ErrSyntax
           else case parse_digits 0 t of
                  Inl e \<Rightarrow> Inl e
                | Inr n \<Rightarrow>
                    if \<not> neg \<and> n \<ge> 2 ^ 63 then Inl ErrRange
                    else if neg \<and> n > 2 ^ 63 then Inl ErrRange
                    else Inr (if neg then - int n else int n))"

subsection \<open>Printing and parsing are inverse\<close>

lemma digit_props [simp]:
  assumes "n < 10"
  shows "is_digit (digit n)" "digit_val (digit n) = n"
  using assms by (simp_all add: is_digit_def digit_val_def digit_def of_char_of)

lemma format_nat_not_Nil [simp]: "format_nat n \<noteq> []"
  by (subst format_nat.simps) simp

lemma format_nat_digits: "list_all is_digit (format_nat n)"
proof (induction n rule: format_nat.induct)
  case (1 n)
  then show ?case by (subst format_nat.simps) auto
qed

fun digits_val :: "nat \<Rightarrow> string \<Rightarrow> nat" where
  "digits_val n [] = n"
| "digits_val n (c # cs) = digits_val (n * 10 + digit_val c) cs"

lemma digits_val_append: "digits_val n (s @ t) = digits_val (digits_val n s) t"
  by (induction s arbitrary: n) auto

lemma digits_val_ge: "n \<le> digits_val n s"
proof (induction s arbitrary: n)
  case (Cons c s)
  have "n \<le> n * 10 + digit_val c" by simp
  also have "\<dots> \<le> digits_val (n * 10 + digit_val c) s" by (rule Cons.IH)
  finally show ?case by simp
qed simp

lemma digits_val_format_nat: "digits_val 0 (format_nat n) = n"
proof (induction n rule: format_nat.induct)
  case (1 n)
  then show ?case by (subst format_nat.simps) (auto simp: digits_val_append)
qed

lemma parse_digits_val:
  "list_all is_digit s \<Longrightarrow> digits_val n s < 2 ^ 64 \<Longrightarrow> parse_digits n s = Inr (digits_val n s)"
proof (induction s arbitrary: n)
  case (Cons c s)
  have "n * 10 + digit_val c \<le> digits_val n (c # s)" by (simp add: digits_val_ge)
  with Cons show ?case by auto
qed simp

lemma parse_digits_Inr:
  "parse_digits n s = Inr m \<Longrightarrow> n < 2 ^ 64 \<Longrightarrow> list_all is_digit s \<and> m = digits_val n s \<and> m < 2 ^ 64"
  by (induction s arbitrary: n) (auto split: if_splits)

lemma parse_format_nat: "n < 2 ^ 64 \<Longrightarrow> parse_digits 0 (format_nat n) = Inr n"
  using parse_digits_val [OF format_nat_digits, of 0 n] by (simp add: digits_val_format_nat)

lemma ParseUint_FormatUint [simp]: "ParseUint (FormatUint v) = Inr v"
  using unsigned_less [of v, where 'a = nat]
  by (simp add: ParseUint_def FormatUint_def parse_format_nat)

lemma hd_format_nat: "is_digit (hd (format_nat n))"
  using format_nat_digits [of n] by (cases "format_nat n") auto

lemma ParseInt_FormatInt:
  assumes "- (2 ^ 63) \<le> i" "i < 2 ^ 63"
  shows "ParseInt (FormatInt i) = Inr i"
proof (cases "i < 0")
  case True
  with assms have "nat (- i) < 2 ^ 64" by simp
  then have "parse_digits 0 (format_nat (nat (- i))) = Inr (nat (- i))" by (rule parse_format_nat)
  with True assms show ?thesis by (simp add: ParseInt_def FormatInt_def nat_le_iff)
next
  case False
  with assms have "nat i < 2 ^ 64" by simp
  then have p: "parse_digits 0 (format_nat (nat i)) = Inr (nat i)" by (rule parse_format_nat)
  have "hd (format_nat (nat i)) \<noteq> CHR ''-''" "hd (format_nat (nat i)) \<noteq> CHR ''+''"
    using hd_format_nat [of "nat i"] by (auto simp: is_digit_def)
  with False assms p show ?thesis by (simp add: ParseInt_def FormatInt_def nat_le_iff Let_def)
qed


subsection \<open>Evaluation on binary integers\<close>

text \<open>The same functions on \<open>int\<close>, for evaluation: there numerals are binary.\<close>

function format_int :: "int \<Rightarrow> string" where
  "format_int i =
     (if i < 10 then [digit (nat i)] else format_int (i div 10) @ [digit (nat (i mod 10))])"
  by pat_completeness auto
termination
  by (relation "measure nat") auto

declare format_int.simps [simp del, code]

lemma format_int_nat: "0 \<le> i \<Longrightarrow> format_int i = format_nat (nat i)"
proof (induction i rule: format_int.induct)
  case (1 i)
  show ?case
  proof (cases "i < 10")
    case True
    with 1 show ?thesis by (subst format_int.simps, subst format_nat.simps) simp
  next
    case False
    with 1 have "format_int (i div 10) = format_nat (nat i div 10)"
      by (simp add: nat_div_distrib)
    with False 1 show ?thesis
      by (subst format_int.simps, subst format_nat.simps) (simp add: nat_mod_distrib)
  qed
qed

fun parse_int_digits :: "int \<Rightarrow> string \<Rightarrow> err + int" where
  "parse_int_digits n [] = Inr n"
| "parse_int_digits n (c # cs) =
     (if \<not> is_digit c then Inl ErrSyntax
      else let m = n * 10 + int (digit_val c)
           in if m \<ge> 18446744073709551616 then Inl ErrRange else parse_int_digits m cs)"

lemma parse_int_digits_eq: "parse_int_digits (int n) s = map_sum id int (parse_digits n s)"
proof (induction n s rule: parse_digits.induct)
  case (2 n c cs)
  define m where "m = n * 10 + digit_val c"
  have m: "int n * 10 + int (digit_val c) = int m" by (simp add: m_def)
  have big: "int m \<ge> 18446744073709551616 \<longleftrightarrow> m \<ge> 2 ^ 64" by auto
  from "2.IH" show ?case unfolding parse_int_digits.simps parse_digits.simps Let_def m big m_def [symmetric]
    by auto
qed simp

lemma FormatUint_code [code]: "FormatUint n = format_int (uint n)"
  by (simp add: FormatUint_def format_int_nat)

lemma FormatInt_code [code]:
  "FormatInt i = (if i < 0 then CHR ''-'' # format_int (- i) else format_int i)"
  by (simp add: FormatInt_def format_int_nat)

lemma ParseUint_code [code]:
  "ParseUint s =
     (if s = [] then Inl ErrSyntax
      else case parse_int_digits 0 s of Inl e \<Rightarrow> Inl e | Inr n \<Rightarrow> Inr (word_of_int n))"
  using parse_int_digits_eq [of 0 s] by (cases "parse_digits 0 s") (simp_all add: ParseUint_def)

lemma ParseInt_code [code]:
  "ParseInt s =
     (if s = [] then Inl ErrSyntax
      else
        let neg = (hd s = CHR ''-'');
            t = (if hd s = CHR ''+'' \<or> neg then tl s else s)
        in if t = [] then Inl ErrSyntax
           else case parse_int_digits 0 t of
                  Inl e \<Rightarrow> Inl e
                | Inr n \<Rightarrow>
                    if \<not> neg \<and> n \<ge> 9223372036854775808 then Inl ErrRange
                    else if neg \<and> n > 9223372036854775808 then Inl ErrRange
                    else Inr (if neg then - n else n))"
proof -
  have *: "parse_int_digits 0 t = map_sum id int (parse_digits 0 t)" for t
    using parse_int_digits_eq [of 0 t] by simp
  have **: "(case parse_digits 0 t of Inl e \<Rightarrow> Inl e
        | Inr n \<Rightarrow> if \<not> neg \<and> n \<ge> 2 ^ 63 then Inl ErrRange
            else if neg \<and> n > 2 ^ 63 then Inl ErrRange else Inr (if neg then - int n else int n))
      = (case parse_int_digits 0 t of Inl e \<Rightarrow> Inl e
        | Inr n \<Rightarrow> if \<not> neg \<and> n \<ge> 9223372036854775808 then Inl ErrRange
            else if neg \<and> n > 9223372036854775808 then Inl ErrRange else Inr (if neg then - n else n))" for neg t
    unfolding * by (cases "parse_digits 0 t") auto
  show ?thesis unfolding ParseInt_def Let_def ** ..
qed

end
