(* ===== verification/GoUrl.thy ===== *)
theory GoUrl
  imports GoStrings
begin

text \<open>
  The part of Go's \<open>net/url\<close> (Go 1.25) that the program reaches: \<open>ParseRequestURI\<close>, \<open>Parse\<close>
  and \<open>URL.String\<close>, with the escaping they use.  Function by function as in the package; an
  error is a \<open>Foreign\<close> error whose text names its kind.
\<close>

section \<open>Escaping\<close>

datatype encoding = encodePath | encodeUserPassword | encodeHost | encodeZone | encodeFragment

definition alnum :: "char \<Rightarrow> bool" where
  "alnum c \<longleftrightarrow>
     (let n = (of_char c :: nat)
      in 0x61 \<le> n \<and> n \<le> 0x7A \<or> 0x41 \<le> n \<and> n \<le> 0x5A \<or> 0x30 \<le> n \<and> n \<le> 0x39)"

definition host_delims :: string where
  "host_delims = ''!$&()*+,;=:[]<>'' @ [CHR 0x27, CHR 0x22]"

definition unreserved_marks :: string where "unreserved_marks = ''-_.~''"
definition reserved_marks :: string where "reserved_marks = ''$&+,/:;=?@''"
definition fragment_marks :: string where "fragment_marks = ''!()*''"

definition shouldEscape :: "char \<Rightarrow> encoding \<Rightarrow> bool" where
  "shouldEscape c mode =
     (if alnum c then False
      else if (mode = encodeHost \<or> mode = encodeZone) \<and> c \<in> set host_delims then False
      else if c \<in> set unreserved_marks then False
      else if c \<in> set reserved_marks then
        (case mode of
           encodePath \<Rightarrow> c = CHR ''?''
         | encodeUserPassword \<Rightarrow> c = CHR ''@'' \<or> c = CHR ''/'' \<or> c = CHR ''?'' \<or> c = CHR '':''
         | encodeFragment \<Rightarrow> False
         | _ \<Rightarrow> True)
      else if mode = encodeFragment \<and> c \<in> set fragment_marks then False
      else True)"

definition ishex :: "char \<Rightarrow> bool" where
  "ishex c \<longleftrightarrow>
     (let n = (of_char c :: nat)
      in 0x30 \<le> n \<and> n \<le> 0x39 \<or> 0x61 \<le> n \<and> n \<le> 0x66 \<or> 0x41 \<le> n \<and> n \<le> 0x46)"

definition unhex :: "char \<Rightarrow> nat" where
  "unhex c =
     (let n = (of_char c :: nat)
      in if n \<le> 0x39 then n - 0x30 else if 0x61 \<le> n then n - 0x61 + 10 else n - 0x41 + 10)"

definition upperhex :: "nat \<Rightarrow> char" where
  "upperhex n = (if n < 10 then char_of (0x30 + n) else char_of (0x41 + (n - 10)))"

definition pct :: "char \<Rightarrow> string" where
  "pct c = [CHR ''%'', upperhex (of_char c div 16), upperhex (of_char c mod 16)]"

definition escape :: "string \<Rightarrow> encoding \<Rightarrow> string" where
  "escape s mode = concat (map (\<lambda>c. if shouldEscape c mode then pct c else [c]) s)"

definition EscapeError :: err where "EscapeError = Foreign ''invalid URL escape''"
definition InvalidHostError :: err where
  "InvalidHostError = Foreign ''invalid character in host name''"

fun unescape :: "string \<Rightarrow> encoding \<Rightarrow> err + string" where
  "unescape [] mode = Inr []"
| "unescape (c # s) mode =
     (if c = CHR ''%'' then
        (case s of
           h # l # s' \<Rightarrow>
             if \<not> (ishex h \<and> ishex l) then Inl EscapeError
             else
               let v = unhex h * 16 + unhex l
               in if mode = encodeHost \<and> unhex h < 8 \<and> \<not> (h = CHR ''2'' \<and> l = CHR ''5'')
                  then Inl EscapeError
                  else if mode = encodeZone \<and> \<not> (h = CHR ''2'' \<and> l = CHR ''5'') \<and> v \<noteq> 0x20
                    \<and> shouldEscape (char_of v) encodeHost
                  then Inl EscapeError
                  else (case unescape s' mode of
                          Inl e \<Rightarrow> Inl e
                        | Inr t \<Rightarrow> Inr (char_of v # t))
         | _ \<Rightarrow> Inl EscapeError)
      else if (mode = encodeHost \<or> mode = encodeZone) \<and> (of_char c :: nat) < 0x80
        \<and> shouldEscape c mode
      then Inl InvalidHostError
      else (case unescape s mode of Inl e \<Rightarrow> Inl e | Inr t \<Rightarrow> Inr (c # t)))"

definition pchar_marks :: string where
  "pchar_marks = ''!$&()*+,;=:@[]%'' @ [CHR 0x27]"

definition validEncoded :: "string \<Rightarrow> encoding \<Rightarrow> bool" where
  "validEncoded s mode =
     list_all (\<lambda>c. c \<in> set pchar_marks \<or> \<not> shouldEscape c mode) s"

section \<open>URLs\<close>

record userinfo =
  username :: string
  password :: "string option"

record url =
  Scheme :: string
  Opaque :: string
  User :: "userinfo option"
  Host :: string
  Path :: string
  RawPath :: string
  OmitHost :: bool
  ForceQuery :: bool
  RawQuery :: string
  Fragment :: string

definition empty_url :: url where
  "empty_url = \<lparr>Scheme = [], Opaque = [], User = None, Host = [], Path = [], RawPath = [],
     OmitHost = False, ForceQuery = False, RawQuery = [], Fragment = []\<rparr>"

text \<open>The last occurrence of a byte, and the first of a string.\<close>

fun split_last :: "char \<Rightarrow> string \<Rightarrow> (string \<times> string) option" where
  "split_last c [] = None"
| "split_last c (x # s) =
     (case split_last c s of
        Some (a, b) \<Rightarrow> Some (x # a, b)
      | None \<Rightarrow> if x = c then Some ([], s) else None)"

fun split_sub :: "string \<Rightarrow> string \<Rightarrow> (string \<times> string) option" where
  "split_sub p [] = (if p = [] then Some ([], []) else None)"
| "split_sub p (x # s) =
     (if HasPrefix (x # s) p then Some ([], x # s)
      else case split_sub p s of Some (a, b) \<Rightarrow> Some (x # a, b) | None \<Rightarrow> None)"

subsection \<open>Parsing\<close>

definition is_alpha :: "char \<Rightarrow> bool" where
  "is_alpha c \<longleftrightarrow> alnum c \<and> \<not> is_digit c"

text \<open>\<open>getScheme\<close>: the loop over the bytes; \<open>pre\<close> is \<open>rawURL[:i]\<close> read so far.\<close>

fun scheme_loop :: "string \<Rightarrow> string \<Rightarrow> string \<Rightarrow> err + (string \<times> string)" where
  "scheme_loop raw pre [] = Inr ([], raw)"
| "scheme_loop raw pre (c # s) =
     (if is_alpha c then scheme_loop raw (pre @ [c]) s
      else if is_digit c \<or> c \<in> set ''+-.'' then
        (if pre = [] then Inr ([], raw) else scheme_loop raw (pre @ [c]) s)
      else if c = CHR '':'' then
        (if pre = [] then Inl (Foreign ''missing protocol scheme'') else Inr (pre, s))
      else Inr ([], raw))"

definition getScheme :: "string \<Rightarrow> err + (string \<times> string)" where
  "getScheme raw = scheme_loop raw [] raw"

definition validOptionalPort :: "string \<Rightarrow> bool" where
  "validOptionalPort p =
     (case p of [] \<Rightarrow> True | c # ds \<Rightarrow> c = CHR '':'' \<and> list_all is_digit ds)"

definition parseHost :: "string \<Rightarrow> err + string" where
  "parseHost host =
     (if HasPrefix host ''['' then
        (case split_last (CHR '']'') host of
           None \<Rightarrow> Inl (Foreign ''missing ] in host'')
         | Some (inner, colonPort) \<Rightarrow>
             if \<not> validOptionalPort colonPort then Inl (Foreign ''invalid port after host'')
             else
               (case split_sub ''%25'' inner of
                  Some (h1, z) \<Rightarrow>
                    (case unescape h1 encodeHost of
                       Inl e \<Rightarrow> Inl e
                     | Inr host1 \<Rightarrow>
                         (case unescape z encodeZone of
                            Inl e \<Rightarrow> Inl e
                          | Inr host2 \<Rightarrow>
                              (case unescape (CHR '']'' # colonPort) encodeHost of
                                 Inl e \<Rightarrow> Inl e
                               | Inr host3 \<Rightarrow> Inr (host1 @ host2 @ host3))))
                | None \<Rightarrow> unescape host encodeHost))
      else
        (case split_last (CHR '':'') host of
           Some (_, port) \<Rightarrow>
             if \<not> validOptionalPort (CHR '':'' # port) then Inl (Foreign ''invalid port after host'')
             else unescape host encodeHost
         | None \<Rightarrow> unescape host encodeHost))"

definition userinfo_marks :: string where
  "userinfo_marks = ''-._:~!$&()*+,;=%@'' @ [CHR 0x27]"

definition validUserinfo :: "string \<Rightarrow> bool" where
  "validUserinfo s = list_all (\<lambda>c. alnum c \<or> c \<in> set userinfo_marks) s"

definition parseAuthority :: "string \<Rightarrow> err + (userinfo option \<times> string)" where
  "parseAuthority authority =
     (case split_last (CHR ''@'') authority of
        None \<Rightarrow>
          (case parseHost authority of Inl e \<Rightarrow> Inl e | Inr h \<Rightarrow> Inr (None, h))
      | Some (ui, hostpart) \<Rightarrow>
          (case parseHost hostpart of
             Inl e \<Rightarrow> Inl e
           | Inr h \<Rightarrow>
               if \<not> validUserinfo ui then Inl (Foreign ''net/url: invalid userinfo'')
               else if CHR '':'' \<notin> set ui then
                 (case unescape ui encodeUserPassword of
                    Inl e \<Rightarrow> Inl e
                  | Inr u \<Rightarrow> Inr (Some \<lparr>username = u, password = None\<rparr>, h))
               else
                 (case Cut (CHR '':'') ui of
                    (n, p, _) \<Rightarrow>
                      (case unescape n encodeUserPassword of
                         Inl e \<Rightarrow> Inl e
                       | Inr u \<Rightarrow>
                           (case unescape p encodeUserPassword of
                              Inl e \<Rightarrow> Inl e
                            | Inr pw \<Rightarrow> Inr (Some \<lparr>username = u, password = Some pw\<rparr>, h))))))"

definition setPath :: "url \<Rightarrow> string \<Rightarrow> err + url" where
  "setPath u p =
     (case unescape p encodePath of
        Inl e \<Rightarrow> Inl e
      | Inr path \<Rightarrow>
          Inr (u\<lparr>Path := path, RawPath := (if p = escape path encodePath then [] else p)\<rparr>))"

definition contains_ctl :: "string \<Rightarrow> bool" where
  "contains_ctl s \<longleftrightarrow> \<not> list_all (\<lambda>c. 0x20 \<le> (of_char c :: nat) \<and> (of_char c :: nat) \<noteq> 0x7F) s"

text \<open>The query is cut off: a single trailing \<open>?\<close> is only remembered as \<open>ForceQuery\<close>.\<close>

definition cut_query :: "string \<Rightarrow> string \<times> string \<times> bool" where
  "cut_query rest =
     (if rest \<noteq> [] \<and> last rest = CHR ''?'' \<and> count_list rest (CHR ''?'') = 1
      then (butlast rest, [], True)
      else case Cut (CHR ''?'') rest of (r, q, _) \<Rightarrow> (r, q, False))"

text \<open>The authority, when there is one, and what follows it.\<close>

definition split_authority :: "string \<Rightarrow> string \<times> string" where
  "split_authority a = (takeWhile (\<lambda>c. c \<noteq> CHR ''/'') a, dropWhile (\<lambda>c. c \<noteq> CHR ''/'') a)"

definition parse_hier :: "url \<Rightarrow> string \<Rightarrow> bool \<Rightarrow> err + url" where
  "parse_hier u rest viaRequest =
     (if (Scheme u \<noteq> [] \<or> \<not> viaRequest \<and> \<not> HasPrefix rest ''///'') \<and> HasPrefix rest ''//'' then
        (case split_authority (drop 2 rest) of
           (authority, rest') \<Rightarrow>
             (case parseAuthority authority of
                Inl e \<Rightarrow> Inl e
              | Inr (user, host) \<Rightarrow> setPath (u\<lparr>User := user, Host := host\<rparr>) rest'))
      else setPath (u\<lparr>OmitHost := (Scheme u \<noteq> [] \<and> HasPrefix rest ''/'')\<rparr>) rest)"

definition parse :: "string \<Rightarrow> bool \<Rightarrow> err + url" where
  "parse rawURL viaRequest =
     (if contains_ctl rawURL then Inl (Foreign ''net/url: invalid control character in URL'')
      else if rawURL = [] \<and> viaRequest then Inl (Foreign ''empty url'')
      else if rawURL = ''*'' then Inr (empty_url\<lparr>Path := ''*''\<rparr>)
      else
        (case getScheme rawURL of
           Inl e \<Rightarrow> Inl e
         | Inr (scheme, rest0) \<Rightarrow>
             (case cut_query rest0 of
                (rest, query, force) \<Rightarrow>
                  let u = empty_url\<lparr>Scheme := map lower_char scheme, RawQuery := query,
                                    ForceQuery := force\<rparr>
                  in if \<not> HasPrefix rest ''/'' then
                       (if scheme \<noteq> [] then Inr (u\<lparr>Opaque := rest\<rparr>)
                        else if viaRequest then Inl (Foreign ''invalid URI for request'')
                        else if CHR '':'' \<in> set (split_first (CHR ''/'') rest)
                        then Inl (Foreign ''first path segment in URL cannot contain colon'')
                        else parse_hier u rest viaRequest)
                     else parse_hier u rest viaRequest)))"

definition ParseRequestURI :: "string \<Rightarrow> err + url" where
  "ParseRequestURI rawURL = parse rawURL True"

text \<open>\<open>url.Parse\<close>: the fragment is cut off first and decoded last.\<close>

definition Parse :: "string \<Rightarrow> err + url" where
  "Parse rawURL =
     (case Cut (CHR ''#'') rawURL of
        (u, frag, _) \<Rightarrow>
          (case parse u False of
             Inl e \<Rightarrow> Inl e
           | Inr p \<Rightarrow>
               if frag = [] then Inr p
               else (case unescape frag encodeFragment of
                       Inl e \<Rightarrow> Inl e
                     | Inr f \<Rightarrow> Inr (p\<lparr>Fragment := f\<rparr>))))"

subsection \<open>Printing\<close>

definition userinfo_string :: "userinfo \<Rightarrow> string" where
  "userinfo_string ui =
     (if username ui \<noteq> [] \<or> password ui \<noteq> None
      then escape (username ui) encodeUserPassword
           @ (case password ui of
                None \<Rightarrow> [] | Some p \<Rightarrow> CHR '':'' # escape p encodeUserPassword)
      else [])"

definition EscapedPath :: "url \<Rightarrow> string" where
  "EscapedPath u =
     (if RawPath u \<noteq> [] \<and> validEncoded (RawPath u) encodePath
        \<and> unescape (RawPath u) encodePath = Inr (Path u)
      then RawPath u
      else if Path u = ''*'' then ''*''
      else escape (Path u) encodePath)"

definition authority_string :: "url \<Rightarrow> string" where
  "authority_string u =
     (if OmitHost u \<and> Host u = [] \<and> User u = None then []
      else
        (if Host u \<noteq> [] \<or> Path u \<noteq> [] \<or> User u \<noteq> None then ''//'' else [])
        @ (case User u of None \<Rightarrow> [] | Some ui \<Rightarrow> userinfo_string ui @ ''@'')
        @ (if Host u \<noteq> [] then escape (Host u) encodeHost else []))"

text \<open>
  \<open>URL.String\<close> for a URL with a scheme, the only URLs the program prints; the fragment of such a
  URL is empty, since \<open>ParseRequestURI\<close> never sets it.
\<close>

definition URL_String :: "url \<Rightarrow> string" where
  "URL_String u =
     Scheme u @ '':''
     @ (if Opaque u \<noteq> [] then Opaque u
        else authority_string u
             @ (let path = EscapedPath u
                in (if path \<noteq> [] \<and> hd path \<noteq> CHR ''/'' \<and> Host u \<noteq> [] then ''/'' else []) @ path))
     @ (if ForceQuery u \<or> RawQuery u \<noteq> [] then ''?'' @ RawQuery u else [])"


section \<open>Escaping and unescaping are inverse\<close>

lemma char_of_eq: "char_of (n :: nat) = c \<longleftrightarrow> n mod 256 = of_char c"
  by (simp add: char_of_eq_iff take_bit_eq_mod)

lemma unreserved_graphic:
  "\<forall>c \<in> set host_delims. graphic c" "\<forall>c \<in> set unreserved_marks. graphic c"
  "\<forall>c \<in> set reserved_marks. graphic c" "\<forall>c \<in> set fragment_marks. graphic c"
  by (simp_all add: host_delims_def unreserved_marks_def reserved_marks_def fragment_marks_def
      graphic_def)

lemma alnum_graphic: "alnum c \<Longrightarrow> graphic c"
  by (auto simp: alnum_def graphic_def Let_def)

lemma not_shouldEscape_graphic: "\<not> shouldEscape c m \<Longrightarrow> graphic c"
  using alnum_graphic unreserved_graphic by (simp add: shouldEscape_def split: if_splits)

lemma hex_digit [simp]:
  assumes "n < 16"
  shows "ishex (upperhex n)" "unhex (upperhex n) = n" "graphic (upperhex n)"
    "alnum (upperhex n)"
  using assms
  by (auto simp: upperhex_def ishex_def unhex_def graphic_def alnum_def Let_def of_char_of)

lemma of_char_less_256 [simp]: "(of_char c :: nat) < 256"
  using of_char_mod_256 [of c, where 'a = nat] mod_less_divisor [of 256 "of_char c :: nat"] by simp

lemma hex_pair [simp]:
  "unhex (upperhex (of_char c div 16)) * 16 + unhex (upperhex (of_char c mod 16)) = (of_char c :: nat)"
proof -
  have "(of_char c :: nat) div 16 < 16" using of_char_less_256 [of c] by linarith
  then show ?thesis by simp
qed

lemma escape_Nil [simp]: "escape [] m = []"
  and escape_Cons: "escape (c # s) m = (if shouldEscape c m then pct c else [c]) @ escape s m"
  and escape_append: "escape (s @ t) m = escape s m @ escape t m"
  by (simp_all add: escape_def)

lemma pct_graphic: "list_all graphic (pct c)"
proof -
  have "(of_char c :: nat) div 16 < 16" using of_char_less_256 [of c] by linarith
  then show ?thesis by (simp add: pct_def) (simp add: graphic_def)
qed

lemma escape_graphic: "list_all graphic (escape s m)"
  by (induction s) (auto simp: escape_Cons pct_graphic dest: not_shouldEscape_graphic)

text \<open>A byte that must be escaped, other than the percent sign and the hexadecimal digits
  themselves, does not occur in the result.\<close>

lemma set_escape:
  "x \<in> set (escape s m) \<Longrightarrow> (x \<in> set s \<and> \<not> shouldEscape x m) \<or> x = CHR ''%'' \<or> alnum x"
proof (induction s)
  case (Cons c s)
  have "(of_char c :: nat) div 16 < 16" using of_char_less_256 [of c] by linarith
  then have "x \<in> set (pct c) \<Longrightarrow> x = CHR ''%'' \<or> alnum x"
    by (auto simp: pct_def simp del: of_char_less_256)
  with Cons show ?case by (auto simp: escape_Cons split: if_splits)
qed simp

lemma alnum_not_shouldEscape: "alnum x \<Longrightarrow> \<not> shouldEscape x m"
  by (simp add: shouldEscape_def)

lemma escape_avoids:
  "shouldEscape x m \<Longrightarrow> x \<noteq> CHR ''%'' \<Longrightarrow> x \<notin> set (escape s m)"
  using set_escape [of x s m] alnum_not_shouldEscape by blast

lemma shouldEscape_pct [simp]: "shouldEscape (CHR ''%'') m"
  by (simp add: shouldEscape_def alnum_def host_delims_def
      unreserved_marks_def reserved_marks_def fragment_marks_def)

lemma unescape_pct:
  assumes "mode \<noteq> encodeZone" "mode = encodeHost \<longrightarrow> 128 \<le> (of_char c :: nat) \<or> c = CHR ''%''"
  shows "unescape (pct c @ s) mode =
           (case unescape s mode of Inl e \<Rightarrow> Inl e | Inr t \<Rightarrow> Inr (c # t))"
proof -
  have d: "(of_char c :: nat) div 16 < 16" using of_char_less_256 [of c] by linarith
  have m: "of_char c div 16 < (8::nat) \<longrightarrow> mode = encodeHost \<longrightarrow> c = CHR ''%''"
    using assms(2) by auto
  have pc: "upperhex (of_char (CHR ''%'') div 16) = CHR ''2''"
    "upperhex (of_char (CHR ''%'') mod 16) = CHR ''5''"
    "upperhex 2 = CHR ''2''" "upperhex 5 = CHR ''5''"
    "char_of (37 :: nat) = CHR ''%''"
    by (simp_all add: upperhex_def char_of_eq)
  show ?thesis
  proof (cases "c = CHR ''%''")
    case True
    with assms(1) show ?thesis
      by (cases "unescape s mode") (simp_all add: pct_def pc ishex_def unhex_def)
  next
    case False
    with m have "mode = encodeHost \<longrightarrow> \<not> of_char c div 16 < (8::nat)" by blast
    with assms(1) d show ?thesis
      by (cases "unescape s mode") (auto simp: pct_def Let_def)
  qed
qed

lemma unescape_plain:
  assumes "\<not> shouldEscape c mode"
  shows "unescape (c # s) mode = (case unescape s mode of Inl e \<Rightarrow> Inl e | Inr t \<Rightarrow> Inr (c # t))"
  using assms by auto

lemma unescape_escape:
  assumes "mode \<noteq> encodeZone"
    "mode = encodeHost \<longrightarrow>
       list_all (\<lambda>c. \<not> shouldEscape c encodeHost \<or> 128 \<le> (of_char c :: nat) \<or> c = CHR ''%'') s"
  shows "unescape (escape s mode) mode = Inr s"
  using assms(2)
proof (induction s)
  case (Cons c s)
  then have IH: "unescape (escape s mode) mode = Inr s" by auto
  show ?case
  proof (cases "shouldEscape c mode")
    case True
    with Cons.prems assms(1) IH show ?thesis
      by (subst escape_Cons, simp) (subst unescape_pct, auto)
  next
    case False
    then have "unescape (c # escape s mode) mode = Inr (c # s)"
      by (subst unescape_plain) (simp_all add: IH del: unescape.simps)
    with False show ?thesis by (simp add: escape_Cons del: unescape.simps)
  qed
qed simp

text \<open>What an unescaped host consists of.\<close>

lemma char_of_unhex_pair:
  "ishex h \<Longrightarrow> ishex l \<Longrightarrow> unhex h < 16 \<and> unhex l < 16"
  by (auto simp: ishex_def unhex_def Let_def)

section \<open>Parsing what was printed\<close>

subsection \<open>Splitting at the last occurrence of a byte\<close>

lemma split_last_None: "split_last c s = None \<longleftrightarrow> c \<notin> set s"
  by (induction s) (auto split: option.splits)

lemma split_last_sep [simp]: "c \<notin> set b \<Longrightarrow> split_last c (a @ c # b) = Some (a, b)"
  by (induction a) (auto simp: split_last_None [THEN iffD2])

lemma split_last_SomeD: "split_last c s = Some (a, b) \<Longrightarrow> s = a @ c # b \<and> c \<notin> set b"
proof (induction s arbitrary: a)
  case (Cons x s)
  show ?case
  proof (cases "split_last c s")
    case None
    with Cons.prems show ?thesis by (auto simp: split_last_None [THEN iffD1] split: if_splits)
  next
    case (Some p)
    with Cons.prems obtain a' where "a = x # a'" "split_last c s = Some (a', b)"
      by (cases p) auto
    with Cons.IH [of a'] show ?thesis by simp
  qed
qed simp

lemma takeWhile_sep: "x \<notin> set a \<Longrightarrow> takeWhile (\<lambda>c. c \<noteq> x) (a @ x # b) = a"
  by (induction a) auto

lemma dropWhile_sep: "x \<notin> set a \<Longrightarrow> dropWhile (\<lambda>c. c \<noteq> x) (a @ x # b) = x # b"
  by (induction a) auto

lemma takeWhile_absent: "x \<notin> set s \<Longrightarrow> takeWhile (\<lambda>c. c \<noteq> x) s = s"
  by (induction s) auto

lemma dropWhile_absent: "x \<notin> set s \<Longrightarrow> dropWhile (\<lambda>c. c \<noteq> x) s = []"
  by (induction s) auto

lemma first_occurrence:
  "x \<in> set s \<Longrightarrow> takeWhile (\<lambda>c. c \<noteq> x) s @ x # drop 1 (dropWhile (\<lambda>c. c \<noteq> x) s) = s"
  by (induction s) auto

lemma not_in_takeWhile [simp]: "x \<notin> set (takeWhile (\<lambda>c. c \<noteq> x) s)"
  by (blast dest: set_takeWhileD)

subsection \<open>Hosts that are not IP literals\<close>

text \<open>A host name is lowered byte by byte when it is ASCII; neither that nor the escaping moves
  the port.\<close>

fun port_ok :: "string \<Rightarrow> bool" where
  "port_ok [] = True"
| "port_ok (c # s) =
     (if CHR '':'' \<in> set s then port_ok s else c = CHR '':'' \<longrightarrow> list_all is_digit s)"

lemma port_ok_no_colon: "CHR '':'' \<notin> set s \<Longrightarrow> port_ok s"
  by (cases s) auto

lemma port_ok_last: "CHR '':'' \<notin> set p \<Longrightarrow> port_ok (a @ CHR '':'' # p) = list_all is_digit p"
  by (induction a) auto

lemma parseHost_name:
  assumes "\<not> HasPrefix s ''[''"
  shows "parseHost s =
           (if port_ok s then unescape s encodeHost
            else Inl (Foreign ''invalid port after host''))"
proof (cases "split_last (CHR '':'') s")
  case None
  with assms show ?thesis
    by (simp add: parseHost_def port_ok_no_colon split_last_None [THEN iffD1])
next
  case (Some ap)
  then obtain a p where ap: "ap = (a, p)" "s = a @ CHR '':'' # p" "CHR '':'' \<notin> set p"
    by (cases ap) (auto dest: split_last_SomeD)
  with assms Some show ?thesis
    by (simp add: parseHost_def validOptionalPort_def port_ok_last)
qed

lemma not_hex_colon: "ishex c \<Longrightarrow> c \<noteq> CHR '':''"
  by (auto simp: ishex_def Let_def)

text \<open>One step of unescaping a host, as a case rule.\<close>

lemma unescape_host_cases [consumes 1, case_names pct plain]:
  assumes "unescape (c # s) encodeHost = Inr h"
  obtains (pct) a b s' v t where "c = CHR ''%''" "s = a # b # s'" "ishex a" "ishex b" "h = v # t"
      "unescape s' encodeHost = Inr t" "128 \<le> (of_char v :: nat) \<or> v = CHR ''%''"
  | (plain) t where "c \<noteq> CHR ''%''" "h = c # t" "unescape s encodeHost = Inr t"
      "128 \<le> (of_char c :: nat) \<or> \<not> shouldEscape c encodeHost"
proof (cases "c = CHR ''%''")
  case True
  with assms obtain a b s' where s: "s = a # b # s'" and hex: "ishex a" "ishex b"
    by (auto split: list.splits if_splits)
  from True assms s hex obtain t where t: "unescape s' encodeHost = Inr t" and
    h: "h = char_of (unhex a * 16 + unhex b) # t" and
    ok: "8 \<le> unhex a \<or> a = CHR ''2'' \<and> b = CHR ''5''"
    by (auto simp: Let_def split: if_splits sum.splits)
  have "unhex a * 16 + unhex b < 256" using char_of_unhex_pair [OF hex] by linarith
  moreover have "128 \<le> unhex a * 16 + unhex b \<or> unhex a * 16 + unhex b = 37"
    using ok by (auto simp: unhex_def)
  ultimately have
    "128 \<le> (of_char (char_of (unhex a * 16 + unhex b) :: char) :: nat)
      \<or> char_of (unhex a * 16 + unhex b) = CHR ''%''"
    by (auto simp: of_char_of char_of_eq)
  then show thesis using pct True s hex t h by blast
next
  case False
  with assms obtain t where "unescape s encodeHost = Inr t" "h = c # t"
    "128 \<le> (of_char c :: nat) \<or> \<not> shouldEscape c encodeHost"
    by (auto split: if_splits sum.splits)
  with False show thesis using plain by blast
qed

lemma unescape_host_induct [consumes 1, case_names Nil pct plain]:
  assumes "unescape s encodeHost = Inr h"
    and "P [] []"
    and "\<And>a b s v t. ishex a \<Longrightarrow> ishex b \<Longrightarrow> unescape s encodeHost = Inr t \<Longrightarrow>
           128 \<le> (of_char v :: nat) \<or> v = CHR ''%'' \<Longrightarrow> P s t \<Longrightarrow>
           P (CHR ''%'' # a # b # s) (v # t)"
    and "\<And>c s t. c \<noteq> CHR ''%'' \<Longrightarrow> unescape s encodeHost = Inr t \<Longrightarrow>
           128 \<le> (of_char c :: nat) \<or> \<not> shouldEscape c encodeHost \<Longrightarrow> P s t \<Longrightarrow> P (c # s) (c # t)"
  shows "P s h"
  using assms(1)
proof (induction "length s" arbitrary: s h rule: less_induct)
  case less
  show ?case
  proof (cases s)
    case Nil
    with less.prems assms(2) show ?thesis by simp
  next
    case (Cons c r)
    from less.prems have "unescape (c # r) encodeHost = Inr h" unfolding Cons .
    then show ?thesis
    proof (cases rule: unescape_host_cases)
      case (pct a b s' v t)
      with Cons less.hyps [of s' t] assms(3) show ?thesis by simp
    next
      case (plain t)
      with Cons less.hyps [of r t] assms(4) show ?thesis by simp
    qed
  qed
qed

lemma unescape_host_chars:
  "unescape s encodeHost = Inr h \<Longrightarrow>
     list_all (\<lambda>c. \<not> shouldEscape c encodeHost \<or> 128 \<le> (of_char c :: nat) \<or> c = CHR ''%'') h"
  by (induction rule: unescape_host_induct) auto

lemma unescape_host_colon:
  "unescape s encodeHost = Inr h \<Longrightarrow> CHR '':'' \<in> set h \<longleftrightarrow> CHR '':'' \<in> set s"
  by (induction rule: unescape_host_induct) (auto dest: not_hex_colon)

lemma unescape_host_digits:
  "unescape s encodeHost = Inr h \<Longrightarrow> list_all is_digit s \<Longrightarrow> h = s"
  by (induction rule: unescape_host_induct) (auto simp: is_digit_def)

lemma unescape_host_port_ok:
  "unescape s encodeHost = Inr h \<Longrightarrow> port_ok s \<Longrightarrow> port_ok h"
proof (induction rule: unescape_host_induct)
  case (pct a b s v t)
  then show ?case
    using unescape_host_colon [OF pct(3)] not_hex_colon [OF pct(1)] not_hex_colon [OF pct(2)]
    by (auto simp: port_ok_no_colon split: if_split_asm)
next
  case (plain c s t)
  then show ?case
    using unescape_host_colon [OF plain(2)] unescape_host_digits [OF plain(2)]
    by (auto split: if_splits)
qed simp

lemma unescape_host_hd:
  "unescape s encodeHost = Inr h \<Longrightarrow> HasPrefix s ''['' \<Longrightarrow> HasPrefix h ''[''"
  by (induction rule: unescape_host_induct) (auto simp: HasPrefix_def)

lemma lower_char_simps:
  "lower_char c = CHR '':'' \<longleftrightarrow> c = CHR '':''"
  "lower_char c = CHR ''%'' \<longleftrightarrow> c = CHR ''%''"
  "lower_char c = CHR ''['' \<longleftrightarrow> c = CHR ''[''"
  "is_digit (lower_char c) \<longleftrightarrow> is_digit c"
  by (auto simp: lower_char_def is_digit_def char_of_eq of_char_of)

lemma port_ok_lower: "port_ok (map lower_char s) = port_ok s"
proof (induction s)
  case (Cons c s)
  have colon: "CHR '':'' = lower_char x \<longleftrightarrow> x = CHR '':''" for x
    using lower_char_simps(1) [of x] by fastforce
  have "CHR '':'' \<in> lower_char ` set s \<longleftrightarrow> CHR '':'' \<in> set s"
    by (simp add: image_iff colon)
  with Cons show ?case by (simp add: lower_char_simps list.pred_map comp_def)
qed simp

lemma digit_alnum: "is_digit c \<Longrightarrow> alnum c"
  by (auto simp: is_digit_def alnum_def Let_def)

lemma escape_digits: "list_all is_digit s \<Longrightarrow> escape s m = s"
  by (induction s) (auto simp: escape_Cons dest: digit_alnum alnum_not_shouldEscape)

lemma colon_host [simp]: "\<not> shouldEscape (CHR '':'') encodeHost"
  by (simp add: shouldEscape_def host_delims_def)

lemma escape_colon: "CHR '':'' \<in> set (escape s encodeHost) \<longleftrightarrow> CHR '':'' \<in> set s"
proof
  show "CHR '':'' \<in> set (escape s encodeHost) \<Longrightarrow> CHR '':'' \<in> set s"
    using set_escape [of "CHR '':''" s encodeHost] by (auto simp: alnum_def)
  show "CHR '':'' \<in> set s \<Longrightarrow> CHR '':'' \<in> set (escape s encodeHost)"
    by (auto simp: escape_def)
qed

lemma port_ok_pct: "port_ok (pct c @ s) = port_ok s"
proof -
  have "(of_char c :: nat) div 16 < 16" using of_char_less_256 [of c] by linarith
  then have "upperhex (of_char c div 16) \<noteq> CHR '':''" "upperhex (of_char c mod 16) \<noteq> CHR '':''"
    using not_hex_colon [OF hex_digit(1)] by auto
  then show ?thesis by (auto simp: pct_def port_ok_no_colon)
qed

lemma port_ok_escape: "port_ok (escape s encodeHost) = port_ok s"
proof (induction s)
  case (Cons c s)
  show ?case
  proof (cases "shouldEscape c encodeHost")
    case True
    then have "c \<noteq> CHR '':''" by auto
    with True Cons show ?thesis by (auto simp: escape_Cons port_ok_pct port_ok_no_colon)
  next
    case False
    have "list_all is_digit (escape s encodeHost) \<longleftrightarrow> list_all is_digit s"
      if "CHR '':'' \<notin> set s"
    proof
      assume d: "list_all is_digit (escape s encodeHost)"
      have "CHR ''%'' \<notin> set (escape s encodeHost)"
        using d by (auto simp: list_all_iff is_digit_def)
      then have "\<forall>x \<in> set s. \<not> shouldEscape x encodeHost"
        by (auto simp: escape_def pct_def split: if_splits)
      then have "escape s encodeHost = s"
        by (induction s) (auto simp: escape_Cons)
      with d show "list_all is_digit s" by simp
    qed (simp add: escape_digits)
    with False Cons show ?thesis by (auto simp: escape_Cons escape_colon)
  qed
qed simp

end
