(* ===== verification/Destination.thy ===== *)
theory Destination
  imports GoUrl
begin

text \<open>
  \<^verbatim>\<open>internal/link/domain/destination_url.go\<close>: the value object for the URL a link points to,
  its validation and its normalisation.
\<close>

section \<open>The value object\<close>

record destination_url =
  dest_value :: string

definition NewDestinationURL :: "(string \<Rightarrow> string) \<Rightarrow> string \<Rightarrow> err + destination_url" where
  "NewDestinationURL ul raw =
     (let trimmed = TrimSpace raw
      in if trimmed = [] then Inl (Domain ErrEmptyDestination)
         else
           (case ParseRequestURI trimmed of
              Inl e \<Rightarrow> Inl (Domain ErrMalformedDestination)
            | Inr parsed \<Rightarrow>
                if Scheme parsed = [] then Inl (Domain ErrMalformedDestination)
                else
                  let parsed = parsed\<lparr>Scheme := ToLower ul (Scheme parsed)\<rparr>
                  in if Scheme parsed \<noteq> ''http'' \<and> Scheme parsed \<noteq> ''https''
                     then Inl (Domain ErrUnsupportedScheme)
                     else if Host parsed = [] then Inl (Domain ErrMissingHost)
                     else
                       let parsed = parsed\<lparr>Host := ToLower ul (Host parsed)\<rparr>
                       in Inr \<lparr>dest_value = URL_String parsed\<rparr>))"

definition dest_String :: "destination_url \<Rightarrow> string" where
  "dest_String d = dest_value d"

definition dest_IsZero :: "destination_url \<Rightarrow> bool" where
  "dest_IsZero d \<longleftrightarrow> dest_value d = []"

text \<open>The zero value \<^verbatim>\<open>DestinationURL{}\<close>.\<close>

definition zero_destination :: destination_url where
  "zero_destination = \<lparr>dest_value = []\<rparr>"

section \<open>The shape of a URL with an authority\<close>

definition query_string :: "bool \<Rightarrow> string \<Rightarrow> string" where
  "query_string f q = (if f \<or> q \<noteq> [] then CHR ''?'' # q else [])"

lemma HasPrefix_slash: "HasPrefix s ''/'' \<longleftrightarrow> s \<noteq> [] \<and> hd s = CHR ''/''"
  by (cases s) (auto simp: HasPrefix_def)

lemma scheme_loop_parts:
  "scheme_loop raw pre s = Inr (sch, r) \<Longrightarrow> sch \<noteq> [] \<Longrightarrow> pre @ s = sch @ CHR '':'' # r"
  by (induction raw pre s rule: scheme_loop.induct) (auto split: if_splits)

lemma is_alpha_ascii: "is_alpha c \<Longrightarrow> (of_char c :: nat) < 128"
  and is_digit_ascii: "is_digit c \<Longrightarrow> (of_char c :: nat) < 128"
  by (auto simp: is_alpha_def alnum_def is_digit_def Let_def)

lemma scheme_loop_ascii:
  "scheme_loop raw pre s = Inr (sch, r) \<Longrightarrow> is_ascii pre \<Longrightarrow> is_ascii sch"
  by (induction raw pre s rule: scheme_loop.induct)
    (auto simp: is_ascii_def dest: is_alpha_ascii is_digit_ascii split: if_split_asm)

lemma getScheme_ascii: "getScheme t = Inr (sch, r) \<Longrightarrow> is_ascii sch"
  unfolding getScheme_def by (erule scheme_loop_ascii) (simp add: is_ascii_def)

lemma getScheme_parts: "getScheme t = Inr (sch, r) \<Longrightarrow> sch \<noteq> [] \<Longrightarrow> t = sch @ CHR '':'' # r"
  unfolding getScheme_def by (drule scheme_loop_parts) auto

lemma cut_query_parts:
  assumes "cut_query s = (r, q, f)"
  shows "s = r @ query_string f q" "CHR ''?'' \<notin> set r" "f \<longrightarrow> q = []"
proof -
  have "s = r @ query_string f q \<and> CHR ''?'' \<notin> set r \<and> (f \<longrightarrow> q = [])"
  proof (cases "s \<noteq> [] \<and> last s = CHR ''?'' \<and> count_list s (CHR ''?'') = 1")
    case True
    then have s: "s = butlast s @ [CHR ''?'']" by (metis append_butlast_last_id)
    then have "count_list (butlast s @ [CHR ''?'']) (CHR ''?'') = 1" using True by metis
    then have "CHR ''?'' \<notin> set (butlast s)" by (simp add: count_list_0_iff)
    with True s assms show ?thesis by (simp add: cut_query_def query_string_def)
  next
    case False
    have rq: "r = takeWhile (\<lambda>x. x \<noteq> CHR ''?'') s" "q = drop 1 (dropWhile (\<lambda>x. x \<noteq> CHR ''?'') s)"
      "\<not> f"
      using assms False by (simp_all add: cut_query_def Cut_def split: if_split_asm)
    have notin: "CHR ''?'' \<notin> set r" by (simp add: rq)
    have "s = r @ query_string f q"
    proof (cases "CHR ''?'' \<in> set s")
      case True
      have s: "s = r @ CHR ''?'' # q"
        unfolding rq(1,2) by (rule first_occurrence [OF True, symmetric])
      have "q \<noteq> []"
      proof
        assume "q = []"
        with s have "s = r @ [CHR ''?'']" by simp
        with notin have "s \<noteq> []" "last s = CHR ''?''" "count_list s (CHR ''?'') = 1"
          by (simp_all add: count_list_0_iff)
        with False show False by blast
      qed
      then have "query_string f q = CHR ''?'' # q" by (simp add: query_string_def)
      then show ?thesis by (simp only:) (rule s)
    qed (use rq in \<open>simp add: takeWhile_absent dropWhile_absent query_string_def\<close>)
    with notin rq(3) show ?thesis by blast
  qed
  then show "s = r @ query_string f q" "CHR ''?'' \<notin> set r" "f \<longrightarrow> q = []" by auto
qed

lemma cut_query_build:
  assumes "CHR ''?'' \<notin> set r" "f \<longrightarrow> q = []"
  shows "cut_query (r @ query_string f q) = (r, q, f)"
proof (cases "f \<or> q = []")
  case True
  with assms show ?thesis
    by (auto simp: cut_query_def query_string_def Cut_def count_list_0_iff takeWhile_absent
        dropWhile_absent)
next
  case False
  have "\<not> (last (r @ CHR ''?'' # q) = CHR ''?'' \<and> count_list (r @ CHR ''?'' # q) (CHR ''?'') = 1)"
  proof
    assume "last (r @ CHR ''?'' # q) = CHR ''?'' \<and> count_list (r @ CHR ''?'' # q) (CHR ''?'') = 1"
    with False have "CHR ''?'' \<in> set q" "CHR ''?'' \<notin> set q"
      using last_in_set [of q] by (auto simp: count_list_0_iff split: if_splits)
    then show False by simp
  qed
  with False assms show ?thesis
    by (simp add: cut_query_def query_string_def Cut_def takeWhile_sep dropWhile_sep)
qed

lemma split_authority_parts:
  assumes "split_authority s = (a, p)"
  shows "s = a @ p" "CHR ''/'' \<notin> set a" "p = [] \<or> hd p = CHR ''/''"
proof -
  have ap: "a = takeWhile (\<lambda>c. c \<noteq> CHR ''/'') s" "p = dropWhile (\<lambda>c. c \<noteq> CHR ''/'') s"
    using assms by (simp_all add: split_authority_def)
  show "s = a @ p" by (simp add: ap)
  show "CHR ''/'' \<notin> set a" by (simp add: ap)
  show "p = [] \<or> hd p = CHR ''/''"
    using hd_dropWhile [of "\<lambda>c. c \<noteq> CHR ''/''" s] by (auto simp: ap)
qed

lemma split_authority_build:
  "CHR ''/'' \<notin> set a \<Longrightarrow> p = [] \<or> hd p = CHR ''/'' \<Longrightarrow> split_authority (a @ p) = (a, p)"
  unfolding split_authority_def
  by (cases p) (auto simp: takeWhile_sep dropWhile_sep takeWhile_absent dropWhile_absent)


lemma unescape_hd_plain:
  "unescape (c # s) m = Inr t \<Longrightarrow> c \<noteq> CHR ''%'' \<Longrightarrow> \<exists>t'. t = c # t' \<and> unescape s m = Inr t'"
  by (auto split: if_splits sum.splits)

lemma unescape_path_hd:
  assumes "unescape p m = Inr t" "p = [] \<or> hd p = CHR ''/''"
  shows "t = [] \<and> p = [] \<or> (\<exists>t'. t = CHR ''/'' # t')"
  using assms by (cases p) (auto simp del: unescape.simps(2) dest!: unescape_hd_plain)

text \<open>What \<open>ParseRequestURI\<close> has read when it returns a URL with a scheme and a host.\<close>

lemma ParseRequestURI_parts:
  assumes "ParseRequestURI t = Inr u" "Scheme u \<noteq> []" "Host u \<noteq> []"
  obtains sch auth p where
    "\<not> contains_ctl t" "sch \<noteq> []" "is_ascii sch" "Scheme u = map lower_char sch"
    "t = sch @ '':'' @ ''//'' @ auth @ p @ query_string (ForceQuery u) (RawQuery u)"
    "CHR ''?'' \<notin> set (auth @ p)" "ForceQuery u \<longrightarrow> RawQuery u = []"
    "CHR ''/'' \<notin> set auth" "p = [] \<or> hd p = CHR ''/''"
    "parseAuthority auth = Inr (User u, Host u)" "unescape p encodePath = Inr (Path u)"
    "RawPath u = (if p = escape (Path u) encodePath then [] else p)"
    "Opaque u = []" "\<not> OmitHost u"
proof -
  have ctl: "\<not> contains_ctl t" and star: "t \<noteq> ''*''"
    using assms by (auto simp: ParseRequestURI_def parse_def empty_url_def split: if_splits)
  then obtain sch rest0 where gs: "getScheme t = Inr (sch, rest0)"
    using assms(1) by (auto simp: ParseRequestURI_def parse_def split: if_splits sum.splits)
  obtain rest q f where cq: "cut_query rest0 = (rest, q, f)" by (metis prod_cases3)
  define u0 where "u0 = empty_url\<lparr>Scheme := map lower_char sch, RawQuery := q, ForceQuery := f\<rparr>"
  have u0: "Scheme u0 = map lower_char sch" "RawQuery u0 = q" "ForceQuery u0 = f" "Opaque u0 = []"
    "OmitHost u0 = False" "Host u0 = []"
    by (simp_all add: u0_def empty_url_def)
  have hier: "parse_hier u0 rest True = Inr u"
    using assms ctl star gs cq
    by (auto simp: ParseRequestURI_def parse_def u0_def empty_url_def Let_def split: if_splits)
  have slashes: "HasPrefix rest ''//''" and sch: "sch \<noteq> []"
    using hier assms u0
    by (auto simp: parse_hier_def setPath_def split: if_splits sum.splits prod.splits)
  obtain auth p where sa: "split_authority (drop 2 rest) = (auth, p)" by fastforce
  have rest: "rest = ''//'' @ auth @ p"
    using slashes split_authority_parts(1) [OF sa]
    by (simp add: HasPrefix_iff) (auto simp: HasPrefix_def)
  obtain usr h where pa: "parseAuthority auth = Inr (usr, h)"
    and sp: "setPath (u0\<lparr>User := usr, Host := h\<rparr>) p = Inr u"
    using hier slashes sch sa u0(1)
    by (auto simp: parse_hier_def split: sum.splits prod.splits)
  note q = cut_query_parts [OF cq]
  have t: "t = sch @ '':'' @ ''//'' @ auth @ p @ query_string f q"
    using getScheme_parts [OF gs sch] q(1) rest by simp
  show thesis
    using that [of sch auth p] ctl sch t pa sp u0 q(2,3) rest split_authority_parts(2,3) [OF sa]
      getScheme_ascii [OF gs]
    by (auto simp: setPath_def split: sum.splits)
qed

lemma EscapedPath_hd:
  assumes "unescape p encodePath = Inr (Path u)" "p = [] \<or> hd p = CHR ''/''"
    "RawPath u = (if p = escape (Path u) encodePath then [] else p)"
  shows "EscapedPath u = [] \<or> hd (EscapedPath u) = CHR ''/''"
    "unescape (EscapedPath u) encodePath = Inr (Path u)"
    "list_all graphic (EscapedPath u)" "CHR ''?'' \<notin> set p \<Longrightarrow> CHR ''?'' \<notin> set (EscapedPath u)"
    "CHR ''#'' \<notin> set (EscapedPath u)"
    "Path v = Path u \<Longrightarrow>
      RawPath v = (if EscapedPath u = escape (Path u) encodePath then [] else EscapedPath u) \<Longrightarrow>
      EscapedPath v = EscapedPath u"
proof -
  have slash: "\<not> shouldEscape (CHR ''/'') encodePath"
    by (simp add: shouldEscape_def reserved_marks_def)
  have path: "Path u = [] \<and> p = [] \<or> (\<exists>t'. Path u = CHR ''/'' # t')"
    by (rule unescape_path_hd [OF assms(1,2)])
  then have star: "Path u \<noteq> ''*''" by auto
  have esc: "EscapedPath u = escape (Path u) encodePath
    \<or> EscapedPath u = p \<and> RawPath u = p \<and> validEncoded p encodePath"
    using star assms(3) by (auto simp: EscapedPath_def)
  have q: "shouldEscape (CHR ''?'') encodePath" "shouldEscape (CHR ''#'') encodePath"
    by (simp_all add: shouldEscape_def reserved_marks_def unreserved_marks_def alnum_def
        is_digit_def)
  show "EscapedPath u = [] \<or> hd (EscapedPath u) = CHR ''/''"
    using esc path assms(2) slash by (auto simp: escape_Cons)
  show "unescape (EscapedPath u) encodePath = Inr (Path u)"
    using esc assms(1) by (auto simp: unescape_escape)
  show "list_all graphic (EscapedPath u)"
  proof -
    have "\<forall>c \<in> set pchar_marks. graphic c" by (simp add: pchar_marks_def graphic_def)
    then have "validEncoded p encodePath \<Longrightarrow> list_all graphic p"
      unfolding validEncoded_def list_all_iff using not_shouldEscape_graphic by blast
    then show ?thesis using esc by (auto simp: escape_graphic)
  qed
  show "EscapedPath v = EscapedPath u"
    if v: "Path v = Path u"
      "RawPath v = (if EscapedPath u = escape (Path u) encodePath then [] else EscapedPath u)"
  proof (cases "EscapedPath u = escape (Path u) encodePath")
    case True
    with v star show ?thesis by (simp add: EscapedPath_def [of v])
  next
    case False
    with esc have "EscapedPath u = p" "validEncoded p encodePath" by auto
    moreover have "p \<noteq> []" using False assms(1) calculation(1) by auto
    ultimately show ?thesis using v False assms(1) by (simp add: EscapedPath_def [of v])
  qed
  show "CHR ''?'' \<notin> set p \<Longrightarrow> CHR ''?'' \<notin> set (EscapedPath u)"
    using esc escape_avoids [OF q(1)] by auto
  show "CHR ''#'' \<notin> set (EscapedPath u)"
  proof -
    have "CHR ''#'' \<notin> set pchar_marks" by (simp add: pchar_marks_def)
    then have "validEncoded p encodePath \<Longrightarrow> CHR ''#'' \<notin> set p"
      unfolding validEncoded_def list_all_iff using q(2) by blast
    then show ?thesis using esc escape_avoids [OF q(2)] by auto
  qed
qed


subsection \<open>The authority, printed and parsed again\<close>

definition printed_authority :: "userinfo option \<Rightarrow> string \<Rightarrow> string" where
  "printed_authority usr h =
     (case usr of None \<Rightarrow> [] | Some ui \<Rightarrow> userinfo_string ui @ ''@'') @ escape h encodeHost"

lemma split_sub_SomeD: "split_sub p s = Some (a, b) \<Longrightarrow> s = a @ b \<and> HasPrefix b p"
proof (induction s arbitrary: a)
  case (Cons x s)
  then show ?case by (auto split: if_splits option.splits)
qed (auto simp: HasPrefix_def split: if_splits)

lemma parseHost_bracket:
  assumes "parseHost hs = Inr h" "HasPrefix hs ''[''"
  shows "HasPrefix h ''[''"
proof -
  obtain inner cp where il: "split_last (CHR '']'') hs = Some (inner, cp)"
    using assms by (auto simp: parseHost_def split: option.splits)
  then have "hs = inner @ CHR '']'' # cp" by (blast dest: split_last_SomeD)
  with assms(2) have inner: "HasPrefix inner ''[''" by (cases inner) (auto simp: HasPrefix_def)
  show ?thesis
  proof (cases "split_sub ''%25'' inner")
    case None
    with assms il have "unescape hs encodeHost = Inr h"
      by (auto simp: parseHost_def split: if_splits)
    with assms(2) show ?thesis by (blast intro: unescape_host_hd)
  next
    case (Some hz)
    obtain h1 z where hz: "hz = (h1, z)" by fastforce
    with Some have "inner = h1 @ z" "HasPrefix z ''%25''" by (auto dest: split_sub_SomeD)
    with inner have "HasPrefix h1 ''[''" by (cases h1; cases z) (auto simp: HasPrefix_def)
    moreover obtain host1 r where "unescape h1 encodeHost = Inr host1" "h = host1 @ r"
      using assms il Some hz by (auto simp: parseHost_def split: if_splits sum.splits)
    ultimately show ?thesis using unescape_host_hd by (fastforce simp: HasPrefix_iff)
  qed
qed

lemma parseHost_printed:
  assumes "parseHost hs = Inr h" "is_ascii h" "\<not> HasPrefix h ''[''"
  shows "parseHost (escape (map lower_char h) encodeHost) = Inr (map lower_char h)"
proof -
  let ?h = "map lower_char h"
  have nb: "\<not> HasPrefix hs ''[''" using assms parseHost_bracket by blast
  with assms(1) have ok: "port_ok hs" and un: "unescape hs encodeHost = Inr h"
    by (auto simp: parseHost_name split: if_splits)
  have "port_ok (escape ?h encodeHost)"
    using unescape_host_port_ok [OF un ok] by (simp add: port_ok_escape port_ok_lower)
  moreover have "\<not> HasPrefix (escape ?h encodeHost) ''[''"
  proof (cases h)
    case (Cons c r)
    with assms(3) have "lower_char c \<noteq> CHR ''[''" by (auto simp: HasPrefix_def lower_char_simps)
    then show ?thesis using Cons by (auto simp: HasPrefix_def escape_Cons pct_def)
  qed (simp add: HasPrefix_def)
  moreover have "unescape (escape ?h encodeHost) encodeHost = Inr ?h"
  proof (rule unescape_escape)
    have "\<not> shouldEscape (lower_char c) encodeHost \<or> lower_char c = CHR ''%''"
      if "c \<in> set h" for c
    proof -
      have "lower_char c = c \<or> alnum (lower_char c)"
        by (auto simp: lower_char_def alnum_def Let_def of_char_of)
      moreover have "\<not> shouldEscape c encodeHost \<or> c = CHR ''%''"
        using unescape_host_chars [OF un] assms(2) that
        by (fastforce simp: list_all_iff is_ascii_def)
      ultimately show ?thesis using alnum_not_shouldEscape lower_char_simps(2) by metis
    qed
    then show "encodeHost = encodeHost \<longrightarrow> list_all (\<lambda>c. \<not> shouldEscape c encodeHost
        \<or> 128 \<le> (of_char c :: nat) \<or> c = CHR ''%'') ?h"
      by (auto simp: list_all_iff)
  qed simp
  ultimately show ?thesis by (simp add: parseHost_name)
qed

lemma user_marks:
  assumes "\<not> shouldEscape c encodeUserPassword"
  shows "alnum c \<or> c \<in> set userinfo_marks"
proof -
  have "set unreserved_marks \<subseteq> set userinfo_marks"
    "{c \<in> set reserved_marks. c \<notin> {CHR ''@'', CHR ''/'', CHR ''?'', CHR '':''}} \<subseteq> set userinfo_marks"
    by (auto simp: unreserved_marks_def reserved_marks_def userinfo_marks_def)
  with assms show ?thesis by (auto simp: shouldEscape_def split: if_splits)
qed

lemma escape_user_valid: "validUserinfo (escape s encodeUserPassword)"
proof -
  have pc: "CHR ''%'' \<in> set userinfo_marks" by (simp add: userinfo_marks_def)
  have "alnum c \<or> c \<in> set userinfo_marks"
    if "c \<in> set (escape s encodeUserPassword)" for c
    using set_escape [OF that] user_marks pc by blast
  then show ?thesis unfolding validUserinfo_def list_all_iff by blast
qed

lemma should_escape_marks [simp]:
  "shouldEscape (CHR ''@'') encodeHost" "shouldEscape (CHR ''/'') encodeHost"
  "shouldEscape (CHR ''?'') encodeHost" "shouldEscape (CHR ''#'') encodeHost"
  "shouldEscape (CHR '':'') encodeUserPassword" "shouldEscape (CHR ''/'') encodeUserPassword"
  "shouldEscape (CHR ''?'') encodeUserPassword" "shouldEscape (CHR ''#'') encodeUserPassword"
  by (simp_all add: shouldEscape_def host_delims_def unreserved_marks_def reserved_marks_def
      alnum_def)

lemma validUserinfo_append:
  "validUserinfo (s @ t) \<longleftrightarrow> validUserinfo s \<and> validUserinfo t"
  "validUserinfo (CHR '':'' # t) \<longleftrightarrow> validUserinfo t"
  "validUserinfo []"
  by (simp_all add: validUserinfo_def userinfo_marks_def)

lemma graphic_marks [simp]:
  "graphic (CHR ''@'')" "graphic (CHR '':'')" "graphic (CHR ''/'')" "graphic (CHR ''?'')"
  by (simp_all add: graphic_def)

lemma userinfo_string_valid:
  "validUserinfo (userinfo_string ui)"
  "CHR ''/'' \<notin> set (userinfo_string ui)" "CHR ''?'' \<notin> set (userinfo_string ui)"
  "CHR ''#'' \<notin> set (userinfo_string ui)" "list_all graphic (userinfo_string ui)"
  by (simp_all add: userinfo_string_def escape_avoids escape_user_valid escape_graphic
      validUserinfo_append split: option.splits)

lemma printed_authority_avoids:
  "CHR ''/'' \<notin> set (printed_authority usr h)" "CHR ''?'' \<notin> set (printed_authority usr h)"
  "CHR ''#'' \<notin> set (printed_authority usr h)" "list_all graphic (printed_authority usr h)"
  by (simp_all add: printed_authority_def userinfo_string_valid escape_avoids escape_graphic
      split: option.splits)

lemma parseAuthority_printed:
  assumes "parseHost (escape h encodeHost) = Inr h"
  shows "parseAuthority (printed_authority usr h) = Inr (usr, h)"
proof (cases usr)
  case None
  have "split_last (CHR ''@'') (escape h encodeHost) = None"
    by (simp add: split_last_None escape_avoids)
  with None assms show ?thesis by (simp add: parseAuthority_def printed_authority_def)
next
  case (Some ui)
  have sl: "split_last (CHR ''@'') (userinfo_string ui @ CHR ''@'' # escape h encodeHost)
      = Some (userinfo_string ui, escape h encodeHost)"
    by (simp add: escape_avoids)
  have un: "unescape (escape x encodeUserPassword) encodeUserPassword = Inr x" for x
    by (simp add: unescape_escape)
  show ?thesis
  proof (cases "password ui")
    case None
    then have "userinfo_string ui = escape (username ui) encodeUserPassword"
      by (simp add: userinfo_string_def)
    with None Some sl assms un userinfo_string_valid(1) [of ui] show ?thesis
      by (simp add: parseAuthority_def printed_authority_def escape_avoids)
  next
    case (Some pw)
    then have us: "userinfo_string ui = escape (username ui) encodeUserPassword @ CHR '':''
        # escape pw encodeUserPassword"
      by (simp add: userinfo_string_def)
    have "Cut (CHR '':'') (userinfo_string ui)
        = (escape (username ui) encodeUserPassword, escape pw encodeUserPassword, True)"
      by (simp add: Cut_def us takeWhile_sep dropWhile_sep escape_avoids)
    with us Some \<open>usr = Some ui\<close> sl assms un userinfo_string_valid(1) [of ui] show ?thesis
      by (simp add: parseAuthority_def printed_authority_def)
  qed
qed


subsection \<open>The whole URL, printed and parsed again\<close>

lemma URL_String_printed:
  assumes "Opaque u = []" "Host u \<noteq> []" "EscapedPath u = [] \<or> hd (EscapedPath u) = CHR ''/''"
  shows "URL_String u = Scheme u @ '':'' @ ''//'' @ printed_authority (User u) (Host u)
           @ EscapedPath u @ query_string (ForceQuery u) (RawQuery u)"
  using assms
  by (auto simp: URL_String_def authority_string_def printed_authority_def query_string_def Let_def)

lemma getScheme_http:
  assumes "sch = ''http'' \<or> sch = ''https''"
  shows "getScheme (sch @ '':'' @ r) = Inr (sch, r)"
proof -
  have "is_alpha (CHR ''h'')" "is_alpha (CHR ''t'')" "is_alpha (CHR ''p'')" "is_alpha (CHR ''s'')"
    "\<not> is_alpha (CHR '':'')" "\<not> is_digit (CHR '':'')"
    by (simp_all add: is_alpha_def alnum_def is_digit_def)
  with assms show ?thesis by (auto simp: getScheme_def)
qed

lemma parse_printed:
  assumes sch: "sch = ''http'' \<or> sch = ''https''"
    and ctl: "\<not> contains_ctl (sch @ '':'' @ ''//'' @ auth @ p @ query_string f q)"
    and "CHR ''?'' \<notin> set (auth @ p)" "f \<longrightarrow> q = []" "CHR ''/'' \<notin> set auth"
    and "p = [] \<or> hd p = CHR ''/''"
    and "parseAuthority auth = Inr (usr, h)" "unescape p encodePath = Inr path"
  shows "ParseRequestURI (sch @ '':'' @ ''//'' @ auth @ p @ query_string f q) = Inr
    \<lparr>Scheme = sch, Opaque = [], User = usr, Host = h, Path = path,
     RawPath = (if p = escape path encodePath then [] else p), OmitHost = False, ForceQuery = f,
     RawQuery = q, Fragment = []\<rparr>"
proof -
  have low: "map lower_char sch = sch" "sch \<noteq> []"
    using sch by (auto simp: lower_char_def)
  have cq: "cut_query (''//'' @ auth @ p @ query_string f q) = (''//'' @ auth @ p, q, f)"
    using cut_query_build [of "''//'' @ auth @ p" f q] assms(3,4) by simp
  have sa: "split_authority (auth @ p) = (auth, p)"
    using assms(5,6) by (rule split_authority_build)
  define u0 where "u0 = empty_url\<lparr>Scheme := sch, RawQuery := q, ForceQuery := f\<rparr>"
  have gs: "getScheme (sch @ '':'' @ ''//'' @ auth @ p @ query_string f q)
      = Inr (sch, ''//'' @ auth @ p @ query_string f q)"
    by (rule getScheme_http [OF sch])
  have "parse (sch @ '':'' @ ''//'' @ auth @ p @ query_string f q) True
      = parse_hier u0 (''//'' @ auth @ p) True"
    using ctl gs cq low sch unfolding parse_def u0_def
    by (auto simp: HasPrefix_def)
  also have "\<dots> = setPath (u0\<lparr>User := usr, Host := h\<rparr>) p"
    using sa low assms(7) by (simp add: parse_hier_def u0_def empty_url_def HasPrefix_def)
  finally show ?thesis
    using assms(8) by (simp add: ParseRequestURI_def setPath_def u0_def empty_url_def)
qed

lemma leading_sep:
  assumes "\<forall>w \<in> set ws. x \<notin> set w" "leading ws (a @ x # b) = None"
  shows "leading ws (a @ x # c) = None"
proof -
  have "w = [] \<or> take (length w) (a @ x # c) \<noteq> w" if w: "w \<in> set ws" for w
  proof (rule ccontr)
    assume neg: "\<not> (w = [] \<or> take (length w) (a @ x # c) \<noteq> w)"
    have "length w \<le> length a"
    proof (rule ccontr)
      assume "\<not> length w \<le> length a"
      then obtain k where "length w = length a + Suc k"
        by (metis add_Suc_right less_imp_Suc_add not_le)
      then have "x \<in> set (take (length w) (a @ x # c))" by simp
      then have "x \<in> set w" using neg by metis
      with assms(1) w show False by blast
    qed
    with neg have "take (length w) (a @ x # b) = w" by simp
    moreover have "w = [] \<or> take (length w) (a @ x # b) \<noteq> w"
      using assms(2) w by (auto simp: leading_def find_None_all)
    ultimately show False using neg by blast
  qed
  then show ?thesis by (auto simp: leading_def find_None_all)
qed

lemma TrimSpace_same_query:
  assumes "TrimSpace t = t" "t = b @ CHR ''?'' # q" "s = a @ CHR ''?'' # q" "a \<noteq> []" "graphic (hd a)"
  shows "TrimSpace s = s"
proof (rule TrimSpace_trimmed)
  show "leading space_seqs s = None"
    using assms by (intro leading_graphic_None space_seqs_not_graphic) auto
  have "leading (map rev space_seqs) (rev q @ CHR ''?'' # rev b) = None"
    using TrimSpace_ends(2) [of t] assms by simp
  then have "leading (map rev space_seqs) (rev q @ CHR ''?'' # rev a) = None"
    by (rule leading_sep [rotated]) (simp add: space_seqs_def)
  then show "leading (map rev space_seqs) (rev s) = None" using assms(3) by simp
qed

lemma contains_ctl_append [simp]:
  "contains_ctl (a @ b) \<longleftrightarrow> contains_ctl a \<or> contains_ctl b"
  by (auto simp: contains_ctl_def)

lemma graphic_ctl: "list_all graphic a \<Longrightarrow> \<not> contains_ctl a"
  by (auto simp: contains_ctl_def list_all_iff graphic_def)


section \<open>What the constructor guarantees\<close>

lemma NewDestinationURL_InrD:
  assumes "NewDestinationURL ul raw = Inr d"
  obtains u where "ParseRequestURI (TrimSpace raw) = Inr u"
    "Scheme u = ''http'' \<or> Scheme u = ''https''" "Host u \<noteq> []"
    "d = \<lparr>dest_value = URL_String (u\<lparr>Host := ToLower ul (Host u)\<rparr>)\<rparr>"
proof -
  obtain u where u: "ParseRequestURI (TrimSpace raw) = Inr u" "Scheme u \<noteq> []"
    using assms by (auto simp: NewDestinationURL_def Let_def split: if_splits sum.splits)
  with assms have sch: "ToLower ul (Scheme u) = ''http'' \<or> ToLower ul (Scheme u) = ''https''"
    and h: "Host u \<noteq> []"
    by (auto simp: NewDestinationURL_def Let_def split: if_splits)
  obtain s where "Scheme u = map lower_char s" "is_ascii s"
    using ParseRequestURI_parts [OF u h] by metis
  then have low: "ToLower ul (Scheme u) = Scheme u" by (simp add: ToLower_def)
  then have "u\<lparr>Scheme := ToLower ul (Scheme u)\<rparr> = u" by simp
  with assms u sch h have "d = \<lparr>dest_value = URL_String (u\<lparr>Host := ToLower ul (Host u)\<rparr>)\<rparr>"
    by (auto simp: NewDestinationURL_def Let_def split: if_splits)
  with u sch h low show thesis using that by simp
qed

lemma NewDestinationURL_eval:
  assumes "TrimSpace raw \<noteq> []" "ParseRequestURI (TrimSpace raw) = Inr u"
    "Scheme u = ''http'' \<or> Scheme u = ''https''" "Host u \<noteq> []"
  shows "NewDestinationURL ul raw
    = Inr \<lparr>dest_value = URL_String (u\<lparr>Host := ToLower ul (Host u)\<rparr>)\<rparr>"
proof -
  have "ToLower ul (Scheme u) = Scheme u"
    using assms(3) by (auto simp: ToLower_def is_ascii_def lower_char_def)
  moreover have "u\<lparr>Scheme := Scheme u\<rparr> = u" by simp
  moreover have "Scheme u \<noteq> []" using assms(3) by auto
  ultimately show ?thesis
    using assms unfolding NewDestinationURL_def Let_def by simp
qed

text \<open>A host the theorems below speak of: a name or an IPv4 address, with or without a port.\<close>

definition plain_host :: "string \<Rightarrow> bool" where
  "plain_host h \<longleftrightarrow> is_ascii h \<and> \<not> HasPrefix h ''[''"

text \<open>The path of a parsed URL as it is printed, whatever host is put into the URL.\<close>

lemma parsed_path:
  fixes h :: string
  assumes "ParseRequestURI t = Inr u" "Scheme u \<noteq> []" "Host u \<noteq> []"
  defines "ep \<equiv> EscapedPath (u\<lparr>Host := h\<rparr>)"
  shows "ep = [] \<or> hd ep = CHR ''/''" "unescape ep encodePath = Inr (Path u)" "list_all graphic ep"
    "CHR ''?'' \<notin> set ep" "CHR ''#'' \<notin> set ep"
    "Path v = Path u \<Longrightarrow> RawPath v = (if ep = escape (Path u) encodePath then [] else ep) \<Longrightarrow>
      EscapedPath v = ep"
proof -
  obtain p where p: "p = [] \<or> hd p = CHR ''/''" "unescape p encodePath = Inr (Path u)"
    "RawPath u = (if p = escape (Path u) encodePath then [] else p)" "CHR ''?'' \<notin> set p"
    using assms(1-3) by (elim ParseRequestURI_parts) auto
  note EP = EscapedPath_hd [of p "u\<lparr>Host := h\<rparr>", simplified, OF p(2,1,3), folded ep_def]
  from EP p(4) show "ep = [] \<or> hd ep = CHR ''/''" "unescape ep encodePath = Inr (Path u)"
    "list_all graphic ep" "CHR ''?'' \<notin> set ep" "CHR ''#'' \<notin> set ep"
    "Path v = Path u \<Longrightarrow> RawPath v = (if ep = escape (Path u) encodePath then [] else ep) \<Longrightarrow>
      EscapedPath v = ep" by auto
qed

text \<open>The normal form of a URL with a plain host: its parts survive another round of parsing.\<close>

definition normal_url :: "url \<Rightarrow> string \<Rightarrow> string \<Rightarrow> string" where
  "normal_url u h ep =
     Scheme u @ '':'' @ ''//'' @ printed_authority (User u) h @ ep
     @ query_string (ForceQuery u) (RawQuery u)"

lemma normal_url_graphic:
  assumes "Scheme u = ''http'' \<or> Scheme u = ''https''" "list_all graphic ep"
  shows "list_all graphic (Scheme u @ '':'' @ ''//'' @ printed_authority (User u) h @ ep)"
  using assms printed_authority_avoids(4) by (auto simp: graphic_def list_all_iff)

lemma normal_url_trimmed:
  assumes sch: "Scheme u = ''http'' \<or> Scheme u = ''https''" and gr: "list_all graphic ep"
    and t: "TrimSpace t = t" "t = pre @ query_string (ForceQuery u) (RawQuery u)"
  shows "TrimSpace (normal_url u h ep) = normal_url u h ep"
proof (cases "RawQuery u = []")
  case True
  then have "list_all graphic (query_string (ForceQuery u) (RawQuery u))"
    by (simp add: query_string_def)
  with normal_url_graphic [OF sch gr] show ?thesis
    by (intro TrimSpace_all_graphic) (simp add: normal_url_def)
next
  case False
  let ?a = "Scheme u @ '':'' @ ''//'' @ printed_authority (User u) h @ ep"
  show ?thesis
  proof (rule TrimSpace_same_query [OF t(1)])
    show "t = pre @ CHR ''?'' # RawQuery u" using t(2) False by (simp add: query_string_def)
    show "normal_url u h ep = ?a @ CHR ''?'' # RawQuery u"
      using False by (simp add: normal_url_def query_string_def)
    show "?a \<noteq> []" "graphic (hd ?a)" using sch by (auto simp: graphic_def)
  qed
qed

lemma normal_url_ctl:
  assumes "Scheme u = ''http'' \<or> Scheme u = ''https''" "list_all graphic ep"
    "\<not> contains_ctl (query_string (ForceQuery u) (RawQuery u))"
  shows "\<not> contains_ctl (normal_url u h ep)"
  using graphic_ctl [OF normal_url_graphic [OF assms(1,2)]] assms(3)
  by (simp add: normal_url_def contains_ctl_def)

lemma normal_url_parse:
  assumes u: "ParseRequestURI t = Inr u" "Scheme u = ''http'' \<or> Scheme u = ''https''"
      "Host u \<noteq> []"
    and h: "parseHost (escape h encodeHost) = Inr h" "h \<noteq> []"
    and ep: "ep = EscapedPath (u\<lparr>Host := h\<rparr>)"
  obtains v where "ParseRequestURI (normal_url u h ep) = Inr v" "Scheme v = Scheme u" "Host v = h"
    "URL_String v = normal_url u h ep"
proof -
  from u(2) have ne: "Scheme u \<noteq> []" by auto
  note P = parsed_path [OF u(1) ne u(3), where h = h, folded ep]
  have q: "\<not> contains_ctl (query_string (ForceQuery u) (RawQuery u))"
    "ForceQuery u \<longrightarrow> RawQuery u = []"
    using u ne by (auto elim!: ParseRequestURI_parts simp: contains_ctl_def)
  define v where "v = \<lparr>Scheme = Scheme u, Opaque = [], User = User u, Host = h, Path = Path u,
     RawPath = (if ep = escape (Path u) encodePath then [] else ep), OmitHost = False,
     ForceQuery = ForceQuery u, RawQuery = RawQuery u, Fragment = []\<rparr>"
  have "ParseRequestURI (normal_url u h ep) = Inr v"
    unfolding normal_url_def v_def
  proof (rule parse_printed [OF u(2)])
    show "\<not> contains_ctl (Scheme u @ '':'' @ ''//'' @ printed_authority (User u) h @ ep
        @ query_string (ForceQuery u) (RawQuery u))"
      using normal_url_ctl [OF u(2) P(3) q(1)] unfolding normal_url_def .
    show "CHR ''?'' \<notin> set (printed_authority (User u) h @ ep)"
      using P(4) printed_authority_avoids(2) by simp
    show "CHR ''/'' \<notin> set (printed_authority (User u) h)" by (rule printed_authority_avoids(1))
    show "parseAuthority (printed_authority (User u) h) = Inr (User u, h)"
      by (rule parseAuthority_printed [OF h(1)])
  qed (use P q in simp_all)
  moreover have "EscapedPath v = ep" using P(6) by (simp add: v_def)
  then have "URL_String v = normal_url u h ep"
    using URL_String_printed [of v] P(1) h(2) by (simp add: v_def normal_url_def)
  ultimately show thesis using that [of v] by (simp add: v_def)
qed

section \<open>Theorems\<close>

text \<open>C35: storing the printed form of a destination and validating it again gives the same
  destination, for hosts that are ASCII and no IPv6 literal.\<close>

theorem NewDestinationURL_stable:
  assumes "NewDestinationURL ul raw = Inr d"
    and "ParseRequestURI (TrimSpace raw) = Inr u" "plain_host (Host u)"
  shows "NewDestinationURL ul (dest_String d) = Inr d"
proof -
  from assms(1,2) have sch: "Scheme u = ''http'' \<or> Scheme u = ''https''" and h: "Host u \<noteq> []"
    and d: "d = \<lparr>dest_value = URL_String (u\<lparr>Host := ToLower ul (Host u)\<rparr>)\<rparr>"
    by (auto elim: NewDestinationURL_InrD)
  from sch have ne: "Scheme u \<noteq> []" by auto
  define h' where "h' = map lower_char (Host u)"
  have low: "ToLower ul (Host u) = h'" "h' \<noteq> []" "ToLower ul h' = h'"
    using assms(3) h by (auto simp: h'_def ToLower_def plain_host_def)
  define ep where "ep = EscapedPath (u\<lparr>Host := h'\<rparr>)"
  note P = parsed_path [OF assms(2) ne h, where h = h', folded ep_def]
  obtain pre hs where t: "TrimSpace raw = pre @ query_string (ForceQuery u) (RawQuery u)"
    and hs: "parseHost hs = Inr (Host u)" and op: "Opaque u = []"
  proof -
    obtain sch auth p where
      "TrimSpace raw = sch @ '':'' @ ''//'' @ auth @ p @ query_string (ForceQuery u) (RawQuery u)"
      "parseAuthority auth = Inr (User u, Host u)" "Opaque u = []"
      using assms(2) ne h by (elim ParseRequestURI_parts) auto
    then show thesis
      using that [of "sch @ '':'' @ ''//'' @ auth @ p"]
      by (auto simp: parseAuthority_def split: option.splits sum.splits prod.splits if_splits)
  qed
  have ph: "parseHost (escape h' encodeHost) = Inr h'"
    using parseHost_printed [OF hs] assms(3) unfolding h'_def plain_host_def by blast
  obtain v where v: "ParseRequestURI (normal_url u h' ep) = Inr v" "Scheme v = Scheme u"
    "Host v = h'" "URL_String v = normal_url u h' ep"
    using normal_url_parse [OF assms(2) sch h ph low(2) ep_def] by blast
  have d': "dest_String d = normal_url u h' ep"
    using URL_String_printed [of "u\<lparr>Host := h'\<rparr>"] P(1) low op d
    by (simp add: dest_String_def normal_url_def ep_def)
  have "TrimSpace (normal_url u h' ep) = normal_url u h' ep"
    by (rule normal_url_trimmed [OF sch P(3) TrimSpace_idem t])
  moreover have "normal_url u h' ep \<noteq> []" by (simp add: normal_url_def)
  moreover have "v\<lparr>Host := h'\<rparr> = v" using v(3) by simp
  then have "URL_String (v\<lparr>Host := h'\<rparr>) = normal_url u h' ep" using v(4) by (simp only:)
  ultimately show ?thesis
    using NewDestinationURL_eval [of "normal_url u h' ep" v ul] sch low v d'
    by (cases d) (simp add: dest_String_def)
qed

theorem NewDestinationURL_stable_witness:
  "NewDestinationURL id ''https://example.com/a%20b?q=1''
     = Inr \<lparr>dest_value = ''https://example.com/a%20b?q=1''\<rparr>"
proof -
  have "case ParseRequestURI (TrimSpace ''  HTTPS://Example.COM/a b?q=1 '') of
      Inl _ \<Rightarrow> False | Inr u \<Rightarrow> plain_host (Host u)" by code_simp
  then obtain u where u: "ParseRequestURI (TrimSpace ''  HTTPS://Example.COM/a b?q=1 '') = Inr u"
    "plain_host (Host u)" by (auto split: sum.splits)
  have "NewDestinationURL id ''  HTTPS://Example.COM/a b?q=1 ''
      = Inr \<lparr>dest_value = ''https://example.com/a%20b?q=1''\<rparr>" by code_simp
  from NewDestinationURL_stable [OF this u] show ?thesis by (simp add: dest_String_def)
qed

text \<open>No accepted destination keeps a fragment that follows the path: before its query the stored text has no
  \<open>#\<close>, which \<open>ParseRequestURI\<close> takes for a character of the path and the printer escapes.\<close>

lemma stored_before_query:
  assumes "NewDestinationURL ul raw = Inr d"
  obtains sch r pre q where
    "map lower_char sch = ''http'' \<or> map lower_char sch = ''https''"
    "TrimSpace raw = (sch @ '':'' @ r) @ q" "CHR ''?'' \<notin> set (sch @ '':'' @ r)"
    "dest_String d = (map lower_char sch @ '':'' @ pre) @ q"
    "CHR ''?'' \<notin> set (map lower_char sch @ '':'' @ pre)" "CHR ''#'' \<notin> set (map lower_char sch @ '':'' @ pre)"
    "q = [] \<or> hd q = CHR ''?''"
proof -
  from assms obtain u where u: "ParseRequestURI (TrimSpace raw) = Inr u"
      "Scheme u = ''http'' \<or> Scheme u = ''https''" "Host u \<noteq> []"
    and d: "d = \<lparr>dest_value = URL_String (u\<lparr>Host := ToLower ul (Host u)\<rparr>)\<rparr>"
    by (rule NewDestinationURL_InrD)
  from u(2) have ne: "Scheme u \<noteq> []" by auto
  let ?u = "u\<lparr>Host := ToLower ul (Host u)\<rparr>"
  note P = parsed_path [OF u(1) ne u(3), where h = "ToLower ul (Host u)"]
  obtain sch auth p where t: "Scheme u = map lower_char sch" "CHR ''?'' \<notin> set (auth @ p)" "Opaque u = []"
    "TrimSpace raw = sch @ '':'' @ ''//'' @ auth @ p @ query_string (ForceQuery u) (RawQuery u)"
    using u(1,3) ne by (elim ParseRequestURI_parts)
  have sch: "CHR ''?'' \<notin> set sch"
  proof
    assume "CHR ''?'' \<in> set sch"
    then have "lower_char (CHR ''?'') \<in> set (Scheme u)" unfolding t(1) by simp
    then show False using u(2) by (auto simp: lower_char_def)
  qed
  define pre where "pre = authority_string ?u
      @ (if EscapedPath ?u \<noteq> [] \<and> hd (EscapedPath ?u) \<noteq> CHR ''/'' \<and> Host ?u \<noteq> [] then ''/'' else [])
      @ EscapedPath ?u"
  have auth: "CHR ''#'' \<notin> set (authority_string ?u)" "CHR ''?'' \<notin> set (authority_string ?u)"
    by (auto simp: authority_string_def userinfo_string_valid escape_avoids split: option.splits)
  let ?q = "query_string (ForceQuery u) (RawQuery u)"
  have d': "dest_String d = (map lower_char sch @ '':'' @ pre) @ ?q"
    using t(3) d ne by (simp add: dest_String_def URL_String_def Let_def query_string_def pre_def t(1))
  have q: "?q = [] \<or> hd ?q = CHR ''?''" by (simp add: query_string_def)
  have t': "TrimSpace raw = (sch @ '':'' @ ''//'' @ auth @ p) @ ?q" using t(4) by simp
  have r: "CHR ''?'' \<notin> set (sch @ '':'' @ ''//'' @ auth @ p)" using sch t(2) by auto
  have "CHR ''?'' \<notin> set (Scheme u)" "CHR ''#'' \<notin> set (Scheme u)" using u(2) by auto
  then have "CHR ''?'' \<notin> set (map lower_char sch @ '':'' @ pre)" "CHR ''#'' \<notin> set (map lower_char sch @ '':'' @ pre)"
    using auth P(4,5) by (auto simp: pre_def t(1))
  then show thesis by (rule that [OF u(2) [unfolded t(1)] t' r d' _ _ q])
qed

lemma NewDestinationURL_no_fragment:
  assumes "NewDestinationURL ul raw = Inr d"
  shows "CHR ''#'' \<notin> set (split_first (CHR ''?'') (dest_String d))"
proof -
  obtain pre q where "dest_String d = pre @ q" "CHR ''#'' \<notin> set pre" "CHR ''?'' \<notin> set pre"
    "q = [] \<or> hd q = CHR ''?''"
    by (rule stored_before_query [OF assms])
  then show ?thesis by (cases q) (auto simp: split_first_def takeWhile_append dest: set_takeWhileD split: if_splits)
qed

text \<open>C36: an accepted destination is one of HTTP or HTTPS, its scheme is stored in lower case, and from the first
  question mark of the text that was asked for, without the space around it, everything is stored as it
  is: the query, and a fragment behind it.\<close>

theorem NewDestinationURL_keeps_query:
  assumes "NewDestinationURL ul raw = Inr d"
  shows "dropWhile (\<lambda>c. c \<noteq> CHR ''?'') (dest_String d) = dropWhile (\<lambda>c. c \<noteq> CHR ''?'') (TrimSpace raw)
    \<and> (\<exists>sch r r'. TrimSpace raw = sch @ '':'' @ r \<and> dest_String d = map lower_char sch @ '':'' @ r'
        \<and> map lower_char sch \<in> {''http'', ''https''})"
proof -
  obtain sch r pre q where q: "map lower_char sch = ''http'' \<or> map lower_char sch = ''https''"
    "TrimSpace raw = (sch @ '':'' @ r) @ q" "CHR ''?'' \<notin> set (sch @ '':'' @ r)"
    "dest_String d = (map lower_char sch @ '':'' @ pre) @ q" "CHR ''?'' \<notin> set (map lower_char sch @ '':'' @ pre)"
    "q = [] \<or> hd q = CHR ''?''"
    by (rule stored_before_query [OF assms])
  have "dropWhile (\<lambda>c. c \<noteq> CHR ''?'') (s @ q) = q" if "CHR ''?'' \<notin> set s" for s
    using that q(6) by (cases q) (auto simp: dropWhile_append2 dropWhile_append3)
  with q(3,5) have "dropWhile (\<lambda>c. c \<noteq> CHR ''?'') (dest_String d) = q"
    "dropWhile (\<lambda>c. c \<noteq> CHR ''?'') (TrimSpace raw) = q"
    unfolding q(2,4) by blast+
  with q(1,2,4) show ?thesis by auto
qed

lemma NewDestinationURL_keeps_query_witness:
  "NewDestinationURL id ''HTTPS://EXAMPLE.COM/search?q=TinyURL#Section''
     = Inr \<lparr>dest_value = ''https://example.com/search?q=TinyURL#Section''\<rparr>
   \<and> dropWhile (\<lambda>c. c \<noteq> CHR ''?'') ''https://example.com/search?q=TinyURL#Section'' = ''?q=TinyURL#Section''"
proof -
  have d: "NewDestinationURL id ''HTTPS://EXAMPLE.COM/search?q=TinyURL#Section''
      = Inr \<lparr>dest_value = ''https://example.com/search?q=TinyURL#Section''\<rparr>" by code_simp
  have "dropWhile (\<lambda>c. c \<noteq> CHR ''?'') (TrimSpace ''HTTPS://EXAMPLE.COM/search?q=TinyURL#Section'') = ''?q=TinyURL#Section''"
    by code_simp
  with d NewDestinationURL_keeps_query [OF d] show ?thesis by (simp only: dest_String_def destination_url.select_convs)
qed

end
