(* ===== verification/Link.thy ===== *)
theory Link
  imports Status Destination
begin

text \<open>
  \<^verbatim>\<open>internal/link/domain/link.go\<close>: the link aggregate, its constructors and its mutations.

  A mutation has a pointer receiver and returns an \<open>error\<close>; it is modelled by a function that
  takes the link and returns the error (\<open>None\<close> for \<open>nil\<close>) and the link as the call leaves it.
  Where Go lets the address of a local variable escape (\<open>&copied\<close>, \<open>&expiresAt\<close>), the
  address the allocator hands out is the argument \<open>a\<close>.
\<close>

section \<open>The aggregate\<close>

record link =
  code :: string
  destination :: destination_url
  ownerID :: string
  status :: LinkStatus
  createdAt :: time
  updatedAt :: time
  expiresAt :: "time_ref option"
  version :: u64

definition time_IsZero :: "time \<Rightarrow> bool" where
  "time_IsZero t \<longleftrightarrow> t = 0"

definition NewLink ::
    "nat \<Rightarrow> string \<Rightarrow> destination_url \<Rightarrow> string \<Rightarrow> time \<Rightarrow> time option \<Rightarrow> err + link" where
  "NewLink a c d owner created expires =
     (let trimmedCode = TrimSpace c
      in if trimmedCode = [] then Inl (Domain ErrEmptyCode)
         else if dest_IsZero d then Inl (Domain ErrZeroDestination)
         else
           let trimmedOwnerID = TrimSpace owner
           in if trimmedOwnerID = [] then Inl (Domain ErrEmptyOwnerID)
              else if time_IsZero created then Inl (Domain ErrZeroCreatedAt)
              else
                (case (case expires of
                         None \<Rightarrow> Inr None
                       | Some t \<Rightarrow>
                           if \<not> t > created then Inl (Domain ErrInvalidExpiresAt)
                           else Inr (Some (TimeRef a t))) of
                   Inl e \<Rightarrow> Inl e
                 | Inr expiresAtCopy \<Rightarrow>
                     Inr \<lparr>code = trimmedCode, destination = d, ownerID = trimmedOwnerID,
                          status = Active, createdAt = created, updatedAt = created,
                          expiresAt = expiresAtCopy, version = 1\<rparr>))"

text \<open>\<open>ExpiresAt()\<close>: a pointer to a fresh copy, of which callers only use the instant.\<close>

definition ExpiresAt :: "link \<Rightarrow> time option" where
  "ExpiresAt l = map_option deref (expiresAt l)"

definition IsExpired :: "link \<Rightarrow> time \<Rightarrow> bool" where
  "IsExpired l now =
     (case expiresAt l of None \<Rightarrow> False | Some r \<Rightarrow> \<not> now < deref r)"

definition CanRedirect :: "link \<Rightarrow> time \<Rightarrow> bool" where
  "CanRedirect l now =
     (if time_IsZero now then False
      else status_CanRedirect (status l) \<and> \<not> IsExpired l now)"

section \<open>Mutations\<close>

definition validateMutationTime :: "link \<Rightarrow> time \<Rightarrow> err option" where
  "validateMutationTime l at =
     (if time_IsZero at then Some (Domain ErrZeroUpdatedAt)
      else if at < createdAt l then Some (Domain ErrUpdateBeforeCreatedAt)
      else if \<not> at > updatedAt l then Some (Domain ErrUpdateNotAfterPrevious)
      else None)"

definition transitionTo :: "LinkStatus \<Rightarrow> time \<Rightarrow> link \<Rightarrow> err option \<times> link" where
  "transitionTo next at l =
     (case validateMutationTime l at of
        Some e \<Rightarrow> (Some e, l)
      | None \<Rightarrow>
          if \<not> CanTransitionTo (status l) next then (Some (Domain ErrInvalidTransition), l)
          else (None, l\<lparr>status := next, updatedAt := at, version := version l + 1\<rparr>))"

definition Disable :: "time \<Rightarrow> link \<Rightarrow> err option \<times> link" where
  "Disable at l = transitionTo Disabled at l"

definition Reactivate :: "time \<Rightarrow> link \<Rightarrow> err option \<times> link" where
  "Reactivate at l = transitionTo Active at l"

definition Delete :: "time \<Rightarrow> link \<Rightarrow> err option \<times> link" where
  "Delete at l = transitionTo Deleted at l"

definition UpdateDestination :: "destination_url \<Rightarrow> time \<Rightarrow> link \<Rightarrow> err option \<times> link" where
  "UpdateDestination d at l =
     (if dest_IsZero d then (Some (Domain ErrZeroDestination), l)
      else if status l = Deleted then (Some (Domain ErrDeletedLink), l)
      else if destination l = d then (Some (Domain ErrUnchangedDestination), l)
      else
        (case validateMutationTime l at of
           Some e \<Rightarrow> (Some e, l)
         | None \<Rightarrow> (None, l\<lparr>destination := d, updatedAt := at, version := version l + 1\<rparr>)))"

definition SetExpiration :: "nat \<Rightarrow> time \<Rightarrow> time \<Rightarrow> link \<Rightarrow> err option \<times> link" where
  "SetExpiration a expires at l =
     (if time_IsZero expires then (Some (Domain ErrInvalidExpiresAt), l)
      else if status l = Deleted then (Some (Domain ErrDeletedLink), l)
      else if \<not> expires > at then (Some (Domain ErrInvalidExpiresAt), l)
      else if (case expiresAt l of None \<Rightarrow> False | Some r \<Rightarrow> expires = deref r)
      then (Some (Domain ErrUnchangedExpiration), l)
      else
        (case validateMutationTime l at of
           Some e \<Rightarrow> (Some e, l)
         | None \<Rightarrow>
             (None, l\<lparr>expiresAt := Some (TimeRef a expires), updatedAt := at,
                       version := version l + 1\<rparr>)))"

definition ClearExpiration :: "time \<Rightarrow> link \<Rightarrow> err option \<times> link" where
  "ClearExpiration at l =
     (if status l = Deleted then (Some (Domain ErrDeletedLink), l)
      else if expiresAt l = None then (Some (Domain ErrNoExpiration), l)
      else
        (case validateMutationTime l at of
           Some e \<Rightarrow> (Some e, l)
         | None \<Rightarrow>
             (None, l\<lparr>expiresAt := None, updatedAt := at, version := version l + 1\<rparr>)))"

definition RehydrateLink ::
    "nat \<Rightarrow> string \<Rightarrow> destination_url \<Rightarrow> string \<Rightarrow> LinkStatus \<Rightarrow> time \<Rightarrow> time \<Rightarrow> time option
     \<Rightarrow> u64 \<Rightarrow> err + link" where
  "RehydrateLink a c d owner st created updated expires v =
     (let trimmedCode = TrimSpace c
      in if trimmedCode = [] then Inl (Domain ErrEmptyCode)
         else if dest_IsZero d then Inl (Domain ErrZeroDestination)
         else
           let trimmedOwnerID = TrimSpace owner
           in if trimmedOwnerID = [] then Inl (Domain ErrEmptyOwnerID)
              else if \<not> status_IsValid st then Inl (Domain ErrInvalidLinkStatus)
              else if time_IsZero created then Inl (Domain ErrZeroCreatedAt)
              else if time_IsZero updated then Inl (Domain ErrZeroUpdatedAt)
              else if updated < created then Inl (Domain ErrUpdateBeforeCreatedAt)
              else if (case expires of None \<Rightarrow> False | Some t \<Rightarrow> \<not> t > created)
              then Inl (Domain ErrInvalidExpiresAt)
              else if v = 0 then Inl (Domain ErrZeroVersion)
              else Inr \<lparr>code = trimmedCode, destination = d, ownerID = trimmedOwnerID, status = st,
                        createdAt = created, updatedAt = updated,
                        expiresAt = map_option (TimeRef a) expires, version = v\<rparr>)"

text \<open>
  The mutations as data, one constructor per exported method, so that sequences of them can be
  spoken of.
\<close>

datatype link_op =
    OpDisable time
  | OpReactivate time
  | OpDelete time
  | OpUpdateDestination destination_url time
  | OpSetExpiration nat time time
  | OpClearExpiration time

fun apply_op :: "link_op \<Rightarrow> link \<Rightarrow> err option \<times> link" where
  "apply_op (OpDisable at) l = Disable at l"
| "apply_op (OpReactivate at) l = Reactivate at l"
| "apply_op (OpDelete at) l = Delete at l"
| "apply_op (OpUpdateDestination d at) l = UpdateDestination d at l"
| "apply_op (OpSetExpiration a e at) l = SetExpiration a e at l"
| "apply_op (OpClearExpiration at) l = ClearExpiration at l"

fun op_time :: "link_op \<Rightarrow> time" where
  "op_time (OpDisable at) = at"
| "op_time (OpReactivate at) = at"
| "op_time (OpDelete at) = at"
| "op_time (OpUpdateDestination d at) = at"
| "op_time (OpSetExpiration a e at) = at"
| "op_time (OpClearExpiration at) = at"

text \<open>Running a list of mutations, each error ignored; the number that succeeded.\<close>

fun run_ops :: "link_op list \<Rightarrow> link \<Rightarrow> nat \<times> link" where
  "run_ops [] l = (0, l)"
| "run_ops (x # xs) l =
     (case apply_op x l of
        (None, l') \<Rightarrow> (case run_ops xs l' of (n, r) \<Rightarrow> (Suc n, r))
      | (Some e, l') \<Rightarrow> run_ops xs l')"

section \<open>Facts about one mutation\<close>

lemmas mutation_defs = Disable_def Reactivate_def Delete_def transitionTo_def UpdateDestination_def
  SetExpiration_def ClearExpiration_def

lemma validateMutationTime_None:
  "validateMutationTime l at = None \<longleftrightarrow> at \<noteq> 0 \<and> createdAt l \<le> at \<and> updatedAt l < at"
  by (auto simp: validateMutationTime_def time_IsZero_def)

text \<open>A mutation that fails leaves the link as it was.\<close>

lemma apply_op_error: "apply_op x l = (Some e, l') \<Longrightarrow> l' = l"
  by (cases x) (auto simp: mutation_defs split: option.splits if_splits)

text \<open>What every successful mutation does.\<close>

lemma apply_op_ok:
  assumes "apply_op x l = (None, l')"
  shows "code l' = code l" "ownerID l' = ownerID l" "createdAt l' = createdAt l"
    "version l' = version l + 1" "updatedAt l' = op_time x" "updatedAt l < updatedAt l'"
    "createdAt l \<le> updatedAt l'" "updatedAt l' \<noteq> 0" "status l \<noteq> Deleted"
  using assms
  by (cases x; auto simp: mutation_defs validateMutationTime_None CanTransitionTo_iff
      split: option.splits if_splits)+

lemma apply_op_status:
  "apply_op x l = (None, l') \<Longrightarrow> status l' = status l \<or> CanTransitionTo (status l) (status l')"
  by (cases x) (auto simp: mutation_defs split: option.splits if_splits)

section \<open>The aggregate's invariant\<close>

definition link_ok :: "link \<Rightarrow> bool" where
  "link_ok l \<longleftrightarrow>
     code l \<noteq> [] \<and> TrimSpace (code l) = code l \<and> \<not> dest_IsZero (destination l)
     \<and> ownerID l \<noteq> [] \<and> TrimSpace (ownerID l) = ownerID l \<and> status_IsValid (status l)
     \<and> createdAt l \<noteq> 0 \<and> updatedAt l \<noteq> 0 \<and> createdAt l \<le> updatedAt l
     \<and> (\<forall>r. expiresAt l = Some r \<longrightarrow> createdAt l < deref r) \<and> version l \<noteq> 0"

lemma link_ok_code [code]:
  "link_ok l \<longleftrightarrow>
     code l \<noteq> [] \<and> TrimSpace (code l) = code l \<and> \<not> dest_IsZero (destination l)
     \<and> ownerID l \<noteq> [] \<and> TrimSpace (ownerID l) = ownerID l \<and> status_IsValid (status l)
     \<and> createdAt l \<noteq> 0 \<and> updatedAt l \<noteq> 0 \<and> createdAt l \<le> updatedAt l
     \<and> (case expiresAt l of None \<Rightarrow> True | Some r \<Rightarrow> createdAt l < deref r) \<and> version l \<noteq> 0"
  by (simp add: link_ok_def split: option.split)

text \<open>A link for the concrete instances below.\<close>

definition sample_link :: link where
  "sample_link =
     \<lparr>code = ''abc123'', destination = \<lparr>dest_value = ''https://example.com/''\<rparr>, ownerID = ''alice'',
      status = Active, createdAt = 1000, updatedAt = 1000, expiresAt = Some (TimeRef 7 5000),
      version = 1\<rparr>"

lemma sample_link_ok [simp]: "link_ok sample_link"
  by code_simp

lemma link_ok_NewLink: "NewLink a c d owner created expires = Inr l \<Longrightarrow> link_ok l"
  by (auto simp: NewLink_def link_ok_def Let_def time_IsZero_def split: option.splits if_splits)

lemma link_ok_RehydrateLink:
  "RehydrateLink a c d owner st created updated expires v = Inr l \<Longrightarrow> link_ok l"
  by (auto simp: RehydrateLink_def link_ok_def Let_def time_IsZero_def
      split: option.splits if_splits)

lemma link_ok_apply_op:
  assumes "link_ok l" "apply_op x l = (r, l')" "version l \<noteq> - 1"
  shows "link_ok l'"
proof (cases r)
  case None
  with assms(2) have ok: "apply_op x l = (None, l')" by simp
  have "version l + 1 \<noteq> 0" using assms(3) by (metis add_eq_0_iff2 add.commute)
  moreover have "\<not> dest_IsZero (destination l') \<and> status_IsValid (status l')
      \<and> (\<forall>t. expiresAt l' = Some t \<longrightarrow> createdAt l' < deref t)"
    using assms(1) ok
    by (cases x) (auto simp: mutation_defs link_ok_def validateMutationTime_None
        split: option.splits if_splits)
  ultimately show ?thesis
    using assms(1) apply_op_ok [OF ok] by (auto simp: link_ok_def)
next
  case (Some e)
  with assms apply_op_error show ?thesis by blast
qed


section \<open>The life cycle as a state machine\<close>

text \<open>One successful mutation, as a step between links.\<close>

inductive link_step :: "link \<Rightarrow> link \<Rightarrow> bool" where
  step: "apply_op x l = (None, l') \<Longrightarrow> link_step l l'"

inductive_cases link_stepE: "link_step l l'"

lemma link_step_facts:
  assumes "link_step l l'"
  shows "code l' = code l" "ownerID l' = ownerID l" "createdAt l' = createdAt l"
    "version l' = version l + 1" "updatedAt l < updatedAt l'" "status l \<noteq> Deleted"
    "status l' = status l \<or> CanTransitionTo (status l) (status l')"
  using assms by (auto elim!: link_stepE dest: apply_op_ok apply_op_status)

lemma link_steps_identity:
  "link_step\<^sup>*\<^sup>* l l' \<Longrightarrow> code l' = code l \<and> ownerID l' = ownerID l \<and> createdAt l' = createdAt l
     \<and> updatedAt l \<le> updatedAt l'"
  by (induction rule: rtranclp_induct) (auto dest: link_step_facts)

lemma run_ops_steps: "run_ops xs l = (n, l') \<Longrightarrow> (link_step ^^ n) l l'"
proof (induction xs arbitrary: l n)
  case (Cons x xs)
  show ?case
  proof (cases "apply_op x l")
    case (Pair r l1)
    show ?thesis
    proof (cases r)
      case None
      with Pair Cons.prems obtain m where m: "run_ops xs l1 = (m, l')" "n = Suc m"
        by (auto split: prod.splits)
      from Pair None have "link_step l l1" by (auto intro: link_step.step)
      moreover have "(link_step ^^ m) l1 l'" by (rule Cons.IH [OF m(1)])
      ultimately show ?thesis unfolding m(2) by (rule relpowp_Suc_I2)
    next
      case (Some e)
      with Pair have "l1 = l" by (auto dest: apply_op_error)
      with Pair Some Cons show ?thesis by simp
    qed
  qed
qed simp

lemma link_steps_version:
  "(link_step ^^ n) l l' \<Longrightarrow> version l' = version l + of_nat n"
proof (induction n arbitrary: l')
  case (Suc n)
  then obtain m where "(link_step ^^ n) l m" "link_step m l'" by auto
  with Suc.IH [of m] link_step_facts(4) [of m l'] show ?case by (simp add: add.assoc)
qed simp

lemma run_ops_bound: "run_ops xs l = (n, l') \<Longrightarrow> n \<le> length xs"
  by (induction xs arbitrary: l n) (fastforce split: prod.splits option.splits)+

lemma run_ops_deleted: "status l = Deleted \<Longrightarrow> run_ops xs l = (0, l)"
proof (induction xs)
  case (Cons x xs)
  obtain r l1 where p: "apply_op x l = (r, l1)" by fastforce
  with Cons.prems have "r \<noteq> None" using apply_op_ok(9) [of x l l1] by auto
  with p Cons show ?case by (auto dest: apply_op_error)
qed simp

lemma unat_Suc_max: "unat (v :: u64) + 1 < 2 ^ 64 \<Longrightarrow> v \<noteq> - 1 \<and> unat (v + 1) = unat v + 1"
  by (auto simp: unat_word_ariths unsigned_minus_1_eq_mask mask_eq_exp_minus_1)

lemma run_ops_link_ok:
  "link_ok l \<Longrightarrow> unat (version l) + length xs < 2 ^ 64 \<Longrightarrow> link_ok (snd (run_ops xs l))"
proof (induction xs arbitrary: l)
  case (Cons x xs)
  obtain r l1 where p: "apply_op x l = (r, l1)" by fastforce
  from Cons.prems(2) have v: "version l \<noteq> - 1" "unat (version l + 1) = unat (version l) + 1"
    using unat_Suc_max [of "version l"] by auto
  have ok: "link_ok l1" by (rule link_ok_apply_op [OF Cons.prems(1) p v(1)])
  show ?case
  proof (cases r)
    case None
    with p have "version l1 = version l + 1" by (auto dest: apply_op_ok)
    with Cons.IH [OF ok] Cons.prems(2) p None v show ?thesis by (auto split: prod.splits)
  next
    case (Some e)
    with p have "l1 = l" by (auto dest: apply_op_error)
    with Cons p Some show ?thesis by auto
  qed
qed simp

section \<open>Theorems\<close>

text \<open>C24: every sequence of calls to the mutations keeps the well-formedness of a link, as long as
  its version cannot leave 64 bits.\<close>

theorem mutations_keep_link_ok:
  assumes "link_ok l" "unat (version l) + length xs < 2 ^ 64"
  shows "link_ok (snd (run_ops xs l))"
  using assms by (rule run_ops_link_ok)

theorem mutations_keep_link_ok_witness:
  "link_ok (snd (run_ops [OpDisable 2000, OpReactivate 1500, OpSetExpiration 9 9000 3000] sample_link))"
  by (rule mutations_keep_link_ok) (simp, simp add: sample_link_def)

text \<open>C25: the version of a link counts its successful mutations (modulo \<open>2 ^ 64\<close>); code, owner and
  creation time never change and the time of the last update never goes back.\<close>

theorem mutations_count_versions:
  "case run_ops xs l of (n, l') \<Rightarrow>
     version l' = version l + of_nat n \<and> n \<le> length xs \<and>
     code l' = code l \<and> ownerID l' = ownerID l \<and> createdAt l' = createdAt l \<and>
     updatedAt l \<le> updatedAt l'"
proof -
  obtain n l' where r: "run_ops xs l = (n, l')" by fastforce
  have "(link_step ^^ n) l l'" by (rule run_ops_steps [OF r])
  then have "version l' = version l + of_nat n" "link_step\<^sup>*\<^sup>* l l'"
    by (auto dest: link_steps_version relpowp_imp_rtranclp)
  with r run_ops_bound [OF r] link_steps_identity show ?thesis by auto
qed

text \<open>C26: no mutation succeeds on a deleted link, and it redirects at no time.\<close>

theorem deleted_is_final:
  assumes "status l = Deleted"
  shows "run_ops xs l = (0, l) \<and> (\<forall>now. \<not> CanRedirect l now)"
  using assms run_ops_deleted by (auto simp: CanRedirect_def status_CanRedirect_def)

theorem deleted_is_final_witness:
  "run_ops [OpReactivate 2000, OpClearExpiration 3000] (sample_link\<lparr>status := Deleted\<rparr>)
     = (0, sample_link\<lparr>status := Deleted\<rparr>)"
  using deleted_is_final [of "sample_link\<lparr>status := Deleted\<rparr>"] by simp

lemma RehydrateLink_ok:
  assumes "link_ok l"
  shows "RehydrateLink a (code l) (destination l) (ownerID l) (status l) (createdAt l) (updatedAt l)
           (ExpiresAt l) (version l)
         = Inr (l\<lparr>expiresAt := map_option (\<lambda>r. TimeRef a (deref r)) (expiresAt l)\<rparr>)"
  using assms
  by (auto simp: RehydrateLink_def link_ok_def Let_def time_IsZero_def ExpiresAt_def
      option.map_comp comp_def split: option.splits)

text \<open>C31: loading a stored link back gives the link, its expiry at a fresh address.\<close>

theorem RehydrateLink_restores:
  assumes "link_ok l"
  shows "RehydrateLink a (code l) (destination l) (ownerID l) (status l) (createdAt l) (updatedAt l)
           (ExpiresAt l) (version l)
         = Inr (l\<lparr>expiresAt := map_option (\<lambda>r. TimeRef a (deref r)) (expiresAt l)\<rparr>)"
  using assms by (rule RehydrateLink_ok)

theorem RehydrateLink_restores_witness:
  "RehydrateLink 8 ''abc123'' \<lparr>dest_value = ''https://example.com/''\<rparr> ''alice'' Active 1000 1000
     (Some 5000) 1 = Inr (sample_link\<lparr>expiresAt := Some (TimeRef 8 5000)\<rparr>)"
  using RehydrateLink_restores [OF sample_link_ok, of 8] by (simp add: sample_link_def ExpiresAt_def)

lemma CanRedirect_expiry:
  "CanRedirect l now \<longleftrightarrow>
     now \<noteq> 0 \<and> status l = Active \<and> (\<forall>t. ExpiresAt l = Some t \<longrightarrow> now < t)"
  by (auto simp: CanRedirect_def time_IsZero_def status_CanRedirect_def IsExpired_def ExpiresAt_def
      split: option.splits)

text \<open>The version counter is a \<open>uint64\<close>: a link at its last value is left with version 0 by the
  next mutation, and \<open>RehydrateLink\<close> then refuses it.\<close>

theorem version_wraps:
  assumes "version l = - 1" "apply_op x l = (None, l')"
  shows "version l' = 0 \<and> \<not> link_ok l'"
  using apply_op_ok(4) [OF assms(2)] assms(1) by (simp add: link_ok_def)


theorem version_wraps_witness:
  "version (snd (Disable 2000 (sample_link\<lparr>version := - 1\<rparr>))) = 0"
  using version_wraps [of "sample_link\<lparr>version := - 1\<rparr>" "OpDisable 2000"
      "snd (Disable 2000 (sample_link\<lparr>version := - 1\<rparr>))"]
  by (simp add: mutation_defs sample_link_def validateMutationTime_def time_IsZero_def)

end
