(* ===== verification/RedirectMapping.thy ===== *)
theory RedirectMapping
  imports Link
begin

text \<open>
  \<^verbatim>\<open>internal/link/domain/redirect_mapping.go\<close>: the projection of a link that a redirect needs.
  A mapping is never compared with \<open>==\<close>, so its \<open>*time.Time\<close> is kept as the instant alone.
\<close>

record redirect_mapping =
  m_code :: string
  m_destination :: destination_url
  m_status :: LinkStatus
  m_expiresAt :: "time option"
  m_version :: u64

definition copyTimePointer :: "time option \<Rightarrow> time option" where
  "copyTimePointer t = (case t of None \<Rightarrow> None | Some copied \<Rightarrow> Some copied)"

definition NewRedirectMapping ::
    "string \<Rightarrow> destination_url \<Rightarrow> LinkStatus \<Rightarrow> time option \<Rightarrow> u64 \<Rightarrow> err + redirect_mapping" where
  "NewRedirectMapping c d st expires v =
     (let c = TrimSpace c
      in if c = [] then Inl (Domain ErrEmptyCode)
         else if dest_IsZero d then Inl (Domain ErrZeroDestination)
         else if \<not> status_IsValid st then Inl (Domain ErrInvalidLinkStatus)
         else if v = 0 then Inl (Domain ErrZeroVersion)
         else Inr \<lparr>m_code = c, m_destination = d, m_status = st,
                   m_expiresAt = copyTimePointer expires, m_version = v\<rparr>)"

definition RedirectMappingFromLink :: "link \<Rightarrow> err + redirect_mapping" where
  "RedirectMappingFromLink l =
     NewRedirectMapping (code l) (destination l) (status l) (ExpiresAt l) (version l)"

definition m_IsExpired :: "redirect_mapping \<Rightarrow> time \<Rightarrow> bool" where
  "m_IsExpired m now =
     (case m_expiresAt m of None \<Rightarrow> False | Some t \<Rightarrow> \<not> now < t)"

definition m_CanRedirect :: "redirect_mapping \<Rightarrow> time \<Rightarrow> bool" where
  "m_CanRedirect m now =
     (if time_IsZero now then False
      else status_CanRedirect (m_status m) \<and> \<not> m_IsExpired m now)"

section \<open>Facts\<close>

lemma copyTimePointer_id [simp]: "copyTimePointer t = t"
  by (simp add: copyTimePointer_def split: option.splits)

text \<open>The projection of a well-formed link, as a total function.\<close>

definition mapping_of :: "link \<Rightarrow> redirect_mapping" where
  "mapping_of l =
     \<lparr>m_code = code l, m_destination = destination l, m_status = status l,
      m_expiresAt = ExpiresAt l, m_version = version l\<rparr>"

lemma RedirectMappingFromLink_ok:
  "link_ok l \<Longrightarrow> RedirectMappingFromLink l = Inr (mapping_of l)"
  by (auto simp: RedirectMappingFromLink_def NewRedirectMapping_def link_ok_def mapping_of_def Let_def)

lemma m_CanRedirect_mapping_of [simp]: "m_CanRedirect (mapping_of l) now = CanRedirect l now"
  by (auto simp: m_CanRedirect_def CanRedirect_def mapping_of_def m_IsExpired_def IsExpired_def
      ExpiresAt_def split: option.splits)

lemma m_CanRedirect_iff:
  "m_CanRedirect m now \<longleftrightarrow>
     now \<noteq> 0 \<and> m_status m = Active \<and> (\<forall>t. m_expiresAt m = Some t \<longrightarrow> now < t)"
  by (auto simp: m_CanRedirect_def time_IsZero_def status_CanRedirect_def m_IsExpired_def
      split: option.splits)

text \<open>Well-formed mappings are exactly what the constructor returns.\<close>

definition mapping_ok :: "redirect_mapping \<Rightarrow> bool" where
  "mapping_ok m \<longleftrightarrow>
     m_code m \<noteq> [] \<and> TrimSpace (m_code m) = m_code m \<and> \<not> dest_IsZero (m_destination m)
     \<and> status_IsValid (m_status m) \<and> m_version m \<noteq> 0"

lemma mapping_ok_mapping_of [simp]: "link_ok l \<Longrightarrow> mapping_ok (mapping_of l)"
  by (simp add: mapping_ok_def mapping_of_def link_ok_def)

lemma mapping_of_select [simp]:
  "m_code (mapping_of l) = code l" "m_destination (mapping_of l) = destination l"
  "m_status (mapping_of l) = status l" "m_expiresAt (mapping_of l) = ExpiresAt l"
  "m_version (mapping_of l) = version l"
  by (simp_all add: mapping_of_def)

lemma NewRedirectMapping_ok:
  "mapping_ok m \<Longrightarrow>
     NewRedirectMapping (m_code m) (m_destination m) (m_status m) (m_expiresAt m) (m_version m)
     = Inr m"
  by (simp add: NewRedirectMapping_def mapping_ok_def)

lemma NewRedirectMapping_InrD:
  "NewRedirectMapping c d st e v = Inr m \<Longrightarrow>
     mapping_ok m \<and> m_code m = TrimSpace c \<and> m_destination m = d \<and> m_status m = st
     \<and> m_expiresAt m = e \<and> m_version m = v"
  by (auto simp: NewRedirectMapping_def mapping_ok_def Let_def split: if_splits)

section \<open>Theorems\<close>

text \<open>The redirect decision on the projection of a link is the decision on the link, at any time.\<close>

theorem projection_preserves_decision:
  assumes "RedirectMappingFromLink l = Inr m"
  shows "m_CanRedirect m now = CanRedirect l now \<and> m_destination m = destination l
    \<and> m_version m = version l"
  using NewRedirectMapping_InrD [OF assms [unfolded RedirectMappingFromLink_def]]
  by (auto simp: m_CanRedirect_iff CanRedirect_expiry)


theorem projection_preserves_decision_witness:
  "m_CanRedirect (mapping_of sample_link) 4000 = CanRedirect sample_link 4000"
  using projection_preserves_decision [OF RedirectMappingFromLink_ok [OF sample_link_ok]] by blast

end
