(* ===== verification/Ports.thy ===== *)
theory Ports
  imports RedirectMapping
begin

text \<open>
  \<^verbatim>\<open>internal/link/ports\<close>: the interfaces the use cases depend on.  A Go interface value is a
  record with one function per method, over the state type \<open>'s\<close> of whoever implements it; the
  type of contexts \<open>'c\<close> is left to the implementation, which is the only one to look at a
  context.  Each interface comes with the contract its clients rely on, as a locale that the
  adapters interpret.
\<close>

section \<open>Interfaces\<close>

text \<open>\<^verbatim>\<open>Clock\<close> and \<^verbatim>\<open>CodeGenerator\<close>.\<close>

type_synonym 's clock = "'s \<Rightarrow> time \<times> 's"

type_synonym ('c, 's) code_generator = "'c \<Rightarrow> 's \<Rightarrow> (err + string) \<times> 's"

text \<open>The allocator of the Go run time: the address of a variable that escapes to the heap.\<close>

type_synonym 's allocator = "'s \<Rightarrow> nat \<times> 's"

record ('c, 's) link_repository =
  Insert :: "'c \<Rightarrow> link \<Rightarrow> 's \<Rightarrow> err option \<times> 's"
  FindByCode :: "'c \<Rightarrow> string \<Rightarrow> 's \<Rightarrow> (err + link) \<times> 's"
  Update :: "'c \<Rightarrow> link \<Rightarrow> u64 \<Rightarrow> 's \<Rightarrow> err option \<times> 's"

record ('c, 's) idempotency_store =
  IdemGet :: "'c \<Rightarrow> string \<Rightarrow> string \<Rightarrow> 's \<Rightarrow> (err + link) \<times> 's"
  IdemSave :: "'c \<Rightarrow> string \<Rightarrow> string \<Rightarrow> link \<Rightarrow> 's \<Rightarrow> err option \<times> 's"

record ('c, 's) redirect_cache =
  CacheGet :: "'c \<Rightarrow> string \<Rightarrow> 's \<Rightarrow> (err + redirect_mapping) \<times> 's"
  PutIfNewer :: "'c \<Rightarrow> redirect_mapping \<Rightarrow> duration \<Rightarrow> 's \<Rightarrow> err option \<times> 's"

type_synonym ('c, 's) link_resolver =
  "'c \<Rightarrow> string \<Rightarrow> 's \<Rightarrow> (err + redirect_mapping) \<times> 's"

section \<open>The contract of a link repository\<close>

text \<open>
  \<open>content\<close> is the map from codes to links that a repository stands for, \<open>keep\<close> what it retains
  of a link (a database keeps no addresses), \<open>inv\<close> its invariant, \<open>fit\<close> the links it can hold.  An
  operation that reports a sentinel error has changed nothing; only an error for which \<open>ambiguous\<close>
  holds, one that leaves open whether the operation took effect, may come with the effect.  An update
  leaves the owner and the creation time of the stored link alone.
\<close>

locale repository_contract =
  fixes repo :: "('c, 's) link_repository"
    and content :: "'s \<Rightarrow> string \<Rightarrow> link option"
    and keep :: "link \<Rightarrow> link"
    and inv :: "'s \<Rightarrow> bool"
    and ambiguous :: "err \<Rightarrow> bool"
    and fit :: "link \<Rightarrow> bool"
  assumes keep_same:
      "code (keep l) = code l" "version (keep l) = version l" "ownerID (keep l) = ownerID l"
      "status (keep l) = status l" "destination (keep l) = destination l" "keep (keep l) = keep l"
    and keep_createdAt: "createdAt l = createdAt l' \<Longrightarrow> createdAt (keep l) = createdAt (keep l')"
    and content_ok: "inv s \<Longrightarrow> content s k = Some l \<Longrightarrow> code l = k \<and> link_ok l \<and> keep l = l"
    and sentinel_sharp: "ambiguous e \<Longrightarrow> \<not> errors_is e (Ports p)"
    and fit_ok: "fit l \<Longrightarrow> link_ok l"
    and fit_same:
      "fit l \<Longrightarrow> link_ok l' \<Longrightarrow> destination l' = destination l \<Longrightarrow> createdAt l' = createdAt l \<Longrightarrow> fit l'"
    and Insert_ok:
      "inv s \<Longrightarrow> fit l \<Longrightarrow> Insert repo c l s = (None, s') \<Longrightarrow>
         content s (code l) = None \<and> content s' = (content s)(code l \<mapsto> keep l) \<and> inv s'"
    and Insert_err:
      "inv s \<Longrightarrow> fit l \<Longrightarrow> Insert repo c l s = (Some e, s') \<Longrightarrow>
         inv s' \<and> (content s' = content s
           \<or> ambiguous e \<and> content s (code l) = None \<and> content s' = (content s)(code l \<mapsto> keep l))"
    and Insert_exists:
      "inv s \<Longrightarrow> Insert repo c l s = (Some e, s') \<Longrightarrow>
         errors_is e (Ports ErrLinkAlreadyExists) \<Longrightarrow> content s (code l) \<noteq> None"
    and Find_frame:
      "inv s \<Longrightarrow> FindByCode repo c k s = (r, s') \<Longrightarrow> inv s' \<and> content s' = content s"
    and Find_ok:
      "inv s \<Longrightarrow> FindByCode repo c k s = (Inr l, s') \<Longrightarrow> fit l \<and> content s k = Some (keep l)"
    and Find_missing:
      "inv s \<Longrightarrow> FindByCode repo c k s = (Inl e, s') \<Longrightarrow>
         errors_is e (Ports ErrLinkNotFound) \<Longrightarrow> content s k = None"
    and Update_ok:
      "inv s \<Longrightarrow> fit l \<Longrightarrow> Update repo c l ev s = (None, s') \<Longrightarrow>
         \<exists>old. content s (code l) = Some old \<and> version old = ev \<and>
           (ownerID old = ownerID l \<longrightarrow> createdAt old = createdAt (keep l) \<longrightarrow>
              inv s' \<and> content s' = (content s)(code l \<mapsto> keep l))"
    and Update_err:
      "inv s \<Longrightarrow> fit l \<Longrightarrow> Update repo c l ev s = (Some e, s') \<Longrightarrow>
         inv s' \<and> content s' = content s
         \<or> ambiguous e \<and> (\<exists>old. content s (code l) = Some old \<and> version old = ev \<and>
             (ownerID old = ownerID l \<longrightarrow> createdAt old = createdAt (keep l) \<longrightarrow>
                inv s' \<and> content s' = (content s)(code l \<mapsto> keep l)))"
    and Update_conflict:
      "inv s \<Longrightarrow> Update repo c l ev s = (Some e, s') \<Longrightarrow>
         errors_is e (Ports ErrVersionConflict) \<Longrightarrow>
         \<exists>old. content s (code l) = Some old \<and> version old \<noteq> ev"

text \<open>A repository that is one part of a larger state.\<close>

definition lift_repository ::
    "('w \<Rightarrow> 's) \<Rightarrow> ('s \<Rightarrow> 'w \<Rightarrow> 'w) \<Rightarrow> ('c, 's) link_repository \<Rightarrow> ('c, 'w) link_repository" where
  "lift_repository get put repo =
     \<lparr>Insert = (\<lambda>c l. lift get put (Insert repo c l)),
      FindByCode = (\<lambda>c k. lift get put (FindByCode repo c k)),
      Update = (\<lambda>c l v. lift get put (Update repo c l v))\<rparr>"

context repository_contract
begin

lemma lifted:
  assumes "\<And>s w. get (put s w) = s"
  shows "repository_contract (lift_repository get put repo) (\<lambda>w. content (get w)) keep
    (\<lambda>w. inv (get w)) ambiguous fit"
proof -
  let ?r = "lift_repository get put repo"
  have i: "Insert ?r c l w = (q, w') \<Longrightarrow> Insert repo c l (get w) = (q, get w')"
    and f: "FindByCode ?r c k w = (r, w') \<Longrightarrow> FindByCode repo c k (get w) = (r, get w')"
    and u: "Update ?r c l v w = (q, w') \<Longrightarrow> Update repo c l v (get w) = (q, get w')"
    for c l w q w' k r v
    using assms by (auto simp: lift_repository_def lift_iff)
  show ?thesis
    by (unfold_locales; (fact keep_same | erule keep_createdAt | erule (1) content_ok
        | erule sentinel_sharp | erule fit_ok | erule (3) fit_same | drule i | drule f | drule u)?;
        (erule (2) Insert_ok Insert_err Update_ok Update_err Insert_exists Update_conflict Find_missing
         | erule (1) Find_frame Find_ok)?)
qed

text \<open>A property of the state that every operation keeps can join the invariant.\<close>

lemma with_kept:
  assumes "\<And>c l s q s'. Insert repo c l s = (q, s') \<Longrightarrow> J s \<Longrightarrow> J s'"
    "\<And>c k s r s'. FindByCode repo c k s = (r, s') \<Longrightarrow> J s \<Longrightarrow> J s'"
    "\<And>c l v s q s'. Update repo c l v s = (q, s') \<Longrightarrow> J s \<Longrightarrow> J s'"
  shows "repository_contract repo content keep (\<lambda>s. inv s \<and> J s) ambiguous fit"
proof ((unfold_locales; (fact keep_same | erule keep_createdAt | erule sentinel_sharp | erule fit_ok
      | erule (3) fit_same)?), goal_cases)
  case (1 s k l)
  then show ?case using content_ok by blast
next
  case (2 s l c s')
  then show ?case using Insert_ok assms(1) by blast
next
  case (3 s l c e s')
  then show ?case using Insert_err assms(1) by blast
next
  case (4 s c l e s')
  then show ?case using Insert_exists by blast
next
  case (5 s c k r s')
  then show ?case using Find_frame assms(2) by blast
next
  case (6 s c k l s')
  then show ?case using Find_ok by blast
next
  case (7 s c k e s')
  then show ?case using Find_missing by blast
next
  case (8 s l c ev s')
  then have "J s'" using assms(3) by blast
  with Update_ok [of s l c ev s'] 8 show ?case by blast
next
  case (9 s l c ev e s')
  then have "J s'" using assms(3) by blast
  with Update_err [of s l c ev e s'] 9 show ?case by blast
next
  case (10 s c l ev e s')
  then show ?case using Update_conflict by blast
qed

end

section \<open>The contract of an idempotency store\<close>

text \<open>
  \<open>saved s\<close> says which link a key of an owner stands for; \<open>recorded s l\<close> is the link that a
  key saved for \<open>l\<close> in \<open>s\<close> will stand for, and \<open>kept l\<close> what the store retains of a link it
  returns.  A key is written once: a later save under the same key changes nothing, and is a conflict
  unless the store takes the link for the one it holds (\<open>same\<close>).  An \<open>ambiguous\<close> error leaves open
  whether the key was written.
\<close>

locale idempotency_contract =
  fixes store :: "('c, 's) idempotency_store"
    and saved :: "'s \<Rightarrow> string \<Rightarrow> string \<Rightarrow> link option"
    and same :: "link \<Rightarrow> link \<Rightarrow> bool"
    and recorded :: "'s \<Rightarrow> link \<Rightarrow> link"
    and inv :: "'s \<Rightarrow> bool"
    and kept :: "link \<Rightarrow> link"
    and ambiguous :: "err \<Rightarrow> bool"
  assumes Get_frame: "inv s \<Longrightarrow> IdemGet store c u k s = (r, s') \<Longrightarrow> saved s' = saved s"
    and Get_ok: "inv s \<Longrightarrow> IdemGet store c u k s = (Inr l, s') \<Longrightarrow> saved s u k = Some (kept l)"
    and Get_missing:
      "inv s \<Longrightarrow> IdemGet store c u k s = (Inl e, s') \<Longrightarrow> errors_is e (Ports ErrIdempotencyKeyNotFound) \<Longrightarrow>
         saved s u k = None"
    and Save_ok:
      "inv s \<Longrightarrow> IdemSave store c u k l s = (None, s') \<Longrightarrow>
         (saved s u k = None \<and> saved s' = (saved s)(u := (saved s u)(k \<mapsto> recorded s l)))
         \<or> (\<exists>old. saved s u k = Some old \<and> same old l \<and> saved s' = saved s)"
    and Save_err:
      "inv s \<Longrightarrow> IdemSave store c u k l s = (Some e, s') \<Longrightarrow>
         saved s' = saved s
         \<or> ambiguous e \<and> saved s u k = None \<and> saved s' = (saved s)(u := (saved s u)(k \<mapsto> recorded s l))"
    and Save_conflict:
      "inv s \<Longrightarrow> IdemSave store c u k l s = (Some e, s') \<Longrightarrow> errors_is e (Ports ErrIdempotencyKeyConflict) \<Longrightarrow>
         \<exists>old. saved s u k = Some old \<and> \<not> same old l"
begin

text \<open>What a key stands for never changes once it is saved.\<close>

lemma Save_stable:
  assumes "inv s" "saved s u k = Some old" "IdemSave store c u' k' l s = (r, s')"
  shows "saved s' u k = Some old"
proof (cases r)
  case None
  with assms Save_ok [of s c u' k' l s'] show ?thesis by (auto simp: fun_upd_def)
next
  case (Some e)
  with assms Save_err [of s c u' k' l e s'] show ?thesis by (auto simp: fun_upd_def)
qed

lemma Save_then_Get:
  assumes "IdemSave store c u k l s = (None, s1)" "saved s u k = None" "inv s" "inv s1"
    "IdemGet store c' u k s1 = (Inr l', s2)"
  shows "kept l' = recorded s l"
  using Save_ok [OF assms(3,1)] Get_ok [OF assms(4,5)] assms(2) by auto

lemma restricted:
  assumes "\<And>s. I s \<Longrightarrow> inv s"
  shows "idempotency_contract store saved same recorded I kept ambiguous"
  by (unfold_locales; drule assms;
      (erule (2) Get_missing Save_conflict | erule (1) Get_frame Get_ok Save_ok Save_err)?)

end

definition lift_idempotency ::
    "('w \<Rightarrow> 's) \<Rightarrow> ('s \<Rightarrow> 'w \<Rightarrow> 'w) \<Rightarrow> ('c, 's) idempotency_store \<Rightarrow> ('c, 'w) idempotency_store" where
  "lift_idempotency get put store =
     \<lparr>IdemGet = (\<lambda>c u k. lift get put (IdemGet store c u k)),
      IdemSave = (\<lambda>c u k l. lift get put (IdemSave store c u k l))\<rparr>"

context idempotency_contract
begin

lemma lifted:
  assumes "\<And>s w. get (put s w) = s"
  shows "idempotency_contract (lift_idempotency get put store) (\<lambda>w. saved (get w)) same
    (\<lambda>w. recorded (get w)) (\<lambda>w. inv (get w)) kept ambiguous"
proof -
  let ?r = "lift_idempotency get put store"
  have g: "IdemGet ?r c u k w = (r, w') \<Longrightarrow> IdemGet store c u k (get w) = (r, get w')"
    and sv: "IdemSave ?r c u k l w = (q, w') \<Longrightarrow> IdemSave store c u k l (get w) = (q, get w')"
    for c u k w r w' l q
    using assms by (auto simp: lift_idempotency_def lift_iff)
  show ?thesis
    by (unfold_locales; (drule g | drule sv)?;
        (erule (2) Get_missing Save_conflict | erule (1) Get_frame Get_ok Save_ok Save_err)?)
qed

end

section \<open>The contract of a redirect cache\<close>

text \<open>
  \<open>cached s k\<close> is what a read of code \<open>k\<close> would find, \<open>dec m\<close> what a read finds of a mapping
  \<open>m\<close> that has been put.  An entry may vanish at any time.  A put, whether it reports success
  or not, touches its own code only, and leaves there what was there, nothing, or its mapping.
\<close>

locale redirect_cache_contract =
  fixes cache :: "('c, 's) redirect_cache"
    and cached :: "'s \<Rightarrow> string \<Rightarrow> redirect_mapping option"
    and dec :: "redirect_mapping \<Rightarrow> redirect_mapping option"
  assumes CacheGet_ok: "CacheGet cache c k s = (Inr m, s') \<Longrightarrow> cached s k = Some m"
    and CacheGet_frame:
      "CacheGet cache c k s = (r, s') \<Longrightarrow> cached s' k' = cached s k' \<or> cached s' k' = None"
    and Put_frame:
      "mapping_ok m \<Longrightarrow> PutIfNewer cache c m ttl s = (q, s') \<Longrightarrow>
         cached s' k' = cached s k' \<or> cached s' k' = None \<or> k' = m_code m \<and> cached s' k' = dec m"
    and dec_version: "mapping_ok m \<Longrightarrow> dec m = Some m' \<Longrightarrow> m_version m' = m_version m"

end
