(* ===== verification/ManageLink.thy ===== *)
theory ManageLink
  imports Ports
begin

text \<open>
  The owner's use cases of \<^verbatim>\<open>internal/link/application\<close>: \<^verbatim>\<open>get_managed_link.go\<close>,
  \<^verbatim>\<open>change_link_status.go\<close>, \<^verbatim>\<open>change_link_destination.go\<close>,
  \<^verbatim>\<open>change_link_expiration.go\<close>.  The ports a use case holds are the first arguments of its
  \<open>Execute\<close>; the world they act on is threaded through as \<open>s\<close>.
\<close>

section \<open>The use cases\<close>

record GetManagedLinkRequest =
  g_Code :: string
  g_OwnerID :: string

definition GetManagedLink ::
    "('c, 's) link_repository \<Rightarrow> 'c \<Rightarrow> GetManagedLinkRequest \<Rightarrow> 's \<Rightarrow> (err + link) \<times> 's" where
  "GetManagedLink repo ctx request s =
     (let owner = TrimSpace (g_OwnerID request)
      in if owner = [] then (Inl (App ErrLinkAccessDenied), s)
         else
           (case FindByCode repo ctx (TrimSpace (g_Code request)) s of
              (Inl e, s1) \<Rightarrow> (Inl e, s1)
            | (Inr l, s1) \<Rightarrow>
                if ownerID l \<noteq> owner then (Inl (App ErrLinkAccessDenied), s1)
                else (Inr l, s1)))"

record ChangeLinkStatusRequest =
  s_Code :: string
  s_OwnerID :: string
  s_Status :: LinkStatus
  s_ExpectedVersion :: u64

definition ChangeLinkStatus ::
    "('c, 's) link_repository \<Rightarrow> 's clock \<Rightarrow> 'c \<Rightarrow> ChangeLinkStatusRequest \<Rightarrow> 's
     \<Rightarrow> (err + link) \<times> 's" where
  "ChangeLinkStatus repo Now ctx request s =
     (let owner = TrimSpace (s_OwnerID request)
      in if owner = [] then (Inl (App ErrLinkAccessDenied), s)
         else if s_ExpectedVersion request = 0 then (Inl (App ErrInvalidExpectedVersion), s)
         else
           (case FindByCode repo ctx (TrimSpace (s_Code request)) s of
              (Inl e, s1) \<Rightarrow> (Inl e, s1)
            | (Inr l, s1) \<Rightarrow>
                if ownerID l \<noteq> owner then (Inl (App ErrLinkAccessDenied), s1)
                else if version l \<noteq> s_ExpectedVersion request
                then (Inl (Ports ErrVersionConflict), s1)
                else
                  (case Now s1 of (now, s2) \<Rightarrow>
                     (case (case s_Status request of
                              Active \<Rightarrow> Reactivate now l
                            | Disabled \<Rightarrow> Disable now l
                            | Deleted \<Rightarrow> Delete now l
                            | _ \<Rightarrow> (Some (Domain ErrInvalidLinkStatus), l)) of
                        (Some e, _) \<Rightarrow> (Inl e, s2)
                      | (None, l') \<Rightarrow>
                          (case Update repo ctx l' (s_ExpectedVersion request) s2 of
                             (Some e, s3) \<Rightarrow> (Inl e, s3)
                           | (None, s3) \<Rightarrow> (Inr l', s3))))))"

record ChangeLinkDestinationRequest =
  d_Code :: string
  d_OwnerID :: string
  d_Destination :: string
  d_ExpectedVersion :: u64

definition ChangeLinkDestination ::
    "(string \<Rightarrow> string) \<Rightarrow> ('c, 's) link_repository \<Rightarrow> 's clock \<Rightarrow> 'c
     \<Rightarrow> ChangeLinkDestinationRequest \<Rightarrow> 's \<Rightarrow> (err + link) \<times> 's" where
  "ChangeLinkDestination ul repo Now ctx request s =
     (let owner = TrimSpace (d_OwnerID request)
      in if owner = [] then (Inl (App ErrLinkAccessDenied), s)
         else if d_ExpectedVersion request = 0 then (Inl (App ErrInvalidExpectedVersion), s)
         else
           (case FindByCode repo ctx (TrimSpace (d_Code request)) s of
              (Inl e, s1) \<Rightarrow> (Inl e, s1)
            | (Inr l, s1) \<Rightarrow>
                if ownerID l \<noteq> owner then (Inl (App ErrLinkAccessDenied), s1)
                else if version l \<noteq> d_ExpectedVersion request
                then (Inl (Ports ErrVersionConflict), s1)
                else
                  (case NewDestinationURL ul (d_Destination request) of
                     Inl e \<Rightarrow> (Inl e, s1)
                   | Inr d \<Rightarrow>
                       (case Now s1 of (now, s2) \<Rightarrow>
                          (case UpdateDestination d now l of
                             (Some e, _) \<Rightarrow> (Inl e, s2)
                           | (None, l') \<Rightarrow>
                               (case Update repo ctx l' (d_ExpectedVersion request) s2 of
                                  (Some e, s3) \<Rightarrow> (Inl e, s3)
                                | (None, s3) \<Rightarrow> (Inr l', s3)))))))"

record ChangeLinkExpirationRequest =
  e_Code :: string
  e_OwnerID :: string
  e_ExpiresAt :: "time option"
  e_ExpectedVersion :: u64

definition ChangeLinkExpiration ::
    "('c, 's) link_repository \<Rightarrow> 's clock \<Rightarrow> 's allocator \<Rightarrow> 'c \<Rightarrow> ChangeLinkExpirationRequest
     \<Rightarrow> 's \<Rightarrow> (err + link) \<times> 's" where
  "ChangeLinkExpiration repo Now alloc ctx request s =
     (let owner = TrimSpace (e_OwnerID request)
      in if owner = [] then (Inl (App ErrLinkAccessDenied), s)
         else if e_ExpectedVersion request = 0 then (Inl (App ErrInvalidExpectedVersion), s)
         else
           (case FindByCode repo ctx (TrimSpace (e_Code request)) s of
              (Inl e, s1) \<Rightarrow> (Inl e, s1)
            | (Inr l, s1) \<Rightarrow>
                if ownerID l \<noteq> owner then (Inl (App ErrLinkAccessDenied), s1)
                else if version l \<noteq> e_ExpectedVersion request
                then (Inl (Ports ErrVersionConflict), s1)
                else
                  (case Now s1 of (now, s2) \<Rightarrow>
                     (case (case e_ExpiresAt request of
                              None \<Rightarrow> (ClearExpiration now l, s2)
                            | Some t \<Rightarrow>
                                (case alloc s2 of (a, s3) \<Rightarrow> (SetExpiration a t now l, s3))) of
                        ((Some e, _), s3) \<Rightarrow> (Inl e, s3)
                      | ((None, l'), s3) \<Rightarrow>
                          (case Update repo ctx l' (e_ExpectedVersion request) s3 of
                             (Some e, s4) \<Rightarrow> (Inl e, s4)
                           | (None, s4) \<Rightarrow> (Inr l', s4))))))"

section \<open>Their common shape\<close>

text \<open>
  The three changes are one guarded read-modify-write that differ in the mutation \<open>m\<close> alone.  A
  mutation yields the error to report or the operation of the aggregate that has been applied.
\<close>

definition guarded_change ::
    "('c, 's) link_repository \<Rightarrow> 'c \<Rightarrow> string \<Rightarrow> string \<Rightarrow> u64
     \<Rightarrow> (link \<Rightarrow> 's \<Rightarrow> (err option \<times> link) \<times> 's) \<Rightarrow> 's \<Rightarrow> (err + link) \<times> 's" where
  "guarded_change repo ctx k u expected m s =
     (if TrimSpace u = [] then (Inl (App ErrLinkAccessDenied), s)
      else if expected = 0 then (Inl (App ErrInvalidExpectedVersion), s)
      else
        (case FindByCode repo ctx (TrimSpace k) s of
           (Inl e, s1) \<Rightarrow> (Inl e, s1)
         | (Inr l, s1) \<Rightarrow>
             if ownerID l \<noteq> TrimSpace u then (Inl (App ErrLinkAccessDenied), s1)
             else if version l \<noteq> expected then (Inl (Ports ErrVersionConflict), s1)
             else
               (case m l s1 of
                  ((Some e, _), s2) \<Rightarrow> (Inl e, s2)
                | ((None, l'), s2) \<Rightarrow>
                    (case Update repo ctx l' expected s2 of
                       (Some e, s3) \<Rightarrow> (Inl e, s3)
                     | (None, s3) \<Rightarrow> (Inr l', s3)))))"

definition status_change :: "'s clock \<Rightarrow> LinkStatus \<Rightarrow> link \<Rightarrow> 's \<Rightarrow> (err option \<times> link) \<times> 's" where
  "status_change Now st l s =
     (case Now s of (now, s1) \<Rightarrow>
        (case st of
           Active \<Rightarrow> (Reactivate now l, s1)
         | Disabled \<Rightarrow> (Disable now l, s1)
         | Deleted \<Rightarrow> (Delete now l, s1)
         | Unknown \<Rightarrow> ((Some (Domain ErrInvalidLinkStatus), l), s1)))"

definition destination_change ::
    "(string \<Rightarrow> string) \<Rightarrow> 's clock \<Rightarrow> string \<Rightarrow> link \<Rightarrow> 's \<Rightarrow> (err option \<times> link) \<times> 's" where
  "destination_change ul Now raw l s =
     (case NewDestinationURL ul raw of
        Inl e \<Rightarrow> ((Some e, l), s)
      | Inr d \<Rightarrow> (case Now s of (now, s1) \<Rightarrow> (UpdateDestination d now l, s1)))"

definition expiration_change ::
    "'s clock \<Rightarrow> 's allocator \<Rightarrow> time option \<Rightarrow> link \<Rightarrow> 's \<Rightarrow> (err option \<times> link) \<times> 's" where
  "expiration_change Now alloc t l s =
     (case Now s of (now, s1) \<Rightarrow>
        (case t of
           None \<Rightarrow> (ClearExpiration now l, s1)
         | Some t \<Rightarrow> (case alloc s1 of (a, s2) \<Rightarrow> (SetExpiration a t now l, s2))))"

lemma ChangeLinkStatus_guarded:
  "ChangeLinkStatus repo Now ctx q =
     guarded_change repo ctx (s_Code q) (s_OwnerID q) (s_ExpectedVersion q)
       (status_change Now (s_Status q))"
  by (rule ext)
    (auto simp: ChangeLinkStatus_def guarded_change_def status_change_def Let_def
      split: prod.splits sum.splits option.splits LinkStatus.splits)

lemma ChangeLinkDestination_guarded:
  "ChangeLinkDestination ul repo Now ctx q =
     guarded_change repo ctx (d_Code q) (d_OwnerID q) (d_ExpectedVersion q)
       (destination_change ul Now (d_Destination q))"
  by (rule ext)
    (auto simp: ChangeLinkDestination_def guarded_change_def destination_change_def Let_def
      split: prod.splits sum.splits option.splits)

lemma ChangeLinkExpiration_guarded:
  "ChangeLinkExpiration repo Now alloc ctx q =
     guarded_change repo ctx (e_Code q) (e_OwnerID q) (e_ExpectedVersion q)
       (expiration_change Now alloc (e_ExpiresAt q))"
  by (rule ext)
    (auto simp: ChangeLinkExpiration_def guarded_change_def expiration_change_def Let_def
      split: prod.splits sum.splits option.splits)


section \<open>Correctness over the contract\<close>

lemma apply_op_intros:
  "Disable at l = p \<Longrightarrow> \<exists>x. apply_op x l = p"
  "Reactivate at l = p \<Longrightarrow> \<exists>x. apply_op x l = p"
  "Delete at l = p \<Longrightarrow> \<exists>x. apply_op x l = p"
  "UpdateDestination d at l = p \<Longrightarrow> \<exists>x. apply_op x l = p"
  "SetExpiration a t at l = p \<Longrightarrow> \<exists>x. apply_op x l = p"
  "ClearExpiration at l = p \<Longrightarrow> \<exists>x. apply_op x l = p"
  by (metis apply_op.simps)+

lemma mutations_destination:
  "Disable at l = (r, l') \<Longrightarrow> destination l' = destination l"
  "Reactivate at l = (r, l') \<Longrightarrow> destination l' = destination l"
  "Delete at l = (r, l') \<Longrightarrow> destination l' = destination l"
  "SetExpiration a t at l = (r, l') \<Longrightarrow> destination l' = destination l"
  "ClearExpiration at l = (r, l') \<Longrightarrow> destination l' = destination l"
  by (auto simp: mutation_defs split: option.splits if_splits)

lemma UpdateDestination_destination: "UpdateDestination d at l = (None, l') \<Longrightarrow> destination l' = d"
  by (auto simp: mutation_defs split: option.splits if_splits)

text \<open>The other ports leave the repository alone.\<close>

locale managed_links = repository_contract repo content keep inv ambiguous fit
  for repo :: "('c, 's) link_repository"
    and content :: "'s \<Rightarrow> string \<Rightarrow> link option"
    and keep :: "link \<Rightarrow> link"
    and inv :: "'s \<Rightarrow> bool"
    and ambiguous :: "err \<Rightarrow> bool"
    and fit :: "link \<Rightarrow> bool" +
  fixes Now :: "'s clock" and alloc :: "'s allocator"
  assumes Now_frame: "Now s = (t, s') \<Longrightarrow> content s' = content s \<and> (inv s \<longrightarrow> inv s')"
    and alloc_frame: "alloc s = (a, s') \<Longrightarrow> content s' = content s \<and> (inv s \<longrightarrow> inv s')"
begin

text \<open>The destinations a link of the repository can be given.\<close>

definition fit_dest :: "destination_url \<Rightarrow> bool" where
  "fit_dest d \<longleftrightarrow>
     (\<forall>l l'. fit l \<longrightarrow> link_ok l' \<longrightarrow> createdAt l' = createdAt l \<longrightarrow> destination l' = d \<longrightarrow> fit l')"

definition fit_raw :: "(string \<Rightarrow> string) \<Rightarrow> string \<Rightarrow> bool" where
  "fit_raw ul raw \<longleftrightarrow> (\<forall>d. NewDestinationURL ul raw = Inr d \<longrightarrow> fit_dest d)"

definition change_sound :: "(link \<Rightarrow> 's \<Rightarrow> (err option \<times> link) \<times> 's) \<Rightarrow> bool" where
  "change_sound m \<longleftrightarrow>
     (\<forall>l s r l' s'. m l s = ((r, l'), s') \<longrightarrow>
        content s' = content s \<and> (inv s \<longrightarrow> inv s') \<and>
        (r = None \<longrightarrow> (\<exists>x. apply_op x l = (None, l')) \<and>
           (destination l' = destination l \<or> fit_dest (destination l'))))"

lemma change_soundD:
  assumes "change_sound m" "m l s = ((r, l'), s')"
  shows "content s' = content s" "inv s \<Longrightarrow> inv s'" "r = None \<Longrightarrow> \<exists>x. apply_op x l = (None, l')"
  using assms unfolding change_sound_def by blast+

lemma fit_change:
  assumes "change_sound m" "m l s = ((None, l'), s')" "fit l" "version l \<noteq> - 1"
  shows "fit l'"
proof -
  obtain x where x: "apply_op x l = (None, l')" using change_soundD(3) [OF assms(1,2)] by blast
  have "link_ok l'" using link_ok_apply_op [OF fit_ok [OF assms(3)] x assms(4)] .
  moreover have "destination l' = destination l \<or> fit_dest (destination l')"
    using assms(1,2) unfolding change_sound_def by blast
  ultimately show ?thesis
    using fit_same [OF assms(3)] apply_op_ok(3) [OF x] assms(3) unfolding fit_dest_def by blast
qed

lemma status_change_sound: "change_sound (status_change Now st)"
  by (auto simp: change_sound_def status_change_def split: prod.splits LinkStatus.splits
      dest!: Now_frame intro: apply_op_intros dest: mutations_destination)

lemma destination_change_sound:
  assumes "fit_raw ul raw"
  shows "change_sound (destination_change ul Now raw)"
  using assms
  by (auto simp: change_sound_def destination_change_def fit_raw_def split: prod.splits sum.splits
      dest!: Now_frame intro: apply_op_intros dest: UpdateDestination_destination)

lemma expiration_change_sound: "change_sound (expiration_change Now alloc t)"
  by (auto simp: change_sound_def expiration_change_def split: prod.splits option.splits
      dest!: Now_frame alloc_frame intro: apply_op_intros dest: mutations_destination)

text \<open>What the guards establish before the mutation runs.\<close>

lemma guarded_changeE:
  assumes "guarded_change repo ctx k u v m s = (r, s')" "inv s"
  obtains (refused) e where "r = Inl e" "inv s'" "content s' = content s"
      "s' = s \<or> (\<exists>q. FindByCode repo ctx (TrimSpace k) s = (q, s'))"
  | (mutation) l s1 e l' where "FindByCode repo ctx (TrimSpace k) s = (Inr l, s1)"
      "m l s1 = ((Some e, l'), s')" "r = Inl e"
  | (stored) l s1 l' s2 q where "FindByCode repo ctx (TrimSpace k) s = (Inr l, s1)"
      "ownerID l = TrimSpace u" "version l = v" "v \<noteq> 0" "m l s1 = ((None, l'), s2)"
      "Update repo ctx l' v s2 = (q, s')" "r = (case q of None \<Rightarrow> Inr l' | Some e \<Rightarrow> Inl e)"
proof -
  obtain f s1 where f: "FindByCode repo ctx (TrimSpace k) s = (f, s1)" by fastforce
  note frame = Find_frame [OF assms(2) f]
  show thesis
  proof (cases f)
    case (Inl e)
    with assms f frame show thesis
      by (auto simp: guarded_change_def split: if_splits intro: refused)
  next
    case (Inr l)
    obtain q l' s2 where m: "m l s1 = ((q, l'), s2)" by (metis prod.collapse)
    show thesis
    proof (cases "TrimSpace u = [] \<or> v = 0 \<or> ownerID l \<noteq> TrimSpace u \<or> version l \<noteq> v")
      case True
      with assms f frame Inr show thesis
        by (auto simp: guarded_change_def split: if_splits intro: refused)
    next
      case False
      then have g: "guarded_change repo ctx k u v m s
          = (case q of Some e \<Rightarrow> (Inl e, s2) | None \<Rightarrow>
               (case Update repo ctx l' v s2 of
                  (Some e, s3) \<Rightarrow> (Inl e, s3) | (None, s3) \<Rightarrow> (Inr l', s3)))"
        using f Inr m by (auto simp: guarded_change_def split: option.splits)
      show thesis
      proof (cases q)
        case (Some e)
        with g m f Inr assms show thesis by (intro mutation) auto
      next
        case None
        obtain p s3 where "Update repo ctx l' v s2 = (p, s3)" by fastforce
        with None g m f Inr assms False show thesis
          by (intro stored [of l s1 l' s2 p]) (auto split: option.splits)
      qed
    qed
  qed
qed

text \<open>The effect of a change that is reported as done.\<close>

lemma guarded_change_ok:
  assumes "guarded_change repo ctx k u v m s = (Inr l', s')" "inv s" "change_sound m" "v \<noteq> - 1"
  obtains l x s1 s2 where "content s (TrimSpace k) = Some (keep l)" "ownerID l = TrimSpace u"
    "version l = v" "apply_op x l = (None, l')" "link_ok l'"
    "content s' = (content s)(TrimSpace k \<mapsto> keep l')" "inv s'" "v \<noteq> 0"
    "m l s1 = ((None, l'), s2)"
  using assms(1,2)
proof (cases rule: guarded_changeE)
  case (stored l s1 k' s2 q)
  then have q: "q = None" "k' = l'" by (auto split: option.splits)
  note f = Find_frame [OF assms(2) stored(1)] Find_ok [OF assms(2) stored(1)]
  note c = change_soundD [OF assms(3) stored(5)]
  obtain x where x: "apply_op x l = (None, l')" using c(3) q by auto
  have ok: "fit l'" using fit_change [OF assms(3) stored(5) [unfolded q]] f assms(4) stored(3) q by simp
  note same = apply_op_ok [OF x]
  have "content s (TrimSpace k) = Some (keep l)" using f by simp
  then have k: "code l' = TrimSpace k"
    using content_ok [OF assms(2)] keep_same(1) same(1) by metis
  note u = Update_ok [OF c(2) ok stored(6) [unfolded q]]
  have "content s' = (content s)(TrimSpace k \<mapsto> keep l') \<and> inv s'"
    using u f c(1) k same(2,3) keep_same(3) [of l] keep_createdAt [of l l'] by auto
  with f x fit_ok [OF ok] stored q show thesis by (intro that [of l x s1 s2]) auto
qed auto

lemma guarded_change_err:
  assumes "guarded_change repo ctx k u v m s = (Inl e, s')" "inv s" "change_sound m" "v \<noteq> - 1"
  shows "inv s' \<and> (content s' = content s \<or> ambiguous e \<and>
    (\<exists>l x l'. content s (TrimSpace k) = Some (keep l) \<and> ownerID l = TrimSpace u \<and> version l = v \<and>
       apply_op x l = (None, l') \<and> content s' = (content s)(TrimSpace k \<mapsto> keep l')))"
  using assms(1,2)
proof (cases rule: guarded_changeE)
  case (mutation l s1 e' l')
  with Find_frame [OF assms(2) mutation(1)] change_soundD [OF assms(3) mutation(2)] show ?thesis
    by auto
next
  case (stored l s1 l' s2 q)
  then have q: "q = Some e" by (auto split: option.splits)
  note f = Find_frame [OF assms(2) stored(1)] Find_ok [OF assms(2) stored(1)]
  note c = change_soundD [OF assms(3) stored(5)]
  obtain x where x: "apply_op x l = (None, l')" using c(3) by auto
  have ok: "fit l'" using fit_change [OF assms(3) stored(5)] f assms(4) stored(3) by simp
  note same = apply_op_ok [OF x]
  have kl: "content s (TrimSpace k) = Some (keep l)" using f by simp
  then have k: "code l' = TrimSpace k"
    using content_ok [OF assms(2)] keep_same(1) same(1) by metis
  note u = Update_err [OF c(2) ok stored(6) [unfolded q]]
  show ?thesis
    using u f c(1) k kl x same(2,3) keep_same(3) [of l] keep_createdAt [of l l'] stored(2,3)
    by auto
qed auto

text \<open>The link a change returns.\<close>

lemma guarded_change_stored:
  assumes "guarded_change repo ctx k u v m s = (Inr l', s')" "inv s" "change_sound m" "v \<noteq> - 1"
  shows "code l' = TrimSpace k \<and> ownerID l' = TrimSpace u \<and> version l' = v + 1"
proof -
  from assms obtain l x s1 s2 where l: "content s (TrimSpace k) = Some (keep l)"
    "ownerID l = TrimSpace u" "version l = v" "apply_op x l = (None, l')"
    by (rule guarded_change_ok)
  then have "code l = TrimSpace k" using content_ok [OF assms(2) l(1)] keep_same(1) by simp
  with l apply_op_ok [OF l(4)] show ?thesis by simp
qed

end

end
