(* ===== verification/CreateLink.thy ===== *)
theory CreateLink
  imports ManageLink
begin

text \<open>
  \<^verbatim>\<open>internal/link/application/create_generated_link.go\<close>: creating a link under a generated
  code, at most once per idempotency key.
\<close>

section \<open>The use case\<close>

record CreateGeneratedLinkRequest =
  c_Destination :: string
  c_OwnerID :: string
  c_ExpiresAt :: "time option"
  c_IdempotencyKey :: string

definition maxCodeGenerationAttempts :: nat where
  "maxCodeGenerationAttempts = 5"

text \<open>\<open>domain.Link{}\<close>, what the variable \<open>link\<close> holds before the loop.\<close>

definition zero_link :: link where
  "zero_link =
     \<lparr>code = [], destination = zero_destination, ownerID = [], status = Unknown, createdAt = 0,
      updatedAt = 0, expiresAt = None, version = 0\<rparr>"

text \<open>
  The loop.  \<open>at\<close> is the variable \<open>createdAt\<close>, read from the clock in the first attempt only, and
  \<open>l\<close> the variable \<open>link\<close>; a copy of the expiry is allocated in each attempt that has one.
\<close>

function create_loop ::
    "('c, 's) link_repository \<Rightarrow> ('c, 's) code_generator \<Rightarrow> 's clock \<Rightarrow> 's allocator \<Rightarrow> 'c
     \<Rightarrow> CreateGeneratedLinkRequest \<Rightarrow> destination_url \<Rightarrow> nat \<Rightarrow> time \<Rightarrow> link \<Rightarrow> 's
     \<Rightarrow> (err + link) \<times> 's" where
  "create_loop repo gen Now alloc ctx request d attempt at l s =
     (if attempt < maxCodeGenerationAttempts then
        (case gen ctx s of
           (Inl e, s1) \<Rightarrow> (Inl e, s1)
         | (Inr c, s1) \<Rightarrow>
             (case (if attempt = 0 then Now s1 else (at, s1)) of (at', s2) \<Rightarrow>
              case (case c_ExpiresAt request of None \<Rightarrow> (0, s2) | Some _ \<Rightarrow> alloc s2) of (a, s3) \<Rightarrow>
                (case NewLink a c d (c_OwnerID request) at' (c_ExpiresAt request) of
                   Inl e \<Rightarrow> (Inl e, s3)
                 | Inr l' \<Rightarrow>
                     (case Insert repo ctx l' s3 of
                        (None, s4) \<Rightarrow> (Inr l', s4)
                      | (Some e, s4) \<Rightarrow>
                          if \<not> errors_is e (Ports ErrLinkAlreadyExists) then (Inl e, s4)
                          else if attempt = maxCodeGenerationAttempts - 1
                          then (Inl (Join [App ErrCodeGenerationExhausted, Ports ErrLinkAlreadyExists]), s4)
                          else create_loop repo gen Now alloc ctx request d (Suc attempt) at' l' s4))))
      else (Inr l, s))"
  by pat_completeness auto
termination
  by (relation "measure (\<lambda>(_, _, _, _, _, _, _, attempt, _, _, _).
      maxCodeGenerationAttempts - attempt)") auto

declare create_loop.simps [simp del]

definition CreateGeneratedLink ::
    "(string \<Rightarrow> string) \<Rightarrow> ('c, 's) link_repository \<Rightarrow> ('c, 's) code_generator \<Rightarrow> 's clock
     \<Rightarrow> 's allocator \<Rightarrow> ('c, 's) idempotency_store option \<Rightarrow> 'c \<Rightarrow> CreateGeneratedLinkRequest
     \<Rightarrow> 's \<Rightarrow> (err + link) \<times> 's" where
  "CreateGeneratedLink ul repo gen Now alloc idempotencyStore ctx request s =
     (let keyed = (c_IdempotencyKey request \<noteq> [] \<and> idempotencyStore \<noteq> None)
      in case (if keyed then
                 (case IdemGet (the idempotencyStore) ctx (c_OwnerID request)
                         (c_IdempotencyKey request) s of
                    (Inr l, s1) \<Rightarrow> (Some (Inr l), s1)
                  | (Inl e, s1) \<Rightarrow>
                      if \<not> errors_is e (Ports ErrIdempotencyKeyNotFound) then (Some (Inl e), s1)
                      else (None, s1))
               else (None, s)) of
           (Some returned, s1) \<Rightarrow> (returned, s1)
         | (None, s1) \<Rightarrow>
               (case NewDestinationURL ul (c_Destination request) of
                  Inl e \<Rightarrow> (Inl e, s1)
                | Inr d \<Rightarrow>
                    (case create_loop repo gen Now alloc ctx request d 0 0 zero_link s1 of
                       (Inl e, s2) \<Rightarrow> (Inl e, s2)
                     | (Inr l, s2) \<Rightarrow>
                         if keyed
                         then
                           (case IdemSave (the idempotencyStore) ctx (c_OwnerID request)
                                   (c_IdempotencyKey request) l s2 of
                              (Some e, s3) \<Rightarrow> (Inl e, s3)
                            | (None, s3) \<Rightarrow> (Inr l, s3))
                         else (Inr l, s2))))"


text \<open>A property of the world that every port keeps, the whole use case keeps.\<close>

lemma create_loop_keeps:
  assumes "\<And>s g s'. I s \<Longrightarrow> gen ctx s = (g, s') \<Longrightarrow> I s'" "\<And>s t s'. I s \<Longrightarrow> Now s = (t, s') \<Longrightarrow> I s'"
    "\<And>s a s'. I s \<Longrightarrow> alloc s = (a, s') \<Longrightarrow> I s'"
    "\<And>l s q s'. I s \<Longrightarrow> link_ok l \<Longrightarrow> Insert repo ctx l s = (q, s') \<Longrightarrow> I s'"
  shows "create_loop repo gen Now alloc ctx request d attempt at l s = (r, s') \<Longrightarrow> I s \<Longrightarrow> I s'"
proof (induction "maxCodeGenerationAttempts - attempt" arbitrary: attempt at l s rule: less_induct)
  case less
  obtain g s1 where g: "gen ctx s = (g, s1)" by fastforce
  obtain at' s2 where n: "(if attempt = 0 then Now s1 else (at, s1)) = (at', s2)" by fastforce
  obtain a s3 where a: "(case c_ExpiresAt request of None \<Rightarrow> (0, s2) | Some _ \<Rightarrow> alloc s2) = (a, s3)"
    by fastforce
  have s1: "I s1" using assms(1) g less.prems(2) by blast
  then have "I s2" using assms(2) n by (auto split: if_splits)
  then have s3: "I s3" using assms(3) a by (auto split: option.splits)
  note unfold = less.prems create_loop.simps [of repo gen Now alloc ctx request d attempt at l s] g n a
  show ?case
  proof (cases "attempt < maxCodeGenerationAttempts \<and> (\<exists>c. g = Inr c)")
    case False
    with unfold s1 show ?thesis by (cases g) (auto split: if_splits)
  next
    case True
    then obtain c where c: "g = Inr c" and more: "attempt < maxCodeGenerationAttempts" by blast
    show ?thesis
    proof (cases "NewLink a c d (c_OwnerID request) at' (c_ExpiresAt request)")
      case (Inl e)
      with unfold c more s3 show ?thesis by simp
    next
      case (Inr l')
      obtain q s4 where i: "Insert repo ctx l' s3 = (q, s4)" by fastforce
      have s4: "I s4" using assms(4) [OF s3 link_ok_NewLink [OF Inr] i] .
      show ?thesis
      proof (cases "\<exists>e. q = Some e \<and> errors_is e (Ports ErrLinkAlreadyExists)
          \<and> attempt \<noteq> maxCodeGenerationAttempts - 1")
        case again: True
        with unfold c more Inr i
        have "create_loop repo gen Now alloc ctx request d (Suc attempt) at' l' s4 = (r, s')" by auto
        with less.hyps [OF _ this s4] more show ?thesis by simp
      next
        case False
        with unfold c more Inr i s4 show ?thesis by (cases q) (auto split: if_splits)
      qed
    qed
  qed
qed

lemma create_keeps:
  assumes "CreateGeneratedLink ul repo gen Now alloc store ctx request s = (r, s')" "I s"
    "\<And>s g s'. I s \<Longrightarrow> gen ctx s = (g, s') \<Longrightarrow> I s'" "\<And>s t s'. I s \<Longrightarrow> Now s = (t, s') \<Longrightarrow> I s'"
    "\<And>s a s'. I s \<Longrightarrow> alloc s = (a, s') \<Longrightarrow> I s'"
    "\<And>l s q s'. I s \<Longrightarrow> link_ok l \<Longrightarrow> Insert repo ctx l s = (q, s') \<Longrightarrow> I s'"
    "\<And>x u k s g s'. store = Some x \<Longrightarrow> I s \<Longrightarrow> IdemGet x ctx u k s = (g, s') \<Longrightarrow> I s'"
    "\<And>x u k l s q s'. store = Some x \<Longrightarrow> I s \<Longrightarrow> IdemSave x ctx u k l s = (q, s') \<Longrightarrow> I s'"
  shows "I s'"
proof -
  have loop: "create_loop repo gen Now alloc ctx request d 0 0 zero_link s1 = (q, s2) \<Longrightarrow> I s1 \<Longrightarrow> I s2"
    for d s1 q s2
    by (rule create_loop_keeps [where I = I and gen = gen and ctx = ctx and Now = Now
          and alloc = alloc and repo = repo];
        (assumption | erule (1) assms(3-5) | erule (2) assms(6))?)
  show ?thesis
    using assms(1,2)
    by (auto simp: CreateGeneratedLink_def Let_def
        split: prod.splits option.splits sum.splits if_splits intro: assms(7,8) loop)
      (meson assms(7,8) loop)+
qed

section \<open>Correctness over the contracts\<close>

text \<open>
  The repository and the idempotency store do not disturb each other, nor do the generator, the
  clock and the allocator disturb either.  A link with a \<open>good\<close> destination and a reading of the
  clock is fit for the repository.
\<close>

locale create_links = managed_links repo content keep inv ambiguous fit Now alloc
  + idem: idempotency_contract store saved same recorded inv keep ambiguous
  for repo :: "('c, 's) link_repository"
    and content :: "'s \<Rightarrow> string \<Rightarrow> link option"
    and keep :: "link \<Rightarrow> link"
    and inv :: "'s \<Rightarrow> bool"
    and ambiguous :: "err \<Rightarrow> bool"
    and fit :: "link \<Rightarrow> bool"
    and Now :: "'s clock"
    and alloc :: "'s allocator"
    and store :: "('c, 's) idempotency_store"
    and saved :: "'s \<Rightarrow> string \<Rightarrow> string \<Rightarrow> link option"
    and same :: "link \<Rightarrow> link \<Rightarrow> bool"
    and recorded :: "'s \<Rightarrow> link \<Rightarrow> link" +
  fixes gen :: "('c, 's) code_generator" and good :: "destination_url \<Rightarrow> bool"
  assumes gen_frame:
      "gen c s = (g, s') \<Longrightarrow> content s' = content s \<and> saved s' = saved s \<and> (inv s \<longrightarrow> inv s')"
    and Now_saved: "Now s = (t, s') \<Longrightarrow> saved s' = saved s"
    and alloc_saved: "alloc s = (a, s') \<Longrightarrow> saved s' = saved s"
    and Insert_saved: "inv s \<Longrightarrow> fit l \<Longrightarrow> Insert repo c l s = (q, s') \<Longrightarrow> saved s' = saved s"
    and Get_content: "IdemGet store c u k s = (f, s') \<Longrightarrow> content s' = content s \<and> (inv s \<longrightarrow> inv s')"
    and Save_content:
      "IdemSave store c u k l s = (q, s') \<Longrightarrow> content s' = content s \<and> (inv s \<longrightarrow> inv s')"
    and fit_new:
      "inv s \<Longrightarrow> Now s = (t, s') \<Longrightarrow> link_ok l \<Longrightarrow> createdAt l = t \<Longrightarrow> good (destination l) \<Longrightarrow> fit l"
begin

text \<open>A link as the loop builds it.\<close>

definition fresh_link :: "CreateGeneratedLinkRequest \<Rightarrow> destination_url \<Rightarrow> link \<Rightarrow> bool" where
  "fresh_link request d l \<longleftrightarrow>
     link_ok l \<and> destination l = d \<and> ownerID l = TrimSpace (c_OwnerID request) \<and> status l = Active
     \<and> version l = 1 \<and> ExpiresAt l = c_ExpiresAt request \<and> updatedAt l = createdAt l"

lemma NewLink_fresh:
  "NewLink a c d (c_OwnerID request) at (c_ExpiresAt request) = Inr l \<Longrightarrow>
     fresh_link request d l \<and> createdAt l = at"
  using link_ok_NewLink [of a c d "c_OwnerID request" at "c_ExpiresAt request" l]
  by (auto simp: fresh_link_def NewLink_def ExpiresAt_def Let_def split: option.splits if_splits)

definition good_raw :: "(string \<Rightarrow> string) \<Rightarrow> string \<Rightarrow> bool" where
  "good_raw ul raw \<longleftrightarrow> (\<forall>d. NewDestinationURL ul raw = Inr d \<longrightarrow> good d)"

text \<open>The readings of the clock the loop may use.\<close>

definition reading :: "time \<Rightarrow> bool" where
  "reading t \<longleftrightarrow> (\<exists>s s'. inv s \<and> Now s = (t, s'))"

lemma reading_fit: "reading (createdAt l) \<Longrightarrow> fresh_link request d l \<Longrightarrow> good d \<Longrightarrow> fit l"
  using fit_new by (auto simp: reading_def fresh_link_def)

text \<open>
  What the loop leaves behind: either nothing has changed, or exactly one link has been added,
  under a code that was free; success means the latter, with the link returned.
\<close>

definition added :: "'s \<Rightarrow> link \<Rightarrow> 's \<Rightarrow> bool" where
  "added s l s' \<longleftrightarrow> content s (code l) = None \<and> content s' = (content s)(code l \<mapsto> keep l)"

definition loop_post ::
    "CreateGeneratedLinkRequest \<Rightarrow> destination_url \<Rightarrow> 's \<Rightarrow> (err + link) \<times> 's \<Rightarrow> bool" where
  "loop_post request d s res \<longleftrightarrow>
     (case res of (r, s') \<Rightarrow>
        inv s' \<and> saved s' = saved s \<and>
        (case r of
           Inr l \<Rightarrow> fresh_link request d l \<and> added s l s'
         | Inl e \<Rightarrow> content s' = content s
             \<or> ambiguous e \<and> (\<exists>l. fresh_link request d l \<and> added s l s')))"

lemma loop_post_frame:
  assumes "content s1 = content s" "saved s1 = saved s" "loop_post request d s1 res"
  shows "loop_post request d s res"
  using assms by (cases res; cases "fst res") (auto simp: loop_post_def added_def)

lemma create_loop_post:
  assumes "inv s" "attempt < maxCodeGenerationAttempts" "attempt = 0 \<or> reading at" "good d"
  shows "loop_post request d s (create_loop repo gen Now alloc ctx request d attempt at l s)"
  using assms
proof (induction "maxCodeGenerationAttempts - attempt" arbitrary: attempt at l s rule: less_induct)
  case less
  obtain g s1 where g: "gen ctx s = (g, s1)" by fastforce
  obtain at' s2 where n: "(if attempt = 0 then Now s1 else (at, s1)) = (at', s2)" by fastforce
  obtain a s3 where a: "(case c_ExpiresAt request of None \<Rightarrow> (0, s2) | Some _ \<Rightarrow> alloc s2) = (a, s3)"
    by fastforce
  have s1: "content s1 = content s" "saved s1 = saved s" "inv s1"
    using gen_frame [OF g] less.prems(1) by auto
  have s2: "content s2 = content s" "saved s2 = saved s" "inv s2"
    using n Now_frame Now_saved s1 by (auto split: if_splits)
  have rd: "reading at'" using n less.prems(3) s1(3) by (auto simp: reading_def split: if_splits)
  have s3: "content s3 = content s" "saved s3 = saved s" "inv s3"
    using a alloc_frame alloc_saved s2 by (auto split: option.splits)
  note unfold = create_loop.simps [of repo gen Now alloc ctx request d attempt at l s] g n a
  show ?case
  proof (cases g)
    case (Inl e)
    with unfold less.prems(2) s1 show ?thesis by (simp add: loop_post_def)
  next
    case g: (Inr c)
    show ?thesis
    proof (cases "NewLink a c d (c_OwnerID request) at' (c_ExpiresAt request)")
      case (Inl e)
      with unfold g less.prems(2) s3 show ?thesis by (simp add: loop_post_def)
    next
      case l: (Inr l')
      obtain r s4 where i: "Insert repo ctx l' s3 = (r, s4)" by fastforce
      have fresh: "fresh_link request d l'" and "createdAt l' = at'" using NewLink_fresh [OF l] by auto
      then have ok: "fit l'" using reading_fit rd less.prems(4) by blast
      have s4: "saved s4 = saved s" using Insert_saved [OF s3(3) ok i] s3 by simp
      show ?thesis
      proof (cases r)
        case None
        with unfold g l i less.prems(2) fresh s4 s3 Insert_ok [OF s3(3) ok] show ?thesis
          by (simp add: loop_post_def added_def)
      next
        case (Some e)
        note ins = Insert_err [OF s3(3) ok i [unfolded Some]]
        show ?thesis
        proof (cases "errors_is e (Ports ErrLinkAlreadyExists)")
          case False
          with unfold g l i Some less.prems(2) fresh s4 s3 ins show ?thesis
            by (auto simp: loop_post_def added_def)
        next
          case True
          then have same: "content s4 = content s" "inv s4" using ins s3 sentinel_sharp by auto
          show ?thesis
          proof (cases "attempt = maxCodeGenerationAttempts - 1")
            case last: True
            with unfold g l i Some True less.prems(2) same s4 show ?thesis
              by (simp add: loop_post_def)
          next
            case more: False
            then have "loop_post request d s4
                (create_loop repo gen Now alloc ctx request d (Suc attempt) at' l' s4)"
              using less.prems(2,4) same rd by (intro less.hyps) auto
            with unfold g l i Some True more less.prems(2) show ?thesis
              by (auto intro: loop_post_frame [OF same(1) s4])
          qed
        qed
      qed
    qed
  qed
qed

lemma added_monotone: "added s l s' \<Longrightarrow> content s k = Some x \<Longrightarrow> content s' k = Some x"
  by (auto simp: added_def)

text \<open>The whole use case, with the key \<open>k\<close> of owner \<open>u\<close>.\<close>

abbreviation (input) create where
  "create ul ctx q s \<equiv> CreateGeneratedLink ul repo gen Now alloc (Some store) ctx q s"

lemma createE:
  assumes "create ul ctx q s = (r, s')" "inv s" "good_raw ul (c_Destination q)"
  obtains (replayed) l where "c_IdempotencyKey q \<noteq> []" "r = Inr l"
      "saved s (c_OwnerID q) (c_IdempotencyKey q) = Some (keep l)" "inv s'" "content s' = content s"
      "saved s' = saved s"
  | (refused) e where "r = Inl e" "inv s'" "content s' = content s" "saved s' = saved s"
  | (looped) d s1 r2 s2 where "NewDestinationURL ul (c_Destination q) = Inr d"
      "create_loop repo gen Now alloc ctx q d 0 0 zero_link s1 = (r2, s2)"
      "loop_post q d s (r2, s2)" "inv s2"
      "c_IdempotencyKey q \<noteq> [] \<Longrightarrow> saved s (c_OwnerID q) (c_IdempotencyKey q) = None"
      "(r, s') = (case r2 of Inl e \<Rightarrow> (Inl e, s2) | Inr l \<Rightarrow>
         if c_IdempotencyKey q = [] then (Inr l, s2)
         else (case IdemSave store ctx (c_OwnerID q) (c_IdempotencyKey q) l s2 of
                 (Some e, s3) \<Rightarrow> (Inl e, s3) | (None, s3) \<Rightarrow> (Inr l, s3)))"
proof -
  let ?keyed = "c_IdempotencyKey q \<noteq> []"
  obtain g s0 where g: "IdemGet store ctx (c_OwnerID q) (c_IdempotencyKey q) s = (g, s0)"
    by fastforce
  have frame: "content s0 = content s" "saved s0 = saved s" "inv s0"
    using idem.Get_frame [OF assms(2) g] Get_content [OF g] assms(2) by auto
  define s1 where "s1 = (if ?keyed then s0 else s)"
  have s1: "content s1 = content s" "saved s1 = saved s" "inv s1"
    using frame assms(2) by (auto simp: s1_def)
  show thesis
  proof (cases "?keyed \<and> (\<forall>e. g = Inl e \<longrightarrow> \<not> errors_is e (Ports ErrIdempotencyKeyNotFound))")
    case True
    with assms(1) g have r: "s' = s0" "r = g" by (cases g; simp add: CreateGeneratedLink_def)+
    show thesis
    proof (cases g)
      case (Inl e)
      with r frame show thesis by (intro refused) auto
    next
      case (Inr l)
      with r frame True idem.Get_ok [where c = ctx and s = s and l = l and s' = s0] g assms(2) show thesis by (intro replayed) auto
    qed
  next
    case False
    have missing: "?keyed \<Longrightarrow> saved s (c_OwnerID q) (c_IdempotencyKey q) = None"
      using False g idem.Get_missing [OF assms(2)] by blast
    have early: "(if ?keyed \<and> Some store \<noteq> None
        then (case IdemGet (the (Some store)) ctx (c_OwnerID q) (c_IdempotencyKey q) s of
                (Inr l, s1) \<Rightarrow> (Some (Inr l), s1)
              | (Inl e, s1) \<Rightarrow>
                  if \<not> errors_is e (Ports ErrIdempotencyKeyNotFound) then (Some (Inl e), s1)
                  else (None, s1))
        else (None, s)) = (None, s1)"
      using False g by (auto simp: s1_def)
    show thesis
    proof (cases "NewDestinationURL ul (c_Destination q)")
      case (Inl e)
      with assms(1) early s1 show thesis
        by (intro refused [of e]) (simp_all add: CreateGeneratedLink_def Let_def)
    next
      case (Inr d)
      obtain r2 s2 where l: "create_loop repo gen Now alloc ctx q d 0 0 zero_link s1 = (r2, s2)"
        by fastforce
      have "loop_post q d s1 (r2, s2)"
        using create_loop_post [OF s1(3), where attempt = 0 and ctx = ctx and request = q and d = d
          and at = 0 and l = zero_link] l assms(3) Inr
        by (simp add: maxCodeGenerationAttempts_def good_raw_def)
      then have post: "loop_post q d s (r2, s2)" by (rule loop_post_frame [OF s1(1,2)])
      show thesis
        by (rule looped [OF Inr l post _ missing])
          (use post in \<open>simp add: loop_post_def\<close>, assumption, use assms(1) early Inr l in \<open>auto simp: CreateGeneratedLink_def Let_def
            split: sum.splits\<close>)
    qed
  qed
qed

text \<open>A link that is reported as created.\<close>

lemma create_ok:
  assumes "create ul ctx q s = (Inr l, s')" "inv s" "good_raw ul (c_Destination q)"
  shows "inv s' \<and>
    (c_IdempotencyKey q \<noteq> [] \<and> saved s (c_OwnerID q) (c_IdempotencyKey q) = Some (keep l)
       \<and> content s' = content s \<and> saved s' = saved s
     \<or> (\<exists>d. NewDestinationURL ul (c_Destination q) = Inr d \<and> fresh_link q d l) \<and> added s l s' \<and>
       (if c_IdempotencyKey q = [] then saved s' = saved s
        else saved s (c_OwnerID q) (c_IdempotencyKey q) = None \<and>
          (\<exists>s2. inv s2 \<and> content s2 = content s' \<and>
             saved s' = (saved s)(c_OwnerID q := (saved s (c_OwnerID q))(c_IdempotencyKey q \<mapsto> recorded s2 l)))))"
  using assms
proof (cases rule: createE)
  case (looped d s1 r2 s2)
  show ?thesis
  proof (cases "c_IdempotencyKey q = []")
    case True
    with looped show ?thesis by (cases r2) (auto simp: loop_post_def)
  next
    case False
    with looped have r2: "r2 = Inr l"
      and sv: "IdemSave store ctx (c_OwnerID q) (c_IdempotencyKey q) l s2 = (None, s')"
      by (cases r2; auto split: prod.splits option.splits)+
    with looped have post: "fresh_link q d l" "added s l s2" "saved s2 = saved s" by (auto simp: loop_post_def)
    have missing: "saved s2 (c_OwnerID q) (c_IdempotencyKey q) = None" using looped(5) False post(3) by simp
    have "saved s' = (saved s)(c_OwnerID q := (saved s (c_OwnerID q))(c_IdempotencyKey q \<mapsto> recorded s2 l))"
      using idem.Save_ok [OF looped(4) sv] missing post(3) by auto
    moreover have "content s' = content s2" "inv s'" using Save_content [OF sv] looped(4) by auto
    moreover have "added s l s'" using post(2) calculation(2) by (simp add: added_def)
    ultimately show ?thesis using False looped(1,4) missing post by auto
  qed
qed auto

text \<open>After an error at most one link has been added, and a key has been saved only if the error leaves it
  open.\<close>

lemma create_err:
  assumes "create ul ctx q s = (Inl e, s')" "inv s" "good_raw ul (c_Destination q)"
  shows "inv s' \<and>
    (content s' = content s \<and> saved s' = saved s
     \<or> (\<exists>d l. NewDestinationURL ul (c_Destination q) = Inr d \<and> fresh_link q d l \<and> added s l s' \<and>
         (saved s' = saved s \<and> (ambiguous e \<or> c_IdempotencyKey q \<noteq> [])
          \<or> ambiguous e \<and> c_IdempotencyKey q \<noteq> [] \<and> saved s (c_OwnerID q) (c_IdempotencyKey q) = None \<and>
            (\<exists>s2. inv s2 \<and> content s2 = content s' \<and>
               saved s' = (saved s)(c_OwnerID q := (saved s (c_OwnerID q))(c_IdempotencyKey q \<mapsto> recorded s2 l))))))"
  using assms
proof (cases rule: createE)
  case (looped d s1 r2 s2)
  show ?thesis
  proof (cases r2)
    case (Inl e')
    with looped show ?thesis by (auto simp: loop_post_def)
  next
    case (Inr l)
    with looped have key: "c_IdempotencyKey q \<noteq> []" by (auto split: if_splits)
    with looped Inr have sv: "IdemSave store ctx (c_OwnerID q) (c_IdempotencyKey q) l s2 = (Some e, s')"
      by (auto split: prod.splits option.splits)
    from looped Inr have post: "fresh_link q d l" "added s l s2" "saved s2 = saved s" by (auto simp: loop_post_def)
    have missing: "saved s (c_OwnerID q) (c_IdempotencyKey q) = None" using looped(5) key by simp
    have s': "content s' = content s2" "inv s'" using Save_content [OF sv] looped(4) by auto
    then have "added s l s'" using post(2) by (simp add: added_def)
    with idem.Save_err [OF looped(4) sv] s' key missing post looped(1,4) show ?thesis by auto
  qed
qed auto

text \<open>No call changes or removes a link that is there.\<close>

lemma create_monotone:
  assumes "create ul ctx q s = (r, s')" "inv s" "content s k = Some x"
    "good_raw ul (c_Destination q)"
  shows "content s' k = Some x"
proof (cases r)
  case (Inl e)
  with create_err [of ul ctx q s e s'] assms added_monotone show ?thesis by auto
next
  case (Inr l)
  with create_ok [of ul ctx q s l s'] assms added_monotone show ?thesis by auto
qed

text \<open>A key of an owner creates one link: a second request with it changes nothing.\<close>

lemma create_twice:
  assumes "create ul ctx q s = (Inr l, s1)" "inv s" "c_IdempotencyKey q \<noteq> []"
    "c_OwnerID q' = c_OwnerID q" "c_IdempotencyKey q' = c_IdempotencyKey q"
    "create ul ctx' q' s1 = (Inr l', s2)"
    "good_raw ul (c_Destination q)"
    "good_raw ul (c_Destination q')"
  shows "content s2 = content s1 \<and> saved s1 (c_OwnerID q) (c_IdempotencyKey q) = Some (keep l')
    \<and> (keep l' = keep l \<or> (\<exists>s. inv s \<and> content s = content s1 \<and> keep l' = recorded s l))"
  using create_ok [OF assms(1,2,7)] create_ok [OF assms(6) _ assms(8)] assms(3-5) by auto

end

end
