(* ===== verification/Resolver.thy ===== *)
theory Resolver
  imports ManageLink
begin

text \<open>
  The redirect path of \<^verbatim>\<open>internal/link/application\<close>: \<^verbatim>\<open>repository_resolver.go\<close>,
  \<^verbatim>\<open>cache_aside_resolver.go\<close>, \<^verbatim>\<open>redirect_cache_refresher.go\<close>,
  \<^verbatim>\<open>cache_refreshing_repository.go\<close>, \<^verbatim>\<open>redirect_link.go\<close>.
\<close>

section \<open>Resolving from the repository\<close>

definition RepositoryResolver_Resolve :: "('c, 's) link_repository \<Rightarrow> ('c, 's) link_resolver" where
  "RepositoryResolver_Resolve repo ctx c s =
     (case FindByCode repo ctx c s of
        (Inl e, s1) \<Rightarrow> (Inl e, s1)
      | (Inr l, s1) \<Rightarrow> (RedirectMappingFromLink l, s1))"

section \<open>How long to cache\<close>

record RedirectCacheConfig =
  OperationTimeout :: duration
  ActiveTTL :: duration
  InactiveTTL :: duration

definition validateRedirectCacheConfig :: "RedirectCacheConfig \<Rightarrow> err option" where
  "validateRedirectCacheConfig config =
     (if OperationTimeout config \<le> 0 then Some (Plain ''cache operation timeout must be positive'')
      else if ActiveTTL config \<le> 0 then Some (Plain ''active cache TTL must be positive'')
      else if InactiveTTL config \<le> 0 then Some (Plain ''inactive cache TTL must be positive'')
      else None)"

definition redirectCacheTTL ::
    "redirect_mapping \<Rightarrow> time \<Rightarrow> duration \<Rightarrow> duration \<Rightarrow> duration \<times> bool" where
  "redirectCacheTTL m now activeTTL inactiveTTL =
     (let ttl = (if m_status m = Active then activeTTL else inactiveTTL)
      in case m_expiresAt m of
           None \<Rightarrow> (ttl, True)
         | Some t \<Rightarrow>
             let remaining = Sub t now
             in if remaining \<le> 0 then (0, False)
                else if remaining < ttl then (remaining, True)
                else (ttl, True))"

section \<open>The cache-aside resolver\<close>

text \<open>The metrics a resolver reports to; \<open>nil\<close> is \<open>None\<close> where it is stored.\<close>

record 's RedirectCacheMetrics =
  RecordCacheGet :: "string \<Rightarrow> duration \<Rightarrow> 's \<Rightarrow> 's"
  RecordSourceLookup :: "string \<Rightarrow> duration \<Rightarrow> 's \<Rightarrow> 's"
  RecordCachePut :: "string \<Rightarrow> duration \<Rightarrow> 's \<Rightarrow> 's"

record ('c, 's) CacheAsideResolver =
  r_cache :: "('c, 's) redirect_cache"
  r_source :: "('c, 's) link_resolver"
  r_clock :: "'s clock"
  r_operationTimeout :: duration
  r_activeTTL :: duration
  r_inactiveTTL :: duration
  r_metrics :: "'s RedirectCacheMetrics option"

definition WithRedirectCacheMetrics ::
    "'s RedirectCacheMetrics \<Rightarrow> ('c, 's) CacheAsideResolver \<Rightarrow> ('c, 's) CacheAsideResolver" where
  "WithRedirectCacheMetrics metrics r = r\<lparr>r_metrics := Some metrics\<rparr>"

definition NewCacheAsideResolver ::
    "('c, 's) redirect_cache \<Rightarrow> ('c, 's) link_resolver \<Rightarrow> 's clock \<Rightarrow> RedirectCacheConfig
     \<Rightarrow> (('c, 's) CacheAsideResolver \<Rightarrow> ('c, 's) CacheAsideResolver) list
     \<Rightarrow> err + ('c, 's) CacheAsideResolver" where
  "NewCacheAsideResolver cache source clk config options =
     (case validateRedirectCacheConfig config of
        Some e \<Rightarrow> Inl e
      | None \<Rightarrow>
          Inr (fold (\<lambda>option r. option r) options
            \<lparr>r_cache = cache, r_source = source, r_clock = clk,
             r_operationTimeout = OperationTimeout config, r_activeTTL = ActiveTTL config,
             r_inactiveTTL = InactiveTTL config, r_metrics = None\<rparr>))"

definition recordCacheGet ::
    "('c, 's) CacheAsideResolver \<Rightarrow> string \<Rightarrow> duration \<Rightarrow> 's \<Rightarrow> 's" where
  "recordCacheGet r result d s =
     (case r_metrics r of None \<Rightarrow> s | Some m \<Rightarrow> RecordCacheGet m result d s)"

definition recordSourceLookup ::
    "('c, 's) CacheAsideResolver \<Rightarrow> string \<Rightarrow> duration \<Rightarrow> 's \<Rightarrow> 's" where
  "recordSourceLookup r result d s =
     (case r_metrics r of None \<Rightarrow> s | Some m \<Rightarrow> RecordSourceLookup m result d s)"

definition recordCachePut ::
    "('c, 's) CacheAsideResolver \<Rightarrow> string \<Rightarrow> duration \<Rightarrow> 's \<Rightarrow> 's" where
  "recordCachePut r result d s =
     (case r_metrics r of None \<Rightarrow> s | Some m \<Rightarrow> RecordCachePut m result d s)"

text \<open>
  \<open>timeout\<close> is \<open>context.WithTimeout\<close> and \<open>TimeNow\<close> the \<open>time.Now\<close> that latencies are measured
  with, which is not the clock of the resolver.
\<close>

definition CacheAside_Resolve ::
    "('c \<Rightarrow> duration \<Rightarrow> 'c) \<Rightarrow> 's clock \<Rightarrow> ('c, 's) CacheAsideResolver \<Rightarrow> ('c, 's) link_resolver" where
  "CacheAside_Resolve timeout TimeNow r ctx c s =
     (case TimeNow s of (cacheReadStartedAt, s1) \<Rightarrow>
        (case CacheGet (r_cache r) (timeout ctx (r_operationTimeout r)) c s1 of
           (Inr m, s2) \<Rightarrow>
             (case TimeNow s2 of (t, s3) \<Rightarrow>
                (Inr m, recordCacheGet r ''hit'' (Sub t cacheReadStartedAt) s3))
         | (Inl e, s2) \<Rightarrow>
             let cacheGetResult =
                   (if errors_is e (Ports ErrRedirectCacheMiss) then ''miss'' else ''error'')
             in case TimeNow s2 of (t, s3) \<Rightarrow>
                case TimeNow (recordCacheGet r cacheGetResult (Sub t cacheReadStartedAt) s3) of
                  (sourceStartedAt, s4) \<Rightarrow>
                (case r_source r ctx c s4 of
                   (Inl e, s5) \<Rightarrow>
                     (case TimeNow s5 of (t, s6) \<Rightarrow>
                        (Inl e, recordSourceLookup r ''error'' (Sub t sourceStartedAt) s6))
                 | (Inr m, s5) \<Rightarrow>
                     (case TimeNow s5 of (t, s6) \<Rightarrow>
                      case r_clock r (recordSourceLookup r ''success'' (Sub t sourceStartedAt) s6) of
                        (now, s7) \<Rightarrow>
                        (case redirectCacheTTL m now (r_activeTTL r) (r_inactiveTTL r) of
                           (ttl, shouldCache) \<Rightarrow>
                             if \<not> shouldCache then (Inr m, recordCachePut r ''skipped'' 0 s7)
                             else
                               (case TimeNow s7 of (cacheWriteStartedAt, s8) \<Rightarrow>
                                case PutIfNewer (r_cache r) (timeout ctx (r_operationTimeout r)) m ttl s8 of
                                  (q, s9) \<Rightarrow>
                                case TimeNow s9 of (t, s10) \<Rightarrow>
                                  (Inr m,
                                   recordCachePut r (case q of Some _ \<Rightarrow> ''error'' | None \<Rightarrow> ''success'')
                                     (Sub t cacheWriteStartedAt) s10)))))))"

section \<open>Refreshing the cache after an update\<close>

record ('c, 's) RedirectCacheRefresher =
  f_cache :: "('c, 's) redirect_cache"
  f_clock :: "'s clock"
  f_operationTimeout :: duration
  f_activeTTL :: duration
  f_inactiveTTL :: duration

definition NewRedirectCacheRefresher ::
    "('c, 's) redirect_cache \<Rightarrow> 's clock \<Rightarrow> RedirectCacheConfig
     \<Rightarrow> err + ('c, 's) RedirectCacheRefresher" where
  "NewRedirectCacheRefresher cache clk config =
     (case validateRedirectCacheConfig config of
        Some e \<Rightarrow> Inl e
      | None \<Rightarrow>
          Inr \<lparr>f_cache = cache, f_clock = clk, f_operationTimeout = OperationTimeout config,
               f_activeTTL = ActiveTTL config, f_inactiveTTL = InactiveTTL config\<rparr>)"

definition Refresh ::
    "('c \<Rightarrow> duration \<Rightarrow> 'c) \<Rightarrow> ('c, 's) RedirectCacheRefresher \<Rightarrow> 'c \<Rightarrow> link \<Rightarrow> 's \<Rightarrow> err option \<times> 's"
  where
  "Refresh timeout r ctx l s =
     (case RedirectMappingFromLink l of
        Inl e \<Rightarrow> (Some e, s)
      | Inr m \<Rightarrow>
          (case f_clock r s of (now, s1) \<Rightarrow>
             (case redirectCacheTTL m now (f_activeTTL r) (f_inactiveTTL r) of
                (ttl, shouldCache) \<Rightarrow>
                  if \<not> shouldCache then (None, s1)
                  else PutIfNewer (f_cache r) (timeout ctx (f_operationTimeout r)) m ttl s1)))"

text \<open>The decorator, for any refresher.\<close>

definition refreshing_Update ::
    "('c, 's) link_repository \<Rightarrow> ('c \<Rightarrow> link \<Rightarrow> 's \<Rightarrow> err option \<times> 's)
     \<Rightarrow> 'c \<Rightarrow> link \<Rightarrow> u64 \<Rightarrow> 's \<Rightarrow> err option \<times> 's" where
  "refreshing_Update source refresh ctx l expectedVersion s =
     (case Update source ctx l expectedVersion s of
        (Some e, s1) \<Rightarrow> (Some e, s1)
      | (None, s1) \<Rightarrow> (case refresh ctx l s1 of (_, s2) \<Rightarrow> (None, s2)))"

definition CacheRefreshingRepository ::
    "('c, 's) link_repository \<Rightarrow> ('c \<Rightarrow> link \<Rightarrow> 's \<Rightarrow> err option \<times> 's) \<Rightarrow> ('c, 's) link_repository"
  where
  "CacheRefreshingRepository source refresh =
     \<lparr>Insert = Insert source, FindByCode = FindByCode source,
      Update = refreshing_Update source refresh\<rparr>"

section \<open>Redirecting\<close>

definition RedirectLink ::
    "('c, 's) link_resolver \<Rightarrow> 's clock \<Rightarrow> 'c \<Rightarrow> string \<Rightarrow> 's \<Rightarrow> (err + string) \<times> 's" where
  "RedirectLink resolve Now ctx c s =
     (case resolve ctx c s of
        (Inl e, s1) \<Rightarrow> (Inl e, s1)
      | (Inr m, s1) \<Rightarrow>
          (case Now s1 of (now, s2) \<Rightarrow>
             if \<not> m_CanRedirect m now then (Inl (App ErrLinkUnavailable), s2)
             else (Inr (dest_String (m_destination m)), s2)))"

text \<open>The uses of the ports that are nothing but a call: \<open>LinkFinder\<close> and \<open>TimeProvider\<close>.\<close>

record ('c, 's) LinkFinder =
  lf_repository :: "('c, 's) link_repository"

definition LinkFinder_Find :: "('c, 's) LinkFinder \<Rightarrow> 'c \<Rightarrow> string \<Rightarrow> 's \<Rightarrow> (err + link) \<times> 's" where
  "LinkFinder_Find f ctx c s = FindByCode (lf_repository f) ctx c s"

record 's TimeProvider =
  tp_clock :: "'s clock"

definition CurrentTime :: "'s TimeProvider \<Rightarrow> 's \<Rightarrow> time \<times> 's" where
  "CurrentTime t s = tp_clock t s"

end
