(* ===== verification/CacheCoherence.thy ===== *)
theory CacheCoherence
  imports Resolver
begin

text \<open>
  What the resolver, the refresher and the refreshing repository guarantee together, over the
  contracts of a repository and of a redirect cache: the cache never holds, and the resolver never
  returns, anything but a version of the link the repository has (or had), and a cached entry of
  the current version is the projection of the current link.
\<close>

section \<open>Time to live\<close>

lemma redirectCacheTTL_cases:
  "redirectCacheTTL m now a i = (ttl, b) \<Longrightarrow>
     (b \<longleftrightarrow> (\<forall>t. m_expiresAt m = Some t \<longrightarrow> now < t)) \<and>
     (b \<longrightarrow> ttl \<le> (if m_status m = Active then a else i) \<and>
        (\<forall>t. m_expiresAt m = Some t \<longrightarrow> now + ttl \<le> t) \<and> (0 < a \<and> 0 < i \<longrightarrow> 0 < ttl))"
  using Sub_pos_iff Sub_le
  by (auto simp: redirectCacheTTL_def Let_def not_le split: option.splits if_splits)
    (smt (verit))+

lemma redirectCacheTTL_exact:
  "redirectCacheTTL m now a i = (ttl, b) \<Longrightarrow>
     b \<longrightarrow> ttl = (case m_expiresAt m of
       None \<Rightarrow> if m_status m = Active then a else i
     | Some t \<Rightarrow> min (Sub t now) (if m_status m = Active then a else i))"
  by (auto simp: redirectCacheTTL_def Let_def min_def split: option.splits if_splits)

text \<open>C34: the TTL of a cached redirect is the one configured for the link's status, cut to the life that the
  link has left (as a duration, whose range ends after 292 years); it is positive, and the entry never
  outlives the link.  A link that has expired is not cached at all.  No jitter is added: the 10% that
  \<^verbatim>\<open>docs/architecture/redirect-cache.md\<close> asks for are not in the code.\<close>

theorem redirectCacheTTL_bounds:
  assumes "redirectCacheTTL m now activeTTL inactiveTTL = (ttl, cacheable)" "0 < activeTTL" "0 < inactiveTTL"
  shows "(cacheable \<longleftrightarrow> (\<forall>t. m_expiresAt m = Some t \<longrightarrow> now < t)) \<and>
    (cacheable \<longrightarrow>
       ttl = (case m_expiresAt m of
           None \<Rightarrow> if m_status m = Active then activeTTL else inactiveTTL
         | Some t \<Rightarrow> min (Sub t now) (if m_status m = Active then activeTTL else inactiveTTL)) \<and>
       0 < ttl \<and> ttl \<le> (if m_status m = Active then activeTTL else inactiveTTL) \<and>
       (\<forall>t. m_expiresAt m = Some t \<longrightarrow> now + ttl \<le> t))"
  using redirectCacheTTL_cases [OF assms(1)] redirectCacheTTL_exact [OF assms(1)] assms(2,3) by blast

lemma redirectCacheTTL_bounds_witness:
  "(0::int) < 3000 \<and> (3000::int) \<le> 60 * Second \<and> (2000::int) + 3000 \<le> 5000"
proof -
  have "redirectCacheTTL (mapping_of sample_link) 2000 (60 * Second) Second = (3000, True)" by code_simp
  from redirectCacheTTL_bounds [OF this] show ?thesis
    by (simp add: mapping_of_def sample_link_def ExpiresAt_def Second_def Millisecond_eq)
qed

section \<open>Coherence\<close>

locale cached_links = repository_contract repo content keep inv ambiguous fit
  + kv: redirect_cache_contract cache cached dec
  for repo :: "('c, 's) link_repository"
    and content :: "'s \<Rightarrow> string \<Rightarrow> link option"
    and keep :: "link \<Rightarrow> link"
    and inv :: "'s \<Rightarrow> bool"
    and ambiguous :: "err \<Rightarrow> bool"
    and fit :: "link \<Rightarrow> bool"
    and cache :: "('c, 's) redirect_cache"
    and cached :: "'s \<Rightarrow> string \<Rightarrow> redirect_mapping option"
    and dec :: "redirect_mapping \<Rightarrow> redirect_mapping option" +
  fixes Now :: "'s clock" and TimeNow :: "'s clock" and timeout :: "'c \<Rightarrow> duration \<Rightarrow> 'c"
    and metrics :: "'s RedirectCacheMetrics"
  assumes dec_keep: "dec (mapping_of (keep l)) = dec (mapping_of l)"
    and Insert_cached: "Insert repo c l s = (q, s') \<Longrightarrow> cached s' = cached s"
    and Find_cached: "FindByCode repo c k s = (r, s') \<Longrightarrow> cached s' = cached s"
    and Update_cached: "Update repo c l v s = (q, s') \<Longrightarrow> cached s' = cached s"
    and CacheGet_content:
      "CacheGet cache c k s = (g, s') \<Longrightarrow> content s' = content s \<and> (inv s \<longrightarrow> inv s')"
    and Put_content:
      "PutIfNewer cache c m ttl s = (q, s') \<Longrightarrow> content s' = content s \<and> (inv s \<longrightarrow> inv s')"
    and Now_cached:
      "Now s = (t, s') \<Longrightarrow> content s' = content s \<and> (inv s \<longrightarrow> inv s') \<and>
         (\<forall>k. cached s' k = cached s k \<or> cached s' k = None)"
    and TimeNow_cached:
      "TimeNow s = (t, s') \<Longrightarrow> content s' = content s \<and> (inv s \<longrightarrow> inv s') \<and>
         (\<forall>k. cached s' k = cached s k \<or> cached s' k = None)"
    and metrics_content:
      "content (RecordCacheGet metrics n d s) = content s"
      "content (RecordSourceLookup metrics n d s) = content s"
      "content (RecordCachePut metrics n d s) = content s"
    and metrics_cached:
      "cached (RecordCacheGet metrics n d s) = cached s"
      "cached (RecordSourceLookup metrics n d s) = cached s"
      "cached (RecordCachePut metrics n d s) = cached s"
    and metrics_inv:
      "inv s \<Longrightarrow> inv (RecordCacheGet metrics n d s)"
      "inv s \<Longrightarrow> inv (RecordSourceLookup metrics n d s)"
      "inv s \<Longrightarrow> inv (RecordCachePut metrics n d s)"
begin

text \<open>\<open>reflects f k m\<close>: with the links \<open>f\<close>, \<open>m\<close> is no newer than the link at \<open>k\<close>, and what a
  cache makes of that link's projection if it is as new.\<close>

definition reflects :: "(string \<Rightarrow> link option) \<Rightarrow> string \<Rightarrow> redirect_mapping \<Rightarrow> bool" where
  "reflects f k m \<longleftrightarrow>
     (\<exists>l. f k = Some l \<and> m_version m \<le> version l \<and>
        (m_version m = version l \<longrightarrow> dec (mapping_of l) = Some m))"

definition coherent :: "'s \<Rightarrow> bool" where
  "coherent s \<longleftrightarrow> inv s \<and> (\<forall>k m. cached s k = Some m \<longrightarrow> reflects (content s) k m)"

text \<open>Losing entries does no harm.\<close>

definition fades :: "'s \<Rightarrow> 's \<Rightarrow> bool" where
  "fades s s' \<longleftrightarrow> content s' = content s \<and> (inv s \<longrightarrow> inv s') \<and>
     (\<forall>k. cached s' k = cached s k \<or> cached s' k = None)"

lemma fadesD:
  assumes "fades s s'"
  shows "content s' = content s" "inv s \<Longrightarrow> inv s'" "cached s' k = Some m \<Longrightarrow> cached s k = Some m"
  using assms unfolding fades_def by (metis option.distinct(1))+

lemma fades_trans [trans]: "fades s s1 \<Longrightarrow> fades s1 s2 \<Longrightarrow> fades s s2"
  unfolding fades_def by metis

lemma fades_coherent: "fades s s' \<Longrightarrow> coherent s \<Longrightarrow> coherent s'"
  unfolding fades_def coherent_def by (metis option.distinct(1))

lemma fades_simps:
  "Now s = (t, s') \<Longrightarrow> fades s s'"
  "TimeNow s = (t, s') \<Longrightarrow> fades s s'"
  "CacheGet cache c k s = (g, s') \<Longrightarrow> fades s s'"
  using Now_cached TimeNow_cached CacheGet_content kv.CacheGet_frame
  by (auto simp: fades_def)

lemma fades_Find: "inv s \<Longrightarrow> FindByCode repo c k s = (r, s') \<Longrightarrow> fades s s'"
  using Find_frame Find_cached by (auto simp: fades_def)

lemma fades_metrics:
  "r_metrics r = None \<or> r_metrics r = Some metrics \<Longrightarrow>
     fades s (recordCacheGet r n d s) \<and> fades s (recordSourceLookup r n d s)
     \<and> fades s (recordCachePut r n d s)"
  using metrics_content metrics_cached metrics_inv
  by (auto simp: fades_def recordCacheGet_def recordSourceLookup_def recordCachePut_def)

text \<open>What the source returns for a code.\<close>

definition current :: "(string \<Rightarrow> link option) \<Rightarrow> string \<Rightarrow> redirect_mapping \<Rightarrow> bool" where
  "current f k m \<longleftrightarrow> (\<exists>l. f k = Some (keep l) \<and> link_ok l \<and> m = mapping_of l)"

lemma source_current:
  assumes "RepositoryResolver_Resolve repo ctx k s = (Inr m, s')" "inv s"
  shows "current (content s) k m"
proof -
  obtain r s1 where f: "FindByCode repo ctx k s = (r, s1)" by fastforce
  with assms(1) obtain l where l: "r = Inr l" "RedirectMappingFromLink l = Inr m"
    by (cases r) (auto simp: RepositoryResolver_Resolve_def)
  from Find_ok [OF assms(2) f [unfolded l]] fit_ok l(2) show ?thesis
    by (auto simp: current_def RedirectMappingFromLink_ok)
qed

lemma source_fades:
  assumes "RepositoryResolver_Resolve repo ctx k s = (r, s')" "inv s"
  shows "fades s s'"
proof -
  obtain q s1 where f: "FindByCode repo ctx k s = (q, s1)" by fastforce
  with assms(1) have "s' = s1" by (cases q) (auto simp: RepositoryResolver_Resolve_def)
  with fades_Find [OF assms(2) f] show ?thesis by simp
qed

lemma current_mapping_ok: "current f k m \<Longrightarrow> mapping_ok m"
  by (auto simp: current_def)

lemma current_code: "current (content s) k m \<Longrightarrow> inv s \<Longrightarrow> m_code m = k"
  using content_ok keep_same(1) by (fastforce simp: current_def)

text \<open>A current mapping stays good to put, however the link has moved on meanwhile.\<close>

lemma current_reflects:
  assumes "current f k m" "dec m = Some m'"
  shows "reflects f k m'"
proof -
  obtain l where l: "f k = Some (keep l)" "link_ok l" "m = mapping_of l"
    using assms(1) by (auto simp: current_def)
  have "m_version m' = version l"
    using kv.dec_version [of m m'] assms(2) l by simp
  with l assms(2) show ?thesis by (simp add: reflects_def keep_same dec_keep)
qed

text \<open>Putting a mapping whose stored form reflects the link keeps the cache coherent.\<close>

lemma put_coherent:
  assumes "PutIfNewer cache c m ttl s = (q, s')" "coherent s" "mapping_ok m"
    "\<And>m'. dec m = Some m' \<Longrightarrow> reflects (content s) (m_code m) m'"
  shows "coherent s'"
  unfolding coherent_def
proof (intro conjI allI impI)
  show "inv s'" using Put_content [OF assms(1)] assms(2) by (simp add: coherent_def)
  fix k m'
  assume "cached s' k = Some m'"
  then consider "cached s k = Some m'" | "k = m_code m" "dec m = Some m'"
    using kv.Put_frame [OF assms(3,1), of k] by auto
  then show "reflects (content s') k m'"
    using Put_content [OF assms(1)] assms(2,4) by cases (auto simp: coherent_def)
qed

lemma reflects_step:
  assumes "reflects f k m" "f (code l) = Some old" "version l = version old + 1" "version old \<noteq> - 1"
  shows "reflects (f(code l \<mapsto> keep l)) k m"
proof (cases "k = code l")
  case True
  have "version old < version l"
    using assms(3) u64_Suc(2) [OF assms(4)] by simp
  with True assms(1,2) show ?thesis by (auto simp: reflects_def keep_same)
qed (use assms(1) in \<open>simp add: reflects_def\<close>)

section \<open>The resolver\<close>

text \<open>The resolver as it is wired: from this cache and this repository.\<close>

definition wired :: "('c, 's) CacheAsideResolver \<Rightarrow> bool" where
  "wired r \<longleftrightarrow> r_cache r = cache \<and> r_source r = RepositoryResolver_Resolve repo \<and> r_clock r = Now
     \<and> (r_metrics r = None \<or> r_metrics r = Some metrics)"

lemma resolve_cases:
  assumes "CacheAside_Resolve timeout TimeNow r ctx k s = (res, s')" "wired r"
  obtains (hit) m s1 s2 where "fades s s1" "CacheGet cache (timeout ctx (r_operationTimeout r)) k s1 = (Inr m, s2)"
      "fades s2 s'" "res = Inr m"
  | (failed) e s1 s2 e' s3 s4 where "fades s s1"
      "CacheGet cache (timeout ctx (r_operationTimeout r)) k s1 = (Inl e, s2)" "fades s2 s3"
      "RepositoryResolver_Resolve repo ctx k s3 = (Inl e', s4)" "fades s4 s'" "res = Inl e'"
  | (skipped) e s1 s2 m s3 s4 where "fades s s1"
      "CacheGet cache (timeout ctx (r_operationTimeout r)) k s1 = (Inl e, s2)" "fades s2 s3"
      "RepositoryResolver_Resolve repo ctx k s3 = (Inr m, s4)" "fades s4 s'" "res = Inr m"
  | (put) e s1 s2 m s3 s4 s5 ttl q s6 where "fades s s1"
      "CacheGet cache (timeout ctx (r_operationTimeout r)) k s1 = (Inl e, s2)" "fades s2 s3"
      "RepositoryResolver_Resolve repo ctx k s3 = (Inr m, s4)" "fades s4 s5"
      "PutIfNewer cache (timeout ctx (r_operationTimeout r)) m ttl s5 = (q, s6)" "fades s6 s'"
      "res = Inr m"
proof -
  from assms(2) have w: "r_cache r = cache" "r_source r = RepositoryResolver_Resolve repo"
    "r_clock r = Now" and met: "r_metrics r = None \<or> r_metrics r = Some metrics"
    by (auto simp: wired_def)
  note rec = fades_metrics [OF met]
  obtain t0 s1 where n1: "TimeNow s = (t0, s1)" by fastforce
  obtain g s2 where g: "CacheGet cache (timeout ctx (r_operationTimeout r)) k s1 = (g, s2)" by fastforce
  obtain t1 s3 where n2: "TimeNow s2 = (t1, s3)" by fastforce
  note f1 = fades_simps(2) [OF n1] and f3 = fades_simps(2) [OF n2]
  note unfold = assms(1) CacheAside_Resolve_def [of timeout TimeNow r ctx k s] w n1 g n2
  show thesis
  proof (cases g)
    case (Inr m)
    with unfold have "res = Inr m" "s' = recordCacheGet r ''hit'' (Sub t1 t0) s3" by auto
    with f1 f3 rec Inr g show thesis by (intro hit [of s1 m s2]) (auto intro: fades_trans)
  next
    case gl: (Inl e)
    define n where "n = (if errors_is e (Ports ErrRedirectCacheMiss) then ''miss'' else ''error'')"
    obtain t2 s4 where n3: "TimeNow (recordCacheGet r n (Sub t1 t0) s3) = (t2, s4)" by fastforce
    have f4: "fades s2 s4" using f3 rec fades_simps(2) [OF n3] by (blast intro: fades_trans)
    obtain p s5 where p: "RepositoryResolver_Resolve repo ctx k s4 = (p, s5)" by fastforce
    obtain t3 s6 where n4: "TimeNow s5 = (t3, s6)" by fastforce
    note f6 = fades_simps(2) [OF n4]
    note unfold2 = unfold gl n3 [unfolded n_def] p n4
    show thesis
    proof (cases p)
      case (Inl e')
      with unfold2 have "res = Inl e'" "s' = recordSourceLookup r ''error'' (Sub t3 t2) s6"
        by (auto simp: Let_def)
      with f1 f4 f6 rec Inl g gl p show thesis
        by (intro failed [of s1 e s2 s4 e' s5]) (auto intro: fades_trans)
    next
      case (Inr m)
      obtain now s7 where n5: "Now (recordSourceLookup r ''success'' (Sub t3 t2) s6) = (now, s7)"
        by fastforce
      have f7: "fades s5 s7" using f6 rec fades_simps(1) [OF n5] by (blast intro: fades_trans)
      obtain ttl b where t: "redirectCacheTTL m now (r_activeTTL r) (r_inactiveTTL r) = (ttl, b)"
        by fastforce
      obtain t4 s8 where n6: "TimeNow s7 = (t4, s8)" by fastforce
      have f8: "fades s5 s8" using f7 fades_simps(2) [OF n6] by (rule fades_trans)
      obtain q s9 where q: "PutIfNewer cache (timeout ctx (r_operationTimeout r)) m ttl s8 = (q, s9)"
        by fastforce
      obtain t5 s10 where n7: "TimeNow s9 = (t5, s10)" by fastforce
      note f10 = fades_simps(2) [OF n7]
      show thesis
      proof (cases b)
        case True
        with unfold2 Inr n5 t n6 q n7 have "res = Inr m" "\<exists>x. s' = recordCachePut r x (Sub t5 t4) s10"
          by (auto simp: Let_def)
        with f1 f4 f8 f10 rec Inr g gl p q show thesis
          by (intro put [of s1 e s2 s4 m s5 s8 ttl q s9]) (auto intro: fades_trans)
      next
        case False
        with unfold2 Inr n5 t have "res = Inr m" "s' = recordCachePut r ''skipped'' 0 s7"
          by (auto simp: Let_def)
        with f1 f4 f7 rec Inr g gl p show thesis
          by (intro skipped [of s1 e s2 s4 m s5]) (auto intro: fades_trans)
      qed
    qed
  qed
qed

text \<open>What a resolution returns: a faithful reading of the link, or of an earlier version of it.\<close>

lemma resolve_coherent:
  assumes "CacheAside_Resolve timeout TimeNow r ctx k s = (res, s')" "wired r" "coherent s"
  shows "coherent s' \<and> content s' = content s \<and>
    (\<forall>m. res = Inr m \<longrightarrow> reflects (content s) k m \<or> current (content s) k m)"
  using assms(1,2)
proof (cases rule: resolve_cases)
  case (hit m s1 s2)
  have "fades s1 s2" by (rule fades_simps(3) [OF hit(2)])
  with hit(1,3) have f: "fades s s'" by (blast intro: fades_trans)
  have "cached s k = Some m" by (rule fadesD(3) [OF hit(1) kv.CacheGet_ok [OF hit(2)]])
  then have "reflects (content s) k m" using assms(3) by (simp add: coherent_def)
  with f hit(4) fades_coherent [OF f assms(3)] fadesD(1) [OF f] show ?thesis by simp
next
  case (failed e s1 s2 e' s3 s4)
  have "fades s s3" using failed fades_simps(3) by (blast intro: fades_trans)
  moreover have "inv s3" using calculation assms(3) by (simp add: fades_def coherent_def)
  ultimately have "fades s s'" using source_fades [OF failed(4)] failed(5) by (blast intro: fades_trans)
  with failed(6) assms(3) fades_coherent show ?thesis by (auto simp: fades_def)
next
  case (skipped e s1 s2 m s3 s4)
  have f: "fades s s3" using skipped fades_simps(3) by (blast intro: fades_trans)
  then have "inv s3" using assms(3) by (simp add: fades_def coherent_def)
  with f have "fades s s'" "current (content s) k m"
    using source_fades [OF skipped(4)] source_current [OF skipped(4)] skipped(5) fadesD(1) [OF f]
    by (blast intro: fades_trans, simp)
  with skipped(6) assms(3) fades_coherent show ?thesis by (auto simp: fades_def)
next
  case (put e s1 s2 m s3 s4 s5 ttl q s6)
  have f: "fades s s3" using put fades_simps(3) by (blast intro: fades_trans)
  then have "inv s3" using assms(3) by (simp add: fades_def coherent_def)
  with f have f5: "fades s s5" and cur: "current (content s) k m"
    using source_fades [OF put(4)] source_current [OF put(4)] put(5) fadesD(1) [OF f]
    by (blast intro: fades_trans, simp)
  have "coherent s5" using f5 assms(3) fades_coherent by blast
  moreover have "m_code m = k" using current_code [OF cur] assms(3) by (simp add: coherent_def)
  moreover have "content s5 = content s" using f5 by (simp add: fades_def)
  ultimately have "coherent s6"
    using put_coherent [OF put(6)] current_mapping_ok [OF cur] current_reflects [OF cur] by auto
  moreover have "content s6 = content s" using Put_content [OF put(6)] f5 by (simp add: fades_def)
  ultimately show ?thesis
    using put(8) cur fades_coherent [OF put(7)] fadesD(1) [OF put(7)] by simp
qed

text \<open>With no cached entry the answer is the source's, whatever the cache reports.\<close>

lemma resolve_uncached:
  assumes "CacheAside_Resolve timeout TimeNow r ctx k s = (res, s')" "wired r" "coherent s"
    "cached s k = None" "res = Inr m"
  shows "current (content s) k m"
  using assms(1,2)
proof (cases rule: resolve_cases)
  case (hit m' s1 s2)
  then show ?thesis using fadesD(3) [OF hit(1) kv.CacheGet_ok [OF hit(2)]] assms(4) by simp
next
  case (failed e s1 s2 e' s3 s4)
  then show ?thesis using assms(5) by simp
next
  case (skipped e s1 s2 m' s3 s4)
  have f: "fades s s3" using skipped fades_simps(3) by (blast intro: fades_trans)
  then have "inv s3" using assms(3) by (simp add: fades_def coherent_def)
  with source_current [OF skipped(4)] f skipped(6) assms(5) show ?thesis by (simp add: fades_def)
next
  case (put e s1 s2 m' s3 s4 s5 ttl q s6)
  have f: "fades s s3" using put fades_simps(3) by (blast intro: fades_trans)
  then have "inv s3" using assms(3) by (simp add: fades_def coherent_def)
  with source_current [OF put(4)] f put(8) assms(5) show ?thesis by (simp add: fades_def)
qed

section \<open>The refreshing repository\<close>

definition wired_refresher :: "('c, 's) RedirectCacheRefresher \<Rightarrow> bool" where
  "wired_refresher f \<longleftrightarrow> f_cache f = cache \<and> f_clock f = Now"

text \<open>A refresh is a put of the link's projection, or nothing.\<close>

lemma refresh_cases:
  assumes "Refresh timeout f c l s = (q, s')" "wired_refresher f" "link_ok l"
  obtains (skipped) "fades s s'" "q = None"
  | (put) s1 d ttl where "fades s s1" "PutIfNewer cache d (mapping_of l) ttl s1 = (q, s')"
proof -
  obtain now s1 where n: "Now s = (now, s1)" by fastforce
  obtain ttl b where t:
    "redirectCacheTTL (mapping_of l) now (f_activeTTL f) (f_inactiveTTL f) = (ttl, b)"
    by fastforce
  note f = fades_simps(1) [OF n]
  show thesis
  proof (cases b)
    case True
    with assms n t have "PutIfNewer cache (timeout c (f_operationTimeout f)) (mapping_of l) ttl s1 = (q, s')"
      by (simp add: Refresh_def wired_refresher_def RedirectMappingFromLink_ok)
    with f show thesis by (rule put)
  next
    case False
    with assms n t have "q = None" "s' = s1"
      by (simp_all add: Refresh_def wired_refresher_def RedirectMappingFromLink_ok)
    with f show thesis by (intro skipped) auto
  qed
qed

lemma refresh_frame:
  assumes "Refresh timeout f c l s = (q, s')" "wired_refresher f" "link_ok l"
  shows "content s' = content s \<and> (inv s \<longrightarrow> inv s')"
  using assms by (cases rule: refresh_cases) (auto simp: fades_def dest: Put_content)

lemma refresh_coherent:
  assumes "Refresh timeout f c l s = (q, s')" "wired_refresher f" "link_ok l" "coherent s"
    "content s (code l) = Some (keep l)"
  shows "coherent s'"
  using assms(1-3)
proof (cases rule: refresh_cases)
  case skipped
  then show ?thesis using assms(4) fades_coherent by blast
next
  case (put s1 d ttl)
  have "coherent s1" using put assms(4) fades_coherent by blast
  moreover have "current (content s1) (code l) (mapping_of l)"
    using assms(3,5) fadesD(1) [OF put(1)] by (auto simp: current_def)
  ultimately show ?thesis
    using put_coherent [OF put(2)] assms(3) current_reflects by auto
qed

text \<open>The decorated repository keeps the contract of the one it decorates.\<close>

lemma refreshing_contract:
  assumes "wired_refresher f"
  shows "repository_contract (CacheRefreshingRepository repo (Refresh timeout f)) content keep inv ambiguous fit"
proof -
  have upd: "refreshing_Update repo (Refresh timeout f) c l v s = (q, s') \<Longrightarrow>
      \<exists>s1. Update repo c l v s = (q, s1) \<and>
        (fit l \<longrightarrow> content s' = content s1 \<and> (inv s1 \<longrightarrow> inv s')) \<and> (q \<noteq> None \<longrightarrow> s' = s1)" for c l v s q s'
    using refresh_frame [OF _ assms fit_ok]
    by (auto simp: refreshing_Update_def split: prod.splits option.splits)
  show ?thesis
  proof ((unfold_locales; (fact keep_same | erule keep_createdAt | erule (1) content_ok
      | erule sentinel_sharp | erule fit_ok | erule (3) fit_same)?), goal_cases)
    case (1 s l c s')
    then show ?case using Insert_ok by (simp add: CacheRefreshingRepository_def)
  next
    case (2 s l c e s')
    then show ?case using Insert_err by (simp add: CacheRefreshingRepository_def)
  next
    case (3 s c l e s')
    then show ?case using Insert_exists by (simp add: CacheRefreshingRepository_def)
  next
    case (4 s c k r s')
    then show ?case using Find_frame by (simp add: CacheRefreshingRepository_def)
  next
    case (5 s c k l s')
    then show ?case using Find_ok by (simp add: CacheRefreshingRepository_def)
  next
    case (6 s c k e s')
    then show ?case using Find_missing by (simp add: CacheRefreshingRepository_def)
  next
    case (7 s l c ev s')
    then obtain s1 where "Update repo c l ev s = (None, s1)" "content s' = content s1"
      "inv s1 \<longrightarrow> inv s'"
      using upd by (fastforce simp: CacheRefreshingRepository_def)
    with Update_ok [OF 7(1,2) this(1)] show ?case by auto
  next
    case (8 s l c ev e s')
    then have "Update repo c l ev s = (Some e, s')"
      using upd by (fastforce simp: CacheRefreshingRepository_def)
    with Update_err [OF 8(1,2) this] show ?case by auto
  next
    case (9 s c l ev e s')
    then have "Update repo c l ev s = (Some e, s')"
      using upd by (fastforce simp: CacheRefreshingRepository_def)
    with Update_conflict [OF 9(1) this 9(3)] show ?case by auto
  qed
qed

text \<open>An update of the link that is there keeps the cache coherent, whether or not it is reported.\<close>

lemma update_coherent:
  assumes "Update repo c l v s = (q, s')" "coherent s" "fit l" "content s (code l) = Some old"
    "version l = version old + 1" "version old \<noteq> - 1" "ownerID old = ownerID l"
    "createdAt old = createdAt (keep l)"
  shows "coherent s' \<and> (q = None \<longrightarrow> content s' (code l) = Some (keep l))"
proof -
  have inv: "inv s" using assms(2) by (simp add: coherent_def)
  have "inv s' \<and> (content s' = content s \<or> content s' = (content s)(code l \<mapsto> keep l))
      \<and> (q = None \<longrightarrow> content s' = (content s)(code l \<mapsto> keep l))"
  proof (cases q)
    case None
    with Update_ok [OF inv assms(3) assms(1) [unfolded None]] assms(4,7,8) show ?thesis by auto
  next
    case (Some e)
    with Update_err [OF inv assms(3) assms(1) [unfolded Some]] assms(4,7,8) show ?thesis by auto
  qed
  with assms(2,4-6) Update_cached [OF assms(1)] reflects_step [where f = "content s" and l = l and old = old] show ?thesis
    by (auto simp: coherent_def)
qed

end

section \<open>Changes through the refreshing repository\<close>

locale refreshed_links = cached_links repo content keep inv ambiguous fit cache cached dec Now TimeNow
    timeout metrics
  for repo :: "('c, 's) link_repository"
    and content :: "'s \<Rightarrow> string \<Rightarrow> link option"
    and keep :: "link \<Rightarrow> link"
    and inv :: "'s \<Rightarrow> bool"
    and ambiguous :: "err \<Rightarrow> bool"
    and fit :: "link \<Rightarrow> bool"
    and cache :: "('c, 's) redirect_cache"
    and cached :: "'s \<Rightarrow> string \<Rightarrow> redirect_mapping option"
    and dec :: "redirect_mapping \<Rightarrow> redirect_mapping option"
    and Now :: "'s clock" and TimeNow :: "'s clock" and timeout :: "'c \<Rightarrow> duration \<Rightarrow> 'c"
    and metrics :: "'s RedirectCacheMetrics" +
  fixes alloc :: "'s allocator" and f :: "('c, 's) RedirectCacheRefresher"
  assumes alloc_cached:
      "alloc s = (a, s') \<Longrightarrow> content s' = content s \<and> (inv s \<longrightarrow> inv s') \<and> cached s' = cached s"
    and refresher: "wired_refresher f"
begin

abbreviation refreshing :: "('c, 's) link_repository" where
  "refreshing \<equiv> CacheRefreshingRepository repo (Refresh timeout f)"

end

sublocale refreshed_links \<subseteq> refreshed: managed_links refreshing content keep inv ambiguous fit Now alloc
  using refreshing_contract [OF refresher] Now_cached alloc_cached
  by (auto simp: managed_links_def managed_links_axioms_def)

context refreshed_links
begin

lemma alloc_fades: "alloc s = (a, s') \<Longrightarrow> fades s s'"
  using alloc_cached by (simp add: fades_def)

lemma mutations_fade:
  "status_change Now st l s = (p, s') \<Longrightarrow> fades s s'"
  "destination_change ul Now raw l s = (p, s') \<Longrightarrow> fades s s'"
  "expiration_change Now alloc t l s = (p, s') \<Longrightarrow> fades s s'"
proof -
  have "fades s s" by (simp add: fades_def)
  then show "status_change Now st l s = (p, s') \<Longrightarrow> fades s s'"
    "destination_change ul Now raw l s = (p, s') \<Longrightarrow> fades s s'"
    "expiration_change Now alloc t l s = (p, s') \<Longrightarrow> fades s s'"
    by (auto simp: status_change_def destination_change_def expiration_change_def
        split: prod.splits LinkStatus.splits sum.splits option.splits
        dest!: fades_simps(1) alloc_fades intro: fades_trans)
qed

lemma guarded_change_coherent:
  assumes "guarded_change refreshing ctx k u v m s = (r, s')" "coherent s"
    "refreshed.change_sound m" "\<And>l s p s'. m l s = (p, s') \<Longrightarrow> fades s s'" "v \<noteq> - 1"
  shows "coherent s'"
proof -
  have inv: "inv s" using assms(2) by (simp add: coherent_def)
  have find: "FindByCode refreshing = FindByCode repo"
    by (simp add: CacheRefreshingRepository_def)
  from assms(1) inv show ?thesis
  proof (cases rule: refreshed.guarded_changeE)
    case (refused e)
    with fades_Find [OF inv] find assms(2) fades_coherent show ?thesis by metis
  next
    case (mutation l s1 e l')
    with fades_Find [OF inv] find assms(2,4) fades_coherent show ?thesis by metis
  next
    case (stored l s1 l' s2 q)
    have "fades s s2"
      using fades_Find [OF inv] find assms(4) stored(1,5) by (metis fades_trans)
    then have s2: "coherent s2" "content s2 = content s" "inv s2"
      using assms(2) fades_coherent fadesD inv by blast+
    note f = refreshed.Find_frame [OF inv stored(1)] refreshed.Find_ok [OF inv stored(1)]
    obtain x where x: "apply_op x l = (None, l')"
      using refreshed.change_soundD(3) [OF assms(3) stored(5)] by auto
    note same = apply_op_ok [OF x]
    have ok: "fit l'" using refreshed.fit_change [OF assms(3) stored(5)] f assms(5) stored(3) by simp
    have old: "content s2 (code l') = Some (keep l)"
      using f s2(2) same(1) content_ok [OF inv] keep_same(1) by metis
    obtain p s3 where u: "Update repo ctx l' v s2 = (p, s3)" by fastforce
    have c3: "coherent s3 \<and> (p = None \<longrightarrow> content s3 (code l') = Some (keep l'))"
      by (rule update_coherent [OF u s2(1) ok old])
        (use same stored(3) assms(5) keep_same keep_createdAt [of l l'] in auto)
    show ?thesis
    proof (cases p)
      case None
      with stored(6) u obtain p' where "Refresh timeout f ctx l' s3 = (p', s')"
        by (auto simp: CacheRefreshingRepository_def refreshing_Update_def split: prod.splits)
      with refresh_coherent [OF this refresher fit_ok [OF ok]] c3 None show ?thesis by simp
    next
      case (Some e)
      with stored(6) u have "s' = s3"
        by (auto simp: CacheRefreshingRepository_def refreshing_Update_def)
      with c3 show ?thesis by simp
    qed
  qed
qed

lemma changes_coherent:
  assumes "coherent s"
  shows "ChangeLinkStatus refreshing Now ctx q1 s = (r, s') \<Longrightarrow> s_ExpectedVersion q1 \<noteq> - 1 \<Longrightarrow> coherent s'"
    "ChangeLinkDestination ul refreshing Now ctx q2 s = (r, s') \<Longrightarrow> d_ExpectedVersion q2 \<noteq> - 1 \<Longrightarrow>
       refreshed.fit_raw ul (d_Destination q2) \<Longrightarrow> coherent s'"
    "ChangeLinkExpiration refreshing Now alloc ctx q3 s = (r, s') \<Longrightarrow> e_ExpectedVersion q3 \<noteq> - 1 \<Longrightarrow>
       coherent s'"
  using guarded_change_coherent [OF _ assms] mutations_fade
    refreshed.status_change_sound refreshed.destination_change_sound refreshed.expiration_change_sound
  by (metis ChangeLinkStatus_guarded ChangeLinkDestination_guarded ChangeLinkExpiration_guarded)+

end

end
