(* ===== verification/CodeGen.thy ===== *)
theory CodeGen
  imports Ports
begin

text \<open>
  \<^verbatim>\<open>internal/link/adapters/codegen/base62.go\<close>: short codes from random bytes by rejection
  sampling.  The random source is the reader the generator holds, a parameter here: \<open>rd n\<close> is
  \<open>io.ReadFull\<close> on a buffer of \<open>n\<close> bytes, which returns all of them or an error.  The loop ends
  only when enough acceptable bytes have come, so it is a partial function.
\<close>

section \<open>The generator\<close>

definition base62Alphabet :: string where
  "base62Alphabet = ''0123456789abcdefghijklmnopqrstuvwxyzABCDEFGHIJKLMNOPQRSTUVWXYZ''"

definition defaultCodeLength :: nat where
  "defaultCodeLength = 8"

definition unbiasedByteLimit :: nat where
  "unbiasedByteLimit = 256 - 256 mod length base62Alphabet"

text \<open>The inner loop, over the bytes of one buffer.\<close>

fun scan :: "nat \<Rightarrow> string \<Rightarrow> byte list \<Rightarrow> string" where
  "scan n c [] = c"
| "scan n c (value # values) =
     (if unat value \<ge> unbiasedByteLimit then scan n c values
      else
        let c' = c @ [base62Alphabet ! (unat value mod length base62Alphabet)]
        in if length c' = n then c' else scan n c' values)"

text \<open>The outer loop.  \<open>cx s\<close> is what the context reports when the world is \<open>s\<close>.\<close>

partial_function (option) generate_loop ::
    "('s \<Rightarrow> ctx) \<Rightarrow> (nat \<Rightarrow> 's \<Rightarrow> (err + byte list) \<times> 's) \<Rightarrow> nat \<Rightarrow> string \<Rightarrow> 's
     \<Rightarrow> ((err + string) \<times> 's) option" where
  "generate_loop cx rd n c s =
     (if length c < n then
        (case ctx_Err (cx s) of
           Some e \<Rightarrow> Some (Inl e, s)
         | None \<Rightarrow>
             (case rd n s of (r, s1) \<Rightarrow>
                (case r of
                   Inl e \<Rightarrow> Some (Inl (Wrap ''read random bytes'' e), s1)
                 | Inr randomBytes \<Rightarrow> generate_loop cx rd n (scan n c randomBytes) s1)))
      else Some (Inr c, s))"

declare generate_loop.simps [code]

definition Generate ::
    "('s \<Rightarrow> ctx) \<Rightarrow> (nat \<Rightarrow> 's \<Rightarrow> (err + byte list) \<times> 's) \<Rightarrow> nat \<Rightarrow> 's
     \<Rightarrow> ((err + string) \<times> 's) option" where
  "Generate cx rd n s =
     (case ctx_Err (cx s) of
        Some e \<Rightarrow> Some (Inl e, s)
      | None \<Rightarrow> generate_loop cx rd n [] s)"

text \<open>\<open>io.ReadFull\<close> on a \<open>bytes.Reader\<close>, whose state is what is left to read.\<close>

definition bytes_reader :: "nat \<Rightarrow> byte list \<Rightarrow> (err + byte list) \<times> byte list" where
  "bytes_reader n tape =
     (if n \<le> length tape then (Inr (take n tape), drop n tape)
      else (Inl (Foreign (if tape = [] then ''EOF'' else ''unexpected EOF'')), []))"

section \<open>Facts\<close>

definition accepted :: "byte \<Rightarrow> bool" where
  "accepted b \<longleftrightarrow> unat b < unbiasedByteLimit"

definition digit62 :: "byte \<Rightarrow> char" where
  "digit62 b = base62Alphabet ! (unat b mod length base62Alphabet)"

definition digits :: "byte list \<Rightarrow> string" where
  "digits bs = map digit62 (filter accepted bs)"

lemma digits_simps [simp]:
  "digits [] = []" "digits (b # bs) = (if accepted b then digit62 b # digits bs else digits bs)"
  "digits (xs @ ys) = digits xs @ digits ys"
  by (simp_all add: digits_def)

lemma length_alphabet [simp]: "length base62Alphabet = 62"
  by (simp add: base62Alphabet_def)

lemma unbiasedByteLimit_eq: "unbiasedByteLimit = 248"
  by (simp add: unbiasedByteLimit_def)

text \<open>One buffer contributes its acceptable bytes, up to the length asked for.\<close>

lemma scan_eq: "length c < n \<Longrightarrow> scan n c bs = take n (c @ digits bs)"
proof (induction bs arbitrary: c)
  case (Cons b bs)
  show ?case
  proof (cases "accepted b")
    case True
    with Cons.prems Cons.IH [of "c @ [digit62 b]"] show ?thesis
      by (auto simp: accepted_def digit62_def Let_def)
  next
    case False
    with Cons show ?thesis by (simp add: accepted_def)
  qed
qed simp

lemma digit_alphabet: "digit62 b \<in> set base62Alphabet"
  unfolding digit62_def by (rule nth_mem) simp

lemma set_digits: "set (digits bs) \<subseteq> set base62Alphabet"
  using digit_alphabet by (auto simp: digits_def)

lemma loop_unfold:
  "n \<le> length c \<Longrightarrow> generate_loop cx rd n c s = Some (Inr c, s)"
  "length c < n \<Longrightarrow> ctx_Err (cx s) = Some e \<Longrightarrow> generate_loop cx rd n c s = Some (Inl e, s)"
  "length c < n \<Longrightarrow> ctx_Err (cx s) = None \<Longrightarrow> rd n s = (Inl e, s1) \<Longrightarrow>
     generate_loop cx rd n c s = Some (Inl (Wrap ''read random bytes'' e), s1)"
  "length c < n \<Longrightarrow> ctx_Err (cx s) = None \<Longrightarrow> rd n s = (Inr bs, s1) \<Longrightarrow>
     generate_loop cx rd n c s = generate_loop cx rd n (take n (c @ digits bs)) s1"
  by (subst generate_loop.simps; simp add: scan_eq)+

text \<open>Whatever the reader does, a code that comes out is well formed.\<close>

definition code_wf :: "nat \<Rightarrow> string \<Rightarrow> bool" where
  "code_wf n k \<longleftrightarrow> length k = n \<and> set k \<subseteq> set base62Alphabet"

lemma take_digits_wf:
  "length c \<le> n \<Longrightarrow> set c \<subseteq> set base62Alphabet \<Longrightarrow>
     length (take n (c @ digits bs)) \<le> n \<and> set (take n (c @ digits bs)) \<subseteq> set base62Alphabet"
  using set_digits [of bs] by (auto dest!: in_set_takeD)

lemma loop_codes:
  assumes "generate_loop cx rd n c s = Some y"
  shows "length c \<le> n \<and> set c \<subseteq> set base62Alphabet \<longrightarrow>
    (case fst y of Inl e \<Rightarrow> True | Inr k \<Rightarrow> code_wf n k)"
  using assms
proof (induction rule: generate_loop.raw_induct [rotated, consumes 1, case_names step])
  case (step f cx rd n c s y)
  show ?case
  proof (cases "length c < n")
    case False
    with step.hyps show ?thesis by (auto simp: code_wf_def)
  next
    case short: True
    show ?thesis
    proof (cases "ctx_Err (cx s)")
      case (Some e)
      with short step.hyps show ?thesis by auto
    next
      case None
      obtain r s1 where rd: "rd n s = (r, s1)" by fastforce
      show ?thesis
      proof (cases r)
        case (Inl e)
        with short None rd step.hyps show ?thesis by auto
      next
        case (Inr bs)
        with short None rd step.hyps have "f cx rd n (scan n c bs) s1 = Some y" by simp
        from step.IH [OF this] take_digits_wf [of c n bs] short show ?thesis by (simp add: scan_eq)
      qed
    qed
  qed
qed

lemma Generate_wf: "Generate cx rd n s = Some (Inr k, s') \<Longrightarrow> code_wf n k"
  using loop_codes [of cx rd n "[]" s "(Inr k, s')"]
  by (auto simp: Generate_def split: option.splits)

lemma alphabet_graphic: "c \<in> set base62Alphabet \<Longrightarrow> graphic c \<and> c \<noteq> CHR ''/''"
  by (auto simp: base62Alphabet_def graphic_def)

lemma code_wf_trimmed: "code_wf n k \<Longrightarrow> TrimSpace k = k"
  using alphabet_graphic
  by (intro TrimSpace_all_graphic) (auto simp: code_wf_def list_all_iff)


section \<open>Termination and the reference semantics\<close>

lemma digits_nonempty: "\<exists>b \<in> set bs. accepted b \<Longrightarrow> digits bs \<noteq> []"
  by (auto simp: digits_def filter_empty_conv)

lemma loop_total:
  assumes "\<And>s. cx s = None" "\<And>s. \<exists>bs s'. rd n s = (Inr bs, s') \<and> (\<exists>b \<in> set bs. accepted b)"
    "length c \<le> n"
  shows "\<exists>k s'. generate_loop cx rd n c s = Some (Inr k, s')"
  using assms(3)
proof (induction "n - length c" arbitrary: c s rule: less_induct)
  case less
  show ?case
  proof (cases "length c < n")
    case True
    obtain bs s1 where r: "rd n s = (Inr bs, s1)" and "\<exists>b \<in> set bs. accepted b"
      using assms(2) by blast
    then have "digits bs \<noteq> []" by (intro digits_nonempty)
    with True have "n - length (take n (c @ digits bs)) < n - length c"
      by (cases "digits bs") auto
    with less.hyps [OF this] r True assms(1) show ?thesis by (simp add: loop_unfold(4))
  next
    case False
    then show ?thesis by (simp add: loop_unfold(1))
  qed
qed

text \<open>A reader of finitely many bytes: the loop returns, and what it returns is the first \<open>n\<close>
  digits of the full buffers, if there are as many.\<close>

definition whole_buffers :: "nat \<Rightarrow> byte list \<Rightarrow> byte list" where
  "whole_buffers n tape = take (n * (length tape div n)) tape"

lemma whole_buffers_short [simp]: "length tape < n \<Longrightarrow> whole_buffers n tape = []"
  by (simp add: whole_buffers_def)

lemma whole_buffers_step:
  assumes "0 < n" "n \<le> length tape"
  shows "whole_buffers n tape = take n tape @ whole_buffers n (drop n tape)"
proof -
  have "length tape div n = Suc ((length tape - n) div n)"
    using assms by (simp add: le_div_geq)
  then show ?thesis using assms by (simp add: whole_buffers_def take_add)
qed

lemma loop_bytes:
  assumes "0 < n" "length c \<le> n"
  shows "\<exists>r tape'. generate_loop (\<lambda>_. None) (bytes_reader) n c tape = Some (r, tape') \<and>
    (let ds = c @ digits (whole_buffers n tape) in
       if n \<le> length ds then r = Inr (take n ds)
       else \<exists>m. r = Inl (Wrap ''read random bytes'' (Foreign m)))"
  using assms(2)
proof (induction "length tape" arbitrary: c tape rule: less_induct)
  case less
  consider (full) "length c = n" | (eof) "length c < n" "length tape < n"
    | (more) "length c < n" "n \<le> length tape"
    using less.prems by linarith
  then show ?case
  proof cases
    case full
    then show ?thesis by (simp add: loop_unfold(1) Let_def)
  next
    case eof
    then show ?thesis
      by (simp add: loop_unfold(3) [where e = "Foreign _" and ?s1.0 = "[]"] bytes_reader_def)
  next
    case more
    let ?c = "take n (c @ digits (take n tape))"
    have step: "generate_loop (\<lambda>_. None) bytes_reader n c tape
        = generate_loop (\<lambda>_. None) bytes_reader n ?c (drop n tape)"
      by (rule loop_unfold(4)) (use more in \<open>auto simp: bytes_reader_def\<close>)
    have ih: "\<exists>r tape'. generate_loop (\<lambda>_. None) bytes_reader n ?c (drop n tape) = Some (r, tape') \<and>
        (let ds = ?c @ digits (whole_buffers n (drop n tape)) in
           if n \<le> length ds then r = Inr (take n ds)
           else \<exists>m. r = Inl (Wrap ''read random bytes'' (Foreign m)))"
      by (rule less.hyps) (use assms(1) more in auto)
    have ds: "c @ digits (whole_buffers n tape)
        = (c @ digits (take n tape)) @ digits (whole_buffers n (drop n tape))"
      using whole_buffers_step [OF assms(1) more(2)] by simp
    show ?thesis
    proof (cases "n \<le> length (c @ digits (take n tape))")
      case True
      with ih less.prems show ?thesis by (auto simp: step ds Let_def min_def)
    next
      case False
      with ih show ?thesis by (auto simp: step ds Let_def)
    qed
  qed
qed


text \<open>Every character has the same number of accepted bytes.\<close>

lemma ex_less_4: "(\<exists>q < 4. P q) \<longleftrightarrow> P 0 \<or> P 1 \<or> P 2 \<or> P (3 :: nat)"
proof -
  have "q < 4 \<longleftrightarrow> q = 0 \<or> q = 1 \<or> q = 2 \<or> q = 3" for q :: nat by arith
  then show ?thesis by (simp add: conj_disj_distribR ex_disj_distrib)
qed

lemma accepted_byte_mod:
  "i < (62 :: nat) \<Longrightarrow> {n. n < 248 \<and> n mod 62 = i} = {i, i + 62, i + 124, i + 186 :: nat}"
proof (rule set_eqI)
  fix n :: nat
  assume i: "i < 62"
  have "n < 248 \<and> n mod 62 = i \<longleftrightarrow> (\<exists>q < 4. n = q * 62 + i)"
  proof
    assume "n < 248 \<and> n mod 62 = i"
    then have "n div 62 < 4 \<and> n = (n div 62) * 62 + i" by (auto simp: div_mult_mod_eq)
    then show "\<exists>q < 4. n = q * 62 + i" by blast
  qed (use i in auto)
  also have "\<dots> \<longleftrightarrow> n \<in> {i, i + 62, i + 124, i + 186}"
    by (simp add: ex_less_4 add.commute)
  finally show "n \<in> {n. n < 248 \<and> n mod 62 = i} \<longleftrightarrow> n \<in> {i, i + 62, i + 124, i + 186}" by simp
qed

lemma card_bytes: "(\<And>n. P n \<Longrightarrow> n < 256) \<Longrightarrow> card {b :: byte. P (unat b)} = card {n. P n}"
proof -
  assume small: "\<And>n. P n \<Longrightarrow> n < 256"
  have "n \<in> unat ` {b :: byte. P (unat b)}" if "P n" for n
    using that small [OF that] by (intro image_eqI [of _ _ "of_nat n"]) (auto simp: unat_of_nat)
  then have "unat ` {b :: byte. P (unat b)} = {n. P n}" by auto
  moreover have "inj_on unat {b :: byte. P (unat b)}" by (auto simp: inj_on_def word_unat_eq_iff)
  ultimately show ?thesis by (metis card_image)
qed

lemma distinct_alphabet: "distinct base62Alphabet"
  by (simp add: base62Alphabet_def)

lemma scan_one:
  "i < 62 \<Longrightarrow> scan 1 [] [b] = [base62Alphabet ! i] \<longleftrightarrow> unat b < 248 \<and> unat b mod 62 = i"
  using distinct_alphabet
  by (auto simp: scan_eq accepted_def digit62_def unbiasedByteLimit_eq nth_eq_iff_index_eq)

section \<open>Theorems\<close>

text \<open>C37: whatever the random source returns, a generated code has the length asked for and only
  characters of the alphabet; none is a slash, and trimming leaves it as it is.\<close>

theorem Generate_codes:
  assumes "Generate cx rd n s = Some (Inr k, s')"
  shows "length k = n \<and> set k \<subseteq> set base62Alphabet \<and> TrimSpace k = k \<and> CHR ''/'' \<notin> set k"
  using Generate_wf [OF assms] code_wf_trimmed [of n k] alphabet_graphic
  by (auto simp: code_wf_def)

theorem Generate_codes_witness:
  "Generate (\<lambda>_. None) bytes_reader 4 [0, 61, 248, 62, 123, 0, 0, 0] = Some (Inr ''0Z0Z'', [])
   \<and> set ''0Z0Z'' \<subseteq> set base62Alphabet"
proof -
  have g: "Generate (\<lambda>_. None) bytes_reader 4 [0, 61, 248, 62, 123, 0, 0, 0] = Some (Inr ''0Z0Z'', [])"
    by code_simp
  with Generate_codes [OF g] show ?thesis by blast
qed

text \<open>C38: the sampling is unbiased: every character of the alphabet comes from exactly four of the
  256 values of a byte.\<close>

theorem scan_unbiased:
  assumes "ch \<in> set base62Alphabet"
  shows "card {b. scan 1 [] [b] = [ch]} = 4"
proof -
  obtain i where i: "i < 62" "ch = base62Alphabet ! i"
    using assms by (auto simp: in_set_conv_nth)
  have "card {b. scan 1 [] [b] = [ch]} = card {n. n < 248 \<and> n mod 62 = i}"
    unfolding i(2) scan_one [OF i(1)] by (rule card_bytes) simp
  then show ?thesis by (simp add: accepted_byte_mod [OF i(1)])
qed

theorem scan_unbiased_witness: "card {b. scan 1 [] [b] = ''7''} = 4"
  by (rule scan_unbiased) (simp add: base62Alphabet_def)

text \<open>C39: with a context that is never cancelled and a random source in which every buffer has an
  acceptable byte, the generator returns a code.\<close>

theorem Generate_terminates:
  assumes "\<And>s. cx s = None"
    "\<And>s. \<exists>bs s'. rd n s = (Inr bs, s') \<and> (\<exists>b \<in> set bs. unat b < unbiasedByteLimit)"
  shows "\<exists>k s'. Generate cx rd n s = Some (Inr k, s')"
  using loop_total [of cx rd n "[]" s] assms by (simp add: Generate_def accepted_def)

theorem Generate_terminates_witness:
  "\<exists>k s'. Generate (\<lambda>_. None) (\<lambda>n (s :: nat). (Inr (250 # replicate n 5), Suc s)) 8 0 = Some (Inr k, s')"
  by (rule Generate_terminates) (auto simp: unbiasedByteLimit_eq intro!: exI)

text \<open>From finitely many bytes the generator always returns: the digits of the acceptable bytes
  of the whole buffers, cut to the length asked for, or a wrapped read error if there are too few.\<close>

theorem Generate_bytes:
  assumes "0 < n"
  shows "\<exists>r tape'. Generate (\<lambda>_. None) bytes_reader n tape = Some (r, tape') \<and>
    (let ds = digits (whole_buffers n tape) in
       if n \<le> length ds then r = Inr (take n ds)
       else \<exists>m. r = Inl (Wrap ''read random bytes'' (Foreign m)))"
  using loop_bytes [of n "[]" tape] assms by (simp add: Generate_def)


theorem Generate_bytes_witness:
  "\<exists>r tape'. Generate (\<lambda>_. None) bytes_reader 4 [0, 61, 248, 62, 123, 0, 0, 0] = Some (r, tape') \<and>
     (let ds = digits (whole_buffers 4 [0, 61, 248, 62, 123, 0, 0, 0]) in
        if 4 \<le> length ds then r = Inr (take 4 ds)
        else \<exists>m. r = Inl (Wrap ''read random bytes'' (Foreign m)))"
  by (rule Generate_bytes) simp

end
