(* ===== verification/RedisCache.thy ===== *)
theory RedisCache
  imports Ports
begin

text \<open>
  \<^verbatim>\<open>internal/link/adapters/redis/redirect_cache.go\<close>: the redirect cache in Redis.  The server is
  not part of the program: the commands the script calls and the two calls of the client are
  parameters, with what Redis documents of them as the assumptions of a locale.  The Lua script
  and the encoding are the program's, and are modelled in full.
\<close>

section \<open>Instants in milliseconds\<close>

text \<open>January 1, 1970 on the scale of \<open>time\<close>; \<open>t.UnixMilli()\<close> and \<open>time.UnixMilli(ms)\<close>.\<close>

definition unixEpoch :: time where
  "unixEpoch = 62135596800 * Second"

definition toUnixMilli :: "time \<Rightarrow> int" where
  "toUnixMilli t = int64 ((t - unixEpoch) div Millisecond)"

definition ofUnixMilli :: "int \<Rightarrow> time" where
  "ofUnixMilli ms = unixEpoch + ms * Millisecond"

section \<open>The server and the client\<close>

record 'd redis_commands =
  HGET :: "string \<Rightarrow> string \<Rightarrow> 'd \<Rightarrow> string option"
  HSET :: "string \<Rightarrow> (string \<times> string) list \<Rightarrow> 'd \<Rightarrow> 'd"
  PEXPIRE :: "string \<Rightarrow> string \<Rightarrow> 'd \<Rightarrow> 'd"

text \<open>\<open>RunScript\<close> is \<open>Script.Run\<close>, with the script applied to its keys and arguments.\<close>

record ('c, 'd, 's) redis_client =
  HGetAll :: "'c \<Rightarrow> string \<Rightarrow> 's \<Rightarrow> (err + (string \<times> string) list) \<times> 's"
  RunScript :: "'c \<Rightarrow> ('d \<Rightarrow> int \<times> 'd) \<Rightarrow> 's \<Rightarrow> (err + int) \<times> 's"

section \<open>The script\<close>

text \<open>Lua's order on strings, in the C locale.\<close>

fun lua_less :: "string \<Rightarrow> string \<Rightarrow> bool" where
  "lua_less [] ys = (ys \<noteq> [])"
| "lua_less (x # xs) [] = False"
| "lua_less (x # xs) (y # ys) =
     ((of_char x :: nat) < of_char y \<or> x = y \<and> lua_less xs ys)"

definition newer_version :: "string \<Rightarrow> string \<Rightarrow> bool" where
  "newer_version current incoming \<longleftrightarrow>
     length current > length incoming
     \<or> length current = length incoming \<and> lua_less incoming current"

definition putIfNewerScript ::
    "'d redis_commands \<Rightarrow> string \<Rightarrow> string \<Rightarrow> string \<Rightarrow> string \<Rightarrow> string \<Rightarrow> string \<Rightarrow> 'd \<Rightarrow> int \<times> 'd" where
  "putIfNewerScript redis key argv1 argv2 argv3 argv4 argv5 d =
     (let current = HGET redis key ''version'' d;
          incoming = argv3
      in if (case current of None \<Rightarrow> False | Some c \<Rightarrow> newer_version c incoming) then (0, d)
         else
           let d1 = HSET redis key
                 [(''destination'', argv1), (''status'', argv2), (''version'', argv3),
                  (''expires_at'', argv4)] d;
               d2 = PEXPIRE redis key argv5 d1
           in (1, d2))"

section \<open>The cache\<close>

definition redirectKeyPrefix :: string where
  "redirectKeyPrefix = ''tinyurl:redirect:v1:''"

definition parseExpiresAt :: "string \<Rightarrow> err + time option" where
  "parseExpiresAt raw =
     (if raw = [] then Inr None
      else case ParseInt raw of
             Inl e \<Rightarrow> Inl (Wrap ''decode cached expiration'' e)
           | Inr ms \<Rightarrow> Inr (Some (ofUnixMilli ms)))"

text \<open>Indexing a Go map of strings: the empty string where there is no entry.\<close>

definition field :: "(string \<rightharpoonup> string) \<Rightarrow> string \<Rightarrow> string" where
  "field fs name = (case fs name of None \<Rightarrow> '''' | Some v \<Rightarrow> v)"

definition decode_fields ::
    "(string \<Rightarrow> string) \<Rightarrow> string \<Rightarrow> (string \<rightharpoonup> string) \<Rightarrow> err + redirect_mapping" where
  "decode_fields ul c fs =
     (case NewDestinationURL ul (field fs ''destination'') of
        Inl e \<Rightarrow> Inl (Wrap ''decode cached destination'' e)
      | Inr d \<Rightarrow>
          (case ParseLinkStatus (field fs ''status'') of
             Inl e \<Rightarrow> Inl (Wrap ''decode cache status'' e)
           | Inr st \<Rightarrow>
               (case ParseUint (field fs ''version'') of
                  Inl e \<Rightarrow> Inl (Wrap ''decode cached version'' e)
                | Inr v \<Rightarrow>
                    (case parseExpiresAt (field fs ''expires_at'') of
                       Inl e \<Rightarrow> Inl e
                     | Inr t \<Rightarrow>
                         (case NewRedirectMapping c d st t v of
                            Inl e \<Rightarrow> Inl (Wrap ''build cached redirect mapping'' e)
                          | Inr m \<Rightarrow> Inr m)))))"

definition RedisCache_Get ::
    "(string \<Rightarrow> string) \<Rightarrow> ('c, 'd, 's) redis_client \<Rightarrow> 'c \<Rightarrow> string \<Rightarrow> 's
     \<Rightarrow> (err + redirect_mapping) \<times> 's" where
  "RedisCache_Get ul client ctx c s =
     (let key = redirectKeyPrefix @ c
      in case HGetAll client ctx key s of
           (Inl e, s1) \<Rightarrow> (Inl (Wrap (''read redirect cache key '' @ key) e), s1)
         | (Inr fs, s1) \<Rightarrow>
             if fs = [] then (Inl (Ports ErrRedirectCacheMiss), s1)
             else (decode_fields ul c (map_of fs), s1))"

definition encode_expiresAt :: "time option \<Rightarrow> string" where
  "encode_expiresAt t = (case t of None \<Rightarrow> '''' | Some t \<Rightarrow> FormatInt (toUnixMilli t))"

definition RedisCache_PutIfNewer ::
    "'d redis_commands \<Rightarrow> ('c, 'd, 's) redis_client \<Rightarrow> 'c \<Rightarrow> redirect_mapping \<Rightarrow> duration \<Rightarrow> 's
     \<Rightarrow> err option \<times> 's" where
  "RedisCache_PutIfNewer redis client ctx m ttl s =
     (let ttlMilliseconds = Milliseconds ttl
      in if ttlMilliseconds \<le> 0
         then (Some (Plain ''redirect cache TTL must be at least one millinsecond''), s)
         else
           let expiresAt = encode_expiresAt (m_expiresAt m);
               key = redirectKeyPrefix @ m_code m
           in case RunScript client ctx
                     (putIfNewerScript redis key (dest_String (m_destination m))
                        (status_String (m_status m)) (FormatUint (m_version m)) expiresAt
                        (FormatInt ttlMilliseconds)) s of
                (Inl e, s1) \<Rightarrow> (Some (Wrap (''write redirect cache key '' @ key) e), s1)
              | (Inr _, s1) \<Rightarrow> (None, s1))"

definition RedisCache ::
    "(string \<Rightarrow> string) \<Rightarrow> 'd redis_commands \<Rightarrow> ('c, 'd, 's) redis_client \<Rightarrow> ('c, 's) redirect_cache" where
  "RedisCache ul redis client =
     \<lparr>CacheGet = RedisCache_Get ul client, PutIfNewer = RedisCache_PutIfNewer redis client\<rparr>"

section \<open>Versions compare as numbers\<close>

lemma is_digit_val: "is_digit c \<Longrightarrow> digit_val c < 10 \<and> (of_char c :: nat) = 48 + digit_val c"
  by (auto simp: is_digit_def digit_val_def)

lemma is_digit_inj: "is_digit c \<Longrightarrow> is_digit d \<Longrightarrow> digit_val c = digit_val d \<Longrightarrow> c = d"
  using is_digit_val [of c] is_digit_val [of d] by (metis of_char_eq_iff)

lemma digits_val_split:
  "list_all is_digit s \<Longrightarrow> digits_val n s = n * 10 ^ length s + digits_val 0 s \<and> digits_val 0 s < 10 ^ length s"
proof (induction s arbitrary: n)
  case (Cons c s)
  have c: "digit_val c < 10" using Cons.prems is_digit_val by simp
  have "digits_val n (c # s) = (n * 10 + digit_val c) * 10 ^ length s + digits_val 0 s"
    "digits_val 0 (c # s) = digit_val c * 10 ^ length s + digits_val 0 s"
    "digits_val 0 s < 10 ^ length s"
    using Cons.IH [of "n * 10 + digit_val c"] Cons.IH [of "digit_val c"] Cons.prems by auto
  moreover have "digit_val c * 10 ^ length s \<le> 9 * 10 ^ length s" using c by (intro mult_le_mono1) simp
  then have "digits_val 0 s + digit_val c * 10 ^ length s < 10 * 10 ^ length s"
    using calculation(3) by linarith
  ultimately show ?case by (simp add: algebra_simps)
qed simp

lemma lua_less_digits:
  "list_all is_digit s \<Longrightarrow> list_all is_digit t \<Longrightarrow> length s = length t \<Longrightarrow>
     lua_less s t \<longleftrightarrow> digits_val 0 s < digits_val 0 t"
proof (induction s arbitrary: t)
  case (Cons c s)
  then obtain d u where t: "t = d # u" by (cases t) auto
  let ?p = "10 ^ length s :: nat"
  have v: "digits_val 0 (c # s) = digit_val c * ?p + digits_val 0 s" "digits_val 0 s < ?p"
    "digits_val 0 t = digit_val d * ?p + digits_val 0 u" "digits_val 0 u < ?p"
    using Cons.prems t digits_val_split [of s "digit_val c"] digits_val_split [of u "digit_val d"]
    by auto
  consider "digit_val c < digit_val d" | "digit_val d < digit_val c" | "c = d"
    using Cons.prems t is_digit_inj [of c d]
    by (cases "digit_val c" "digit_val d" rule: linorder_cases) auto
  then show ?case
  proof cases
    case 1
    then have "Suc (digit_val c) * ?p \<le> digit_val d * ?p" by (intro mult_le_mono1) simp
    then have "digits_val 0 (c # s) < digits_val 0 t" using v by simp
    with 1 Cons.prems t is_digit_val [of c] is_digit_val [of d] show ?thesis by auto
  next
    case 2
    then have "Suc (digit_val d) * ?p \<le> digit_val c * ?p" by (intro mult_le_mono1) simp
    then have "\<not> digits_val 0 (c # s) < digits_val 0 t" using v by simp
    with 2 Cons.prems t is_digit_val [of c] is_digit_val [of d] show ?thesis by auto
  next
    case 3
    with v Cons t show ?thesis by simp
  qed
qed simp

lemma format_nat_length: "0 < n \<Longrightarrow> 10 ^ (length (format_nat n) - 1) \<le> n"
proof (induction n rule: format_nat.induct)
  case (1 n)
  show ?case
  proof (cases "n < 10")
    case True
    with 1 show ?thesis by (subst format_nat.simps) simp
  next
    case False
    then have "10 ^ (length (format_nat (n div 10)) - 1) \<le> n div 10" using 1 by simp
    then have "10 * 10 ^ (length (format_nat (n div 10)) - 1) \<le> n" by simp
    moreover have "0 < length (format_nat (n div 10))" by simp
    ultimately have "10 ^ length (format_nat (n div 10)) \<le> n"
      by (metis Suc_diff_1 power_Suc)
    with False show ?thesis by (subst format_nat.simps) simp
  qed
qed

lemma format_nat_less: "n < 10 ^ length (format_nat n)"
  using digits_val_split [OF format_nat_digits, of 0 n] by (simp add: digits_val_format_nat)

lemma newer_version_format: "newer_version (format_nat a) (format_nat b) \<longleftrightarrow> b < a"
proof -
  have longer: "y < x" if "length (format_nat x) > length (format_nat y)" for x y
  proof -
    have "0 < x" using that by (cases x) (simp_all add: format_nat.simps [of 0] length_greater_0_conv)
    have "y < 10 ^ length (format_nat y)" by (rule format_nat_less)
    also have "\<dots> \<le> 10 ^ (length (format_nat x) - 1)" using that by (intro power_increasing) auto
    also have "\<dots> \<le> x" by (rule format_nat_length) fact
    finally show ?thesis .
  qed
  consider "length (format_nat a) > length (format_nat b)"
    | "length (format_nat a) < length (format_nat b)" | "length (format_nat a) = length (format_nat b)"
    by linarith
  then show ?thesis
  proof cases
    case 3
    then show ?thesis
      using lua_less_digits [OF format_nat_digits format_nat_digits]
      by (simp add: newer_version_def digits_val_format_nat)
  qed (use longer [of a b] longer [of b a] in \<open>auto simp: newer_version_def\<close>)
qed

lemma newer_version_FormatUint: "newer_version (FormatUint v) (FormatUint w) \<longleftrightarrow> w < v"
  by (simp add: FormatUint_def newer_version_format word_less_nat_alt)


section \<open>What is written is what is read\<close>

text \<open>The fields a put writes, and the mapping a read makes of them.\<close>

definition encoded :: "redirect_mapping \<Rightarrow> string \<rightharpoonup> string" where
  "encoded m = map_of
     [(''destination'', dest_String (m_destination m)), (''status'', status_String (m_status m)),
      (''version'', FormatUint (m_version m)), (''expires_at'', encode_expiresAt (m_expiresAt m))]"

definition as_read :: "(string \<Rightarrow> string) \<Rightarrow> redirect_mapping \<Rightarrow> redirect_mapping option" where
  "as_read ul m = (case decode_fields ul (m_code m) (encoded m) of Inl _ \<Rightarrow> None | Inr m' \<Rightarrow> Some m')"

text \<open>The expiry a read returns: to the millisecond, and never later than the one put.\<close>

definition to_millisecond :: "time \<Rightarrow> time" where
  "to_millisecond t = ofUnixMilli (toUnixMilli t)"

definition unix_range :: "time \<Rightarrow> bool" where
  "unix_range t \<longleftrightarrow> - (2 ^ 63) \<le> (t - unixEpoch) div Millisecond \<and> (t - unixEpoch) div Millisecond < 2 ^ 63"

lemma to_millisecond_bounds:
  "unix_range t \<Longrightarrow> to_millisecond t \<le> t \<and> t < to_millisecond t + Millisecond"
  unfolding unix_range_def to_millisecond_def ofUnixMilli_def toUnixMilli_def Millisecond_eq
  by (simp add: int64_id) linarith

lemma parse_encoded_expiry [simp]:
  "parseExpiresAt (encode_expiresAt t) = Inr (map_option to_millisecond t)"
proof (cases t)
  case (Some x)
  have "FormatInt (toUnixMilli x) \<noteq> []" by (simp add: FormatInt_def)
  with Some ParseInt_FormatInt [of "toUnixMilli x"] int64_range show ?thesis
    by (simp add: parseExpiresAt_def encode_expiresAt_def to_millisecond_def toUnixMilli_def)
qed (simp add: parseExpiresAt_def encode_expiresAt_def)

lemma field_encoded [simp]:
  "field (encoded m) ''destination'' = dest_String (m_destination m)"
  "field (encoded m) ''status'' = status_String (m_status m)"
  "field (encoded m) ''version'' = FormatUint (m_version m)"
  "field (encoded m) ''expires_at'' = encode_expiresAt (m_expiresAt m)"
  by (simp_all add: field_def encoded_def)

lemma decode_fields_encoded:
  assumes "mapping_ok m"
  shows "decode_fields ul (m_code m) (encoded m) =
    (case NewDestinationURL ul (dest_String (m_destination m)) of
       Inl e \<Rightarrow> Inl (Wrap ''decode cached destination'' e)
     | Inr d \<Rightarrow>
         (case NewRedirectMapping (m_code m) d (m_status m)
                 (map_option to_millisecond (m_expiresAt m)) (m_version m) of
            Inl e \<Rightarrow> Inl (Wrap ''build cached redirect mapping'' e)
          | Inr m' \<Rightarrow> Inr m'))"
  using assms by (simp add: decode_fields_def mapping_ok_def split: sum.split)

lemma as_read_version:
  assumes "mapping_ok m" "as_read ul m = Some m'"
  shows "m_version m' = m_version m \<and> m_code m' = m_code m \<and> m_status m' = m_status m
    \<and> m_expiresAt m' = map_option to_millisecond (m_expiresAt m)"
proof -
  from assms obtain d where "NewRedirectMapping (m_code m) d (m_status m)
      (map_option to_millisecond (m_expiresAt m)) (m_version m) = Inr m'"
    by (auto simp: as_read_def decode_fields_encoded split: sum.splits)
  from NewRedirectMapping_InrD [OF this] assms(1) show ?thesis by (simp add: mapping_ok_def)
qed

lemma as_read_stable:
  assumes "mapping_ok m" "NewDestinationURL ul (dest_String (m_destination m)) = Inr (m_destination m)"
  shows "as_read ul m = Some (m\<lparr>m_expiresAt := map_option to_millisecond (m_expiresAt m)\<rparr>)"
proof -
  have "mapping_ok (m\<lparr>m_expiresAt := map_option to_millisecond (m_expiresAt m)\<rparr>)"
    using assms(1) by (simp add: mapping_ok_def)
  from NewRedirectMapping_ok [OF this] assms show ?thesis
    by (simp add: as_read_def decode_fields_encoded)
qed


section \<open>The contract of the cache, from what Redis documents\<close>

text \<open>
  \<open>db s\<close> is the server's data and \<open>hash d k\<close> the fields of the hash at key \<open>k\<close>, none if there
  is no such key.  A key can expire at any time.  A script runs as one atomic step; when the client
  reports an error, the script may have run or not.
\<close>

locale redis_service =
  fixes redis :: "'d redis_commands"
    and client :: "('c, 'd, 's) redis_client"
    and db :: "'s \<Rightarrow> 'd"
    and hash :: "'d \<Rightarrow> string \<Rightarrow> (string \<rightharpoonup> string)"
    and ul :: "string \<Rightarrow> string"
  assumes HGET: "HGET redis k n d = hash d k n"
    and HSET: "distinct (map fst nvs) \<Longrightarrow>
         hash (HSET redis k nvs d) k' = (if k' = k then hash d k ++ map_of nvs else hash d k')"
    and PEXPIRE: "hash (PEXPIRE redis k x d) k' = hash d k' \<or> k' = k \<and> hash (PEXPIRE redis k x d) k' = Map.empty"
    and HGetAll_ok:
      "HGetAll client c k s = (Inr fs, s') \<Longrightarrow> map_of fs = hash (db s') k"
    and HGetAll_frame:
      "HGetAll client c k s = (r, s') \<Longrightarrow> hash (db s') k' = hash (db s) k' \<or> hash (db s') k' = Map.empty"
    and RunScript_step:
      "RunScript client c f s = (q, s') \<Longrightarrow>
         \<exists>d. (\<forall>k. hash d k = hash (db s) k \<or> hash d k = Map.empty) \<and>
           (db s' = snd (f d) \<or> q \<noteq> Inr (fst (f d)) \<and> db s' = d)"
begin

text \<open>What a read of a code would return.\<close>

definition cached_in :: "'d \<Rightarrow> string \<Rightarrow> redirect_mapping option" where
  "cached_in d k =
     (if hash d (redirectKeyPrefix @ k) = Map.empty then None
      else case decode_fields ul k (hash d (redirectKeyPrefix @ k)) of
             Inl _ \<Rightarrow> None | Inr m \<Rightarrow> Some m)"

lemma decode_fields_cong:
  assumes "field f ''destination'' = field g ''destination''" "field f ''status'' = field g ''status''"
    "field f ''version'' = field g ''version''" "field f ''expires_at'' = field g ''expires_at''"
  shows "decode_fields ul k f = decode_fields ul k g"
  unfolding decode_fields_def assms ..

lemma cached_in_fade:
  "hash d' (redirectKeyPrefix @ k) = hash d (redirectKeyPrefix @ k)
     \<or> hash d' (redirectKeyPrefix @ k) = Map.empty \<Longrightarrow>
   cached_in d' k = cached_in d k \<or> cached_in d' k = None"
  by (auto simp: cached_in_def)

text \<open>One run of the script, for a mapping.\<close>

abbreviation script :: "redirect_mapping \<Rightarrow> string \<Rightarrow> 'd \<Rightarrow> int \<times> 'd" where
  "script m x \<equiv> putIfNewerScript redis (redirectKeyPrefix @ m_code m) (dest_String (m_destination m))
     (status_String (m_status m)) (FormatUint (m_version m)) (encode_expiresAt (m_expiresAt m)) x"

lemma script_hash:
  "hash (snd (script m x d)) k = hash d k \<or> hash (snd (script m x d)) k = Map.empty
     \<or> k = redirectKeyPrefix @ m_code m \<and> hash (snd (script m x d)) k = hash d k ++ encoded m"
proof -
  let ?nvs = "[(''destination'', dest_String (m_destination m)), (''status'', status_String (m_status m)),
      (''version'', FormatUint (m_version m)), (''expires_at'', encode_expiresAt (m_expiresAt m))]"
  define d1 where "d1 = HSET redis (redirectKeyPrefix @ m_code m) ?nvs d"
  have h: "hash d1 k = (if k = redirectKeyPrefix @ m_code m then hash d k ++ encoded m else hash d k)"
    unfolding d1_def encoded_def by (subst HSET) auto
  have "snd (script m x d) = d \<or> snd (script m x d) = PEXPIRE redis (redirectKeyPrefix @ m_code m) x d1"
    by (simp add: putIfNewerScript_def Let_def d1_def)
  then show ?thesis using h PEXPIRE [of "redirectKeyPrefix @ m_code m" x d1 k] by metis
qed

lemma script_cached:
  "cached_in (snd (script m x d)) k = cached_in d k \<or> cached_in (snd (script m x d)) k = None
     \<or> k = m_code m \<and> cached_in (snd (script m x d)) k = as_read ul m"
proof -
  consider "hash (snd (script m x d)) (redirectKeyPrefix @ k) = hash d (redirectKeyPrefix @ k)
      \<or> hash (snd (script m x d)) (redirectKeyPrefix @ k) = Map.empty"
    | "k = m_code m" "hash (snd (script m x d)) (redirectKeyPrefix @ k)
        = hash d (redirectKeyPrefix @ k) ++ encoded m"
    using script_hash [of m x d "redirectKeyPrefix @ k"] by auto
  then show ?thesis
  proof cases
    case 1
    then show ?thesis using cached_in_fade by blast
  next
    case 2
    have "hash d (redirectKeyPrefix @ k) ++ encoded m \<noteq> Map.empty" by (simp add: encoded_def)
    moreover have "decode_fields ul k (hash d (redirectKeyPrefix @ k) ++ encoded m)
        = decode_fields ul k (encoded m)"
      by (rule decode_fields_cong) (simp_all add: field_def encoded_def)
    ultimately show ?thesis using 2 by (simp add: cached_in_def as_read_def)
  qed
qed

text \<open>A live entry is never replaced by an older one.\<close>

lemma script_keeps_newer:
  assumes "hash d (redirectKeyPrefix @ m_code m) ''version'' = Some (FormatUint v)" "m_version m < v"
  shows "script m x d = (0, d)"
  using assms by (simp add: putIfNewerScript_def HGET newer_version_FormatUint)

end

sublocale redis_service \<subseteq> redirect_cache_contract "RedisCache ul redis client"
    "\<lambda>s. cached_in (db s)" "as_read ul"
proof (unfold_locales, goal_cases)
  case (1 c k s m s')
  then obtain fs where h: "HGetAll client c (redirectKeyPrefix @ k) s = (Inr fs, s')" "fs \<noteq> []"
    and d: "decode_fields ul k (map_of fs) = Inr m"
    by (auto simp: RedisCache_def RedisCache_Get_def Let_def split: prod.splits sum.splits if_splits)
  have fs: "map_of fs = hash (db s') (redirectKeyPrefix @ k)" by (rule HGetAll_ok [OF h(1)])
  moreover from h(2) have "map_of fs \<noteq> Map.empty" by simp
  ultimately have "hash (db s) (redirectKeyPrefix @ k) = map_of fs"
    using HGetAll_frame [OF h(1), of "redirectKeyPrefix @ k"] by auto
  with h(2) d show ?case by (simp add: cached_in_def)
next
  case (2 c k s r s' k')
  then obtain q where "HGetAll client c (redirectKeyPrefix @ k) s = (q, s')"
    by (auto simp: RedisCache_def RedisCache_Get_def Let_def split: prod.splits sum.splits if_splits)
  then show ?case by (intro cached_in_fade HGetAll_frame)
next
  case (3 m c ttl s q s' k')
  show ?case
  proof (cases "Milliseconds ttl \<le> 0")
    case True
    with 3 show ?thesis by (auto simp: RedisCache_def RedisCache_PutIfNewer_def)
  next
    case False
    with 3 obtain p where "RunScript client c (script m (FormatInt (Milliseconds ttl))) s = (p, s')"
      by (auto simp: RedisCache_def RedisCache_PutIfNewer_def Let_def split: prod.splits sum.splits)
    from RunScript_step [OF this] obtain d where
      d: "\<forall>k. hash d k = hash (db s) k \<or> hash d k = Map.empty"
      "db s' = d \<or> db s' = snd (script m (FormatInt (Milliseconds ttl)) d)" by blast
    have "cached_in d k' = cached_in (db s) k' \<or> cached_in d k' = None"
      by (rule cached_in_fade) (rule d(1) [rule_format])
    with d(2) script_cached [of m "FormatInt (Milliseconds ttl)" d k'] show ?thesis
      by (elim disjE conjE) simp_all
  qed
next
  case (4 m m')
  then show ?case using as_read_version by blast
qed

end
