(* ===== verification/RedisServer.thy ===== *)
theory RedisServer
  imports RedisCache
begin

text \<open>
  A Redis server that behaves as documented, for the parts the cache uses: it shows that the
  assumptions on the server can be met, and runs the cache on concrete inputs.  Time on the server
  is an integer of milliseconds; it passes, and the network fails, as two arbitrary functions of
  the number of the call say.  On it, what the script decides and writes, and that a mapping that was
  put is read back.
\<close>

record redis_entry =
  re_fields :: "(string \<times> string) list"
  re_deadline :: "int option"

record redis_data =
  rd_keys :: "string \<Rightarrow> redis_entry option"
  rd_time :: int

record redis_server =
  rs_data :: redis_data
  rs_calls :: nat
  rs_elapse :: "nat \<Rightarrow> nat"
  rs_network :: "nat \<Rightarrow> network"

definition live_entry :: "redis_data \<Rightarrow> string \<Rightarrow> redis_entry option" where
  "live_entry d k =
     (case rd_keys d k of
        None \<Rightarrow> None
      | Some e \<Rightarrow>
          (case re_deadline e of
             None \<Rightarrow> Some e
           | Some t \<Rightarrow> if rd_time d < t then Some e else None))"

definition live_fields :: "redis_data \<Rightarrow> string \<Rightarrow> (string \<times> string) list" where
  "live_fields d k = (case live_entry d k of None \<Rightarrow> [] | Some e \<Rightarrow> re_fields e)"

definition server_HGET :: "string \<Rightarrow> string \<Rightarrow> redis_data \<Rightarrow> string option" where
  "server_HGET k n d = map_of (live_fields d k) n"

definition server_HSET :: "string \<Rightarrow> (string \<times> string) list \<Rightarrow> redis_data \<Rightarrow> redis_data" where
  "server_HSET k nvs d =
     d\<lparr>rd_keys := (rd_keys d)(k \<mapsto>
        \<lparr>re_fields = rev nvs @ live_fields d k,
         re_deadline = (case live_entry d k of None \<Rightarrow> None | Some e \<Rightarrow> re_deadline e)\<rparr>)\<rparr>"

definition server_PEXPIRE :: "string \<Rightarrow> string \<Rightarrow> redis_data \<Rightarrow> redis_data" where
  "server_PEXPIRE k x d =
     (case live_entry d k of
        None \<Rightarrow> d
      | Some e \<Rightarrow>
          (case ParseInt x of
             Inl _ \<Rightarrow> d
           | Inr ms \<Rightarrow> d\<lparr>rd_keys := (rd_keys d)(k \<mapsto> e\<lparr>re_deadline := Some (rd_time d + ms)\<rparr>)\<rparr>))"

definition server_commands :: "redis_data redis_commands" where
  "server_commands = \<lparr>HGET = server_HGET, HSET = server_HSET, PEXPIRE = server_PEXPIRE\<rparr>"

text \<open>A call: time passes, then the request, the effect and the reply.\<close>

definition server_call ::
    "ctx \<Rightarrow> (redis_data \<Rightarrow> 'a \<times> redis_data) \<Rightarrow> redis_server \<Rightarrow> (err + 'a) \<times> redis_server" where
  "server_call ctx f s =
     (let d = (rs_data s)\<lparr>rd_time := rd_time (rs_data s) + int (rs_elapse s (rs_calls s))\<rparr>;
          s1 = s\<lparr>rs_data := d, rs_calls := Suc (rs_calls s)\<rparr>
      in case ctx_Err ctx of
           Some e \<Rightarrow> (Inl e, s1)
         | None \<Rightarrow>
             (case rs_network s (rs_calls s) of
                RequestLost \<Rightarrow> (Inl (Foreign ''connection refused''), s1)
              | ReplyLost \<Rightarrow> (Inl (Foreign ''i/o timeout''), s1\<lparr>rs_data := snd (f d)\<rparr>)
              | Delivered \<Rightarrow> (Inr (fst (f d)), s1\<lparr>rs_data := snd (f d)\<rparr>)))"

definition server_HGetAll ::
    "ctx \<Rightarrow> string \<Rightarrow> redis_server \<Rightarrow> (err + (string \<times> string) list) \<times> redis_server" where
  "server_HGetAll ctx k = server_call ctx (\<lambda>d. (live_fields d k, d))"

definition server_client :: "(ctx, redis_data, redis_server) redis_client" where
  "server_client = \<lparr>HGetAll = server_HGetAll, RunScript = server_call\<rparr>"

definition server_hash :: "redis_data \<Rightarrow> string \<Rightarrow> (string \<rightharpoonup> string)" where
  "server_hash d k = map_of (live_fields d k)"

section \<open>The server meets the assumptions on Redis\<close>

lemma live_later:
  "rd_time d \<le> t \<Longrightarrow>
     server_hash (d\<lparr>rd_time := t\<rparr>) k = server_hash d k \<or> server_hash (d\<lparr>rd_time := t\<rparr>) k = Map.empty"
  by (auto simp: server_hash_def live_fields_def live_entry_def split: option.splits)

lemma server_hash_HSET:
  assumes "distinct (map fst nvs)"
  shows "server_hash (server_HSET k nvs d) k' =
    (if k' = k then server_hash d k ++ map_of nvs else server_hash d k')"
proof -
  have "map_of (rev nvs) = map_of nvs"
    using assms by (subst map_of_inject_set) (simp_all add: rev_map [symmetric])
  then show ?thesis
    by (auto simp: server_hash_def server_HSET_def live_fields_def live_entry_def
        split: option.splits)
qed

lemma server_hash_PEXPIRE:
  "server_hash (server_PEXPIRE k x d) k' = server_hash d k'
     \<or> k' = k \<and> server_hash (server_PEXPIRE k x d) k' = Map.empty"
  by (auto simp: server_hash_def server_PEXPIRE_def live_fields_def live_entry_def
      split: option.splits sum.splits if_splits)

lemma server_call_effect:
  assumes "server_call ctx f s = (q, s')"
  shows "\<exists>d. (\<forall>k. server_hash d k = server_hash (rs_data s) k \<or> server_hash d k = Map.empty) \<and>
    (q = Inr (fst (f d)) \<and> rs_data s' = snd (f d)
     \<or> (\<exists>e. q = Inl e) \<and> (rs_data s' = snd (f d) \<or> rs_data s' = d))"
proof -
  let ?d = "(rs_data s)\<lparr>rd_time := rd_time (rs_data s) + int (rs_elapse s (rs_calls s))\<rparr>"
  have "\<forall>k. server_hash ?d k = server_hash (rs_data s) k \<or> server_hash ?d k = Map.empty"
    using live_later by simp
  moreover have "q = Inr (fst (f ?d)) \<and> rs_data s' = snd (f ?d)
      \<or> (\<exists>e. q = Inl e) \<and> (rs_data s' = snd (f ?d) \<or> rs_data s' = ?d)"
    using assms by (auto simp: server_call_def Let_def split: option.splits network.splits)
  ultimately show ?thesis by blast
qed

section \<open>A put is seen by the next read\<close>

lemma server_call_delivered:
  assumes "rs_network s (rs_calls s) = Delivered"
  shows "server_call None f s =
    (case f ((rs_data s)\<lparr>rd_time := rd_time (rs_data s) + int (rs_elapse s (rs_calls s))\<rparr>) of
       (a, d) \<Rightarrow> (Inr a, s\<lparr>rs_data := d, rs_calls := Suc (rs_calls s)\<rparr>))"
  using assms by (simp add: server_call_def Let_def split: prod.split)

lemma Milliseconds_range: "0 \<le> ttl \<Longrightarrow> ttl < 2 ^ 63 \<Longrightarrow> - (2 ^ 63) \<le> Milliseconds ttl \<and> Milliseconds ttl < 2 ^ 63"
  by (auto simp: Milliseconds_def Millisecond_eq sgn_if)

text \<open>What the script leaves at a key that holds nothing.\<close>

lemma script_writes:
  assumes "live_entry d k = None" "0 \<le> ttl" "ttl < 2 ^ 63"
  shows "putIfNewerScript server_commands k a1 a2 a3 a4 (FormatInt (Milliseconds ttl)) d =
    (1, d\<lparr>rd_keys := (rd_keys d)(k \<mapsto>
       \<lparr>re_fields = [(''expires_at'', a4), (''version'', a3), (''status'', a2), (''destination'', a1)],
        re_deadline = Some (rd_time d + Milliseconds ttl)\<rparr>)\<rparr>)"
proof -
  have "ParseInt (FormatInt (Milliseconds ttl)) = Inr (Milliseconds ttl)"
    using ParseInt_FormatInt Milliseconds_range [OF assms(2,3)] by simp
  then show ?thesis
    using assms(1)
    by (simp add: putIfNewerScript_def server_commands_def server_HGET_def server_HSET_def
        server_PEXPIRE_def live_fields_def live_entry_def)
qed

lemma encoded_fields:
  "map_of [(''expires_at'', encode_expiresAt (m_expiresAt m)), (''version'', FormatUint (m_version m)),
     (''status'', status_String (m_status m)), (''destination'', dest_String (m_destination m))] = encoded m"
  by (auto simp: encoded_def fun_eq_iff)

lemma live_entry_later: "live_entry d k = None \<Longrightarrow> live_entry (d\<lparr>rd_time := rd_time d + int n\<rparr>) k = None"
  by (auto simp: live_entry_def split: option.splits if_splits)

lemma put_writes:
  assumes "live_entry (rs_data s) (redirectKeyPrefix @ m_code m) = None"
    "rs_network s (rs_calls s) = Delivered" "0 < Milliseconds ttl" "ttl < 2 ^ 63"
  obtains d where
    "RedisCache_PutIfNewer server_commands server_client None m ttl s
       = (None, s\<lparr>rs_data := d, rs_calls := Suc (rs_calls s)\<rparr>)"
    "\<And>n. int n < Milliseconds ttl \<Longrightarrow>
       map_of (live_fields (d\<lparr>rd_time := rd_time d + int n\<rparr>) (redirectKeyPrefix @ m_code m)) = encoded m"
proof -
  have "0 \<le> ttl" using assms(3) by (simp add: Milliseconds_pos Millisecond_eq)
  note w = script_writes [OF live_entry_later [OF assms(1)] this assms(4)]
  show thesis
    using assms(2,3)
    by (intro that)
      (auto simp: RedisCache_PutIfNewer_def server_client_def server_call_delivered w Let_def
        live_fields_def live_entry_def encoded_fields simp del: map_of.simps)
qed

lemma encoded_nonempty: "encoded m \<noteq> Map.empty"
  by (simp add: encoded_def)

text \<open>C32: what the cache is asked to store is what the next read returns, with the expiry rounded down
  to the millisecond, when the key held nothing, both calls reach the server and the read comes
  before the TTL has run out.\<close>

theorem put_then_get:
  assumes "mapping_ok m"
    and "NewDestinationURL ul (dest_String (m_destination m)) = Inr (m_destination m)"
    and "live_entry (rs_data s) (redirectKeyPrefix @ m_code m) = None"
    and "rs_network s (rs_calls s) = Delivered" "rs_network s (Suc (rs_calls s)) = Delivered"
    and "int (rs_elapse s (Suc (rs_calls s))) < Milliseconds ttl" "ttl < 2 ^ 63"
  shows "case RedisCache_PutIfNewer server_commands server_client None m ttl s of
    (q, s1) \<Rightarrow> q = None \<and>
      fst (RedisCache_Get ul server_client None (m_code m) s1)
        = Inr (m\<lparr>m_expiresAt := map_option to_millisecond (m_expiresAt m)\<rparr>)"
proof -
  have "0 < Milliseconds ttl" using assms(6) by linarith
  with assms obtain d where d: "RedisCache_PutIfNewer server_commands server_client None m ttl s
       = (None, s\<lparr>rs_data := d, rs_calls := Suc (rs_calls s)\<rparr>)"
    "map_of (live_fields (d\<lparr>rd_time := rd_time d + int (rs_elapse s (Suc (rs_calls s)))\<rparr>)
       (redirectKeyPrefix @ m_code m)) = encoded m"
    using put_writes by metis
  moreover from d(2) have "live_fields (d\<lparr>rd_time := rd_time d + int (rs_elapse s (Suc (rs_calls s)))\<rparr>)
       (redirectKeyPrefix @ m_code m) \<noteq> []"
    by (metis encoded_nonempty map_of.simps(1))
  moreover have "decode_fields ul (m_code m) (encoded m)
      = Inr (m\<lparr>m_expiresAt := map_option to_millisecond (m_expiresAt m)\<rparr>)"
    using as_read_stable [OF assms(1,2)] by (auto simp: as_read_def split: sum.splits)
  ultimately show ?thesis using assms(5)
    by (auto simp: RedisCache_Get_def server_client_def server_HGetAll_def server_call_delivered)
qed

section \<open>What the script decides\<close>

text \<open>C33: the script that stores a redirect, run on the server, refuses a version older than the one the key
  holds, and then changes nothing.  Any other version is stored, whether the key held an entry or not:
  the four fields of the key are the ones written, until the TTL has run out, and then the key holds
  nothing; no other key is touched.  The script compares decimal texts, by length and then in Lua's
  order on strings; on what the program writes that is the order of the numbers.\<close>

theorem putIfNewer_decides:
  assumes "server_HGET key ''version'' d = map_option FormatUint current" "0 < ms" "ms < 2 ^ 63"
  shows "case putIfNewerScript server_commands key dst st (FormatUint w) expires (FormatInt ms) d of
    (n, d') \<Rightarrow>
      if \<exists>v. current = Some v \<and> w < v then n = 0 \<and> d' = d
      else n = 1 \<and> rd_time d' = rd_time d \<and> (\<forall>k. k \<noteq> key \<longrightarrow> rd_keys d' k = rd_keys d k) \<and>
        (\<forall>t. server_hash (d'\<lparr>rd_time := t\<rparr>) key =
          (if t < rd_time d + ms
           then server_hash d key ++ [''destination'' \<mapsto> dst, ''status'' \<mapsto> st, ''version'' \<mapsto> FormatUint w,
             ''expires_at'' \<mapsto> expires]
           else Map.empty))"
proof (cases "\<exists>v. current = Some v \<and> w < v")
  case True
  with assms(1) show ?thesis
    by (auto simp: putIfNewerScript_def server_commands_def newer_version_FormatUint)
next
  case False
  have "\<not> (case server_HGET key ''version'' d of None \<Rightarrow> False | Some c \<Rightarrow> newer_version c (FormatUint w))"
    using False assms(1) by (cases current) (simp_all add: newer_version_FormatUint)
  moreover have "ParseInt (FormatInt ms) = Inr ms" using ParseInt_FormatInt assms(2,3) by simp
  ultimately have "putIfNewerScript server_commands key dst st (FormatUint w) expires (FormatInt ms) d =
      (1, d\<lparr>rd_keys := (rd_keys d)(key \<mapsto>
        \<lparr>re_fields = [(''expires_at'', expires), (''version'', FormatUint w), (''status'', st), (''destination'', dst)]
           @ live_fields d key,
         re_deadline = Some (rd_time d + ms)\<rparr>)\<rparr>)"
    by (simp add: putIfNewerScript_def server_commands_def server_PEXPIRE_def server_HSET_def live_entry_def
        live_fields_def split: option.splits if_splits)
  with False show ?thesis
    by (auto simp: server_hash_def live_fields_def live_entry_def fun_eq_iff map_add_def split: option.splits)
qed

definition sample_data :: redis_data where
  "sample_data =
     \<lparr>rd_keys = [''k'' \<mapsto> \<lparr>re_fields = [(''version'', ''9''), (''destination'', ''u'')], re_deadline = Some 50\<rparr>],
      rd_time = 7\<rparr>"

lemma putIfNewer_decides_witness:
  "putIfNewerScript server_commands ''k'' ''v'' ''active'' (FormatUint 8) '''' (FormatInt 100) sample_data = (0, sample_data)
   \<and> server_hash ((snd (putIfNewerScript server_commands ''k'' ''v'' ''active'' (FormatUint 10) '''' (FormatInt 100)
       sample_data))\<lparr>rd_time := 106\<rparr>) ''k''
     = [''destination'' \<mapsto> ''v'', ''status'' \<mapsto> ''active'', ''version'' \<mapsto> ''10'', ''expires_at'' \<mapsto> '''']
   \<and> server_hash ((snd (putIfNewerScript server_commands ''k'' ''v'' ''active'' (FormatUint 10) '''' (FormatInt 100)
       sample_data))\<lparr>rd_time := 107\<rparr>) ''k'' = Map.empty"
proof -
  have h: "server_HGET ''k'' ''version'' sample_data = map_option FormatUint (Some 9)" by code_simp
  have f: "FormatUint 10 = ''10''" by code_simp
  have "server_hash sample_data ''k'' = [''version'' \<mapsto> ''9'', ''destination'' \<mapsto> ''u'']"
    by (simp add: server_hash_def live_fields_def live_entry_def sample_data_def fun_eq_iff)
  then have m: "(server_hash sample_data ''k'')(''destination'' \<mapsto> ''v'', ''status'' \<mapsto> ''active'', ''version'' \<mapsto> x,
      ''expires_at'' \<mapsto> '''') = [''destination'' \<mapsto> ''v'', ''status'' \<mapsto> ''active'', ''version'' \<mapsto> x, ''expires_at'' \<mapsto> '''']" for x
    by (auto simp: fun_eq_iff)
  have t: "rd_time sample_data = 7" by (simp add: sample_data_def)
  show ?thesis
    using putIfNewer_decides [OF h, where ms = 100 and dst = "''v''" and st = "''active''" and w = 8 and expires = "''''"]
      putIfNewer_decides [OF h, where ms = 100 and dst = "''v''" and st = "''active''" and w = 10 and expires = "''''"]
    by (auto simp: m f t split: prod.splits)
qed

definition sample_server :: redis_server where
  "sample_server =
     \<lparr>rs_data = \<lparr>rd_keys = Map.empty, rd_time = 0\<rparr>, rs_calls = 0, rs_elapse = (\<lambda>_. 1),
      rs_network = (\<lambda>_. Delivered)\<rparr>"

lemma put_then_get_witness:
  "fst (RedisCache_Get id server_client None ''abc123''
      (snd (RedisCache_PutIfNewer server_commands server_client None (mapping_of sample_link) Second
        sample_server)))
   = Inr ((mapping_of sample_link)\<lparr>m_expiresAt := map_option to_millisecond (Some 5000)\<rparr>)"
proof -
  let ?m = "mapping_of sample_link"
  have m: "mapping_ok ?m" by simp
  have "NewDestinationURL id (dest_String (m_destination ?m)) = Inr (m_destination ?m)" by code_simp
  moreover have "live_entry (rs_data sample_server) (redirectKeyPrefix @ m_code ?m) = None"
    "rs_network sample_server (rs_calls sample_server) = Delivered"
    "rs_network sample_server (Suc (rs_calls sample_server)) = Delivered"
    by (simp_all add: sample_server_def live_entry_def)
  moreover have "int (rs_elapse sample_server (Suc (rs_calls sample_server))) < Milliseconds Second"
    "Second < 2 ^ 63"
    by (simp_all add: sample_server_def Milliseconds_def Second_def Millisecond_eq)
  moreover have "m_code ?m = ''abc123''" "m_expiresAt ?m = Some 5000"
    by (simp_all add: mapping_of_def sample_link_def ExpiresAt_def)
  ultimately show ?thesis
    using put_then_get [of ?m id sample_server Second] m by (auto split: prod.splits)
qed

end
