(* ===== verification/MemoryRepository.thy ===== *)
theory MemoryRepository
  imports Ports
begin

text \<open>
  \<^verbatim>\<open>internal/link/adapters/memory/repository.go\<close>: links in a Go map behind a read-write mutex.
  Each method holds the mutex for as long as it touches the map, so an operation is one atomic
  step on the map.  A context is given by what \<open>ctx.Err()\<close> returns at the start of the call.
\<close>

record memory_repository =
  links :: "string \<Rightarrow> link option"

definition NewRepository :: memory_repository where
  "NewRepository = \<lparr>links = Map.empty\<rparr>"

definition mem_Insert :: "ctx \<Rightarrow> link \<Rightarrow> memory_repository \<Rightarrow> err option \<times> memory_repository" where
  "mem_Insert ctx l r =
     (case ctx_Err ctx of
        Some e \<Rightarrow> (Some e, r)
      | None \<Rightarrow>
          (case links r (code l) of
             Some _ \<Rightarrow> (Some (Ports ErrLinkAlreadyExists), r)
           | None \<Rightarrow> (None, r\<lparr>links := (links r)(code l \<mapsto> l)\<rparr>)))"

definition mem_FindByCode ::
    "ctx \<Rightarrow> string \<Rightarrow> memory_repository \<Rightarrow> (err + link) \<times> memory_repository" where
  "mem_FindByCode ctx c r =
     (case ctx_Err ctx of
        Some e \<Rightarrow> (Inl e, r)
      | None \<Rightarrow>
          (case links r c of
             Some l \<Rightarrow> (Inr l, r)
           | None \<Rightarrow> (Inl (Ports ErrLinkNotFound), r)))"

definition mem_Update ::
    "ctx \<Rightarrow> link \<Rightarrow> u64 \<Rightarrow> memory_repository \<Rightarrow> err option \<times> memory_repository" where
  "mem_Update ctx l expectedVersion r =
     (case ctx_Err ctx of
        Some e \<Rightarrow> (Some e, r)
      | None \<Rightarrow>
          (case links r (code l) of
             None \<Rightarrow> (Some (Ports ErrLinkNotFound), r)
           | Some stored \<Rightarrow>
               if version stored \<noteq> expectedVersion then (Some (Ports ErrVersionConflict), r)
               else (None, r\<lparr>links := (links r)(code l \<mapsto> l)\<rparr>)))"

definition memory_link_repository :: "(ctx, memory_repository) link_repository" where
  "memory_link_repository =
     \<lparr>Insert = mem_Insert, FindByCode = mem_FindByCode, Update = mem_Update\<rparr>"

section \<open>The contract\<close>

definition mem_inv :: "memory_repository \<Rightarrow> bool" where
  "mem_inv r \<longleftrightarrow> (\<forall>k l. links r k = Some l \<longrightarrow> code l = k \<and> link_ok l)"

lemmas mem_ops = mem_Insert_def mem_FindByCode_def mem_Update_def memory_link_repository_def
  ctx_Err_def

lemma mem_inv_New [simp]: "mem_inv NewRepository"
  by (simp add: mem_inv_def NewRepository_def)

lemma mem_inv_put: "mem_inv r \<Longrightarrow> link_ok l \<Longrightarrow> mem_inv (r\<lparr>links := (links r)(code l \<mapsto> l)\<rparr>)"
  by (auto simp: mem_inv_def)

text \<open>
  The errors a memory operation returns besides its sentinels are those of the context, which are
  reported before the map is touched: no error is ambiguous.
\<close>

interpretation memory: repository_contract memory_link_repository links "\<lambda>l. l" mem_inv "\<lambda>_. False" link_ok
  by unfold_locales
    (auto simp: mem_ops mem_inv_put mem_inv_def split: option.splits if_splits)

end
