(* ===== verification/MemoryIdempotency.thy ===== *)
theory MemoryIdempotency
  imports Ports
begin

text \<open>
  \<^verbatim>\<open>internal/link/adapters/memory/idempotency.go\<close>: idempotency records in a Go map.  \<open>Save\<close>
  compares the stored link with the new one by Go's \<open>==\<close> on structs, which compares the
  \<open>expiresAt\<close> pointers as addresses; so does equality of the modelled records, whose
  \<open>expiresAt\<close> holds the address beside the instant.
\<close>

record idempotency_key =
  k_ownerID :: string
  k_key :: string

record memory_idempotency =
  records :: "idempotency_key \<Rightarrow> link option"

definition NewIdempotencyStore :: memory_idempotency where
  "NewIdempotencyStore = \<lparr>records = Map.empty\<rparr>"

definition mem_Get ::
    "ctx \<Rightarrow> string \<Rightarrow> string \<Rightarrow> memory_idempotency \<Rightarrow> (err + link) \<times> memory_idempotency" where
  "mem_Get ctx owner key s =
     (case ctx_Err ctx of
        Some e \<Rightarrow> (Inl e, s)
      | None \<Rightarrow>
          (case records s \<lparr>k_ownerID = owner, k_key = key\<rparr> of
             None \<Rightarrow> (Inl (Ports ErrIdempotencyKeyNotFound), s)
           | Some l \<Rightarrow> (Inr l, s)))"

definition mem_Save ::
    "ctx \<Rightarrow> string \<Rightarrow> string \<Rightarrow> link \<Rightarrow> memory_idempotency \<Rightarrow> err option \<times> memory_idempotency" where
  "mem_Save ctx owner key l s =
     (case ctx_Err ctx of
        Some e \<Rightarrow> (Some e, s)
      | None \<Rightarrow>
          (let recordKey = \<lparr>k_ownerID = owner, k_key = key\<rparr>
           in case records s recordKey of
                None \<Rightarrow> (None, s\<lparr>records := (records s)(recordKey \<mapsto> l)\<rparr>)
              | Some existing \<Rightarrow>
                  if existing \<noteq> l then (Some (Ports ErrIdempotencyKeyConflict), s)
                  else (None, s)))"

definition memory_idempotency_store :: "(ctx, memory_idempotency) idempotency_store" where
  "memory_idempotency_store = \<lparr>IdemGet = mem_Get, IdemSave = mem_Save\<rparr>"

definition mem_saved :: "memory_idempotency \<Rightarrow> string \<Rightarrow> string \<Rightarrow> link option" where
  "mem_saved s owner key = records s \<lparr>k_ownerID = owner, k_key = key\<rparr>"

lemmas mem_idem_ops = mem_Get_def mem_Save_def memory_idempotency_store_def ctx_Err_def

interpretation memory_idem: idempotency_contract memory_idempotency_store mem_saved "(=)" "\<lambda>_ l. l" "\<lambda>_. True" "\<lambda>l. l" "\<lambda>_. False"
  by unfold_locales
    (auto simp: mem_idem_ops mem_saved_def Let_def fun_eq_iff split: option.splits if_splits)

section \<open>Theorems\<close>

text \<open>Two links that agree in every value, but whose expiry was copied to different addresses, are
  different links for \<open>Save\<close>.
\<close>

theorem Save_compares_pointers:
  assumes "mem_Save None owner key l s = (None, s1)" "mem_saved s owner key = None"
    "expiresAt l = Some (TimeRef a t)" "a \<noteq> b"
  shows "mem_Save None owner key l s1 = (None, s1) \<and>
    mem_Save None owner key (l\<lparr>expiresAt := Some (TimeRef b t)\<rparr>) s1
      = (Some (Ports ErrIdempotencyKeyConflict), s1)"
proof -
  have "records s1 \<lparr>k_ownerID = owner, k_key = key\<rparr> = Some l"
    using assms(1,2) by (auto simp: mem_Save_def mem_saved_def Let_def)
  moreover have "l \<noteq> l\<lparr>expiresAt := Some (TimeRef b t)\<rparr>"
    using assms(3,4) by (metis link.select_convs(7) link.surjective link.update_convs(7)
        option.inject time_ref.inject)
  ultimately show ?thesis by (auto simp: mem_Save_def Let_def)
qed


theorem Save_compares_pointers_witness:
  "mem_Save None ''alice'' ''k'' (sample_link\<lparr>expiresAt := Some (TimeRef 8 5000)\<rparr>)
     (snd (mem_Save None ''alice'' ''k'' sample_link NewIdempotencyStore))
   = (Some (Ports ErrIdempotencyKeyConflict), snd (mem_Save None ''alice'' ''k'' sample_link NewIdempotencyStore))"
proof -
  have "mem_Save None ''alice'' ''k'' sample_link NewIdempotencyStore
      = (None, snd (mem_Save None ''alice'' ''k'' sample_link NewIdempotencyStore))"
    by (simp add: mem_Save_def NewIdempotencyStore_def Let_def)
  from Save_compares_pointers [OF this, of 7 5000 8] show ?thesis
    by (simp add: mem_saved_def NewIdempotencyStore_def sample_link_def)
qed

end
