(* ===== verification/GoFloat.thy ===== *)
theory GoFloat
  imports Complex_Main
begin

text \<open>
  Go's \<open>float64\<close>, as rational numbers: each operation of the program is the exact one, rounded.
\<close>

text \<open>A rational number in the 53 bits of a \<open>float64\<close>, rounded to the nearest, ties to even.  The
  numbers rounded here are far from the smallest and the largest exponent, except for fractions of
  hundreds of digits, which are worth nothing with either.\<close>

definition round_even :: "rat \<Rightarrow> int" where
  "round_even x =
     (let n = \<lfloor>x\<rfloor>; r = x - of_int n
      in if r < 1 / 2 \<or> r = 1 / 2 \<and> even n then n else n + 1)"

function bit_count :: "int \<Rightarrow> int" where
  "bit_count n = (if n \<le> 0 then 0 else 1 + bit_count (n div 2))"
  by pat_completeness auto
termination by (relation "measure nat") auto

declare bit_count.simps [simp del]

definition scaled :: "rat \<Rightarrow> int \<Rightarrow> rat" where
  "scaled x k = (if 0 \<le> k then x * 2 ^ nat k else x / 2 ^ nat (- k))"

definition float64_pos :: "rat \<Rightarrow> rat" where
  "float64_pos x =
     (case quotient_of x of
        (n, d) \<Rightarrow>
          let k = 53 - (bit_count n - bit_count d);
              k = (if scaled x k < 2 ^ 52 then k + 1 else if 2 ^ 53 \<le> scaled x k then k - 1 else k)
          in scaled (of_int (round_even (scaled x k))) (- k))"

definition float64 :: "rat \<Rightarrow> rat" where
  "float64 x = sgn x * float64_pos \<bar>x\<bar>"

lemma float64_samples:
  "float64 0 = 0" "float64 (3 / 2) = 3 / 2" "float64 (- 3) = - 3"
  "float64 (2 ^ 53 + 1) = 2 ^ 53" "float64 (2 ^ 53 + 3) = 2 ^ 53 + 4"
  by code_simp+

end
