(* ===== verification/Metrics.thy ===== *)
theory Metrics
  imports GoStrings GoFloat
begin

text \<open>
  \<^verbatim>\<open>internal/metrics/recorder.go\<close> (its HTTP handler is in theory \<open>Health\<close>): counters and latency histograms
  behind a mutex, so that every method is one atomic step on the recorder.  A method of a \<open>nil\<close>
  recorder is called on \<open>None\<close>.
\<close>

section \<open>Printing durations\<close>

text \<open>\<open>d.String()\<close> of package \<open>time\<close>, for \<open>0 \<le> d\<close>: the fraction without trailing zeros, then
  the whole units.\<close>

fun frac_digits :: "nat \<Rightarrow> int \<Rightarrow> string" where
  "frac_digits 0 v = []"
| "frac_digits (Suc prec) v = frac_digits prec (v div 10) @ [digit (nat (v mod 10))]"

definition fmtFrac :: "int \<Rightarrow> nat \<Rightarrow> string" where
  "fmtFrac v prec =
     (let ds = TrimRight CHR ''0'' (frac_digits prec (v mod 10 ^ prec))
      in FormatInt (v div 10 ^ prec) @ (if ds = [] then [] else CHR ''.'' # ds))"

definition fmtSeconds :: "duration \<Rightarrow> string" where
  "fmtSeconds u =
     (let s = u div 10 ^ 9;
          frac = fmtFrac (u mod (60 * 10 ^ 9)) 9 @ ''s''
      in if s < 60 then frac
         else if s div 60 < 60 then FormatInt (s div 60) @ ''m'' @ frac
         else FormatInt (s div 3600) @ ''h'' @ FormatInt (s div 60 mod 60) @ ''m'' @ frac)"

definition Duration_String :: "duration \<Rightarrow> string" where
  "Duration_String u =
     (if u = 0 then ''0s''
      else if u < 10 ^ 3 then FormatInt u @ ''ns''
      else if u < 10 ^ 6 then fmtFrac u 3 @ [char_of (0xC2 :: nat), char_of (0xB5 :: nat)] @ ''s''
      else if u < 10 ^ 9 then fmtFrac u 6 @ ''ms''
      else fmtSeconds u)"

section \<open>Histograms\<close>

definition latencyBuckets :: "duration list" where
  "latencyBuckets =
     [Millisecond, 5 * Millisecond, 10 * Millisecond, 25 * Millisecond, 50 * Millisecond,
      100 * Millisecond, 250 * Millisecond, 500 * Millisecond, Second]"

record histogram =
  h_count :: u64
  h_total :: duration
  h_min :: duration
  h_max :: duration
  h_buckets :: "u64 list"

definition newHistogram :: histogram where
  "newHistogram =
     \<lparr>h_count = 0, h_total = 0, h_min = 0, h_max = 0,
      h_buckets = replicate (length latencyBuckets + 1) 0\<rparr>"

text \<open>The loop over the buckets: the first whose bound is not exceeded is counted up.\<close>

fun observe_bucket :: "nat \<Rightarrow> duration list \<Rightarrow> duration \<Rightarrow> u64 list \<Rightarrow> u64 list" where
  "observe_bucket index [] d bs = bs[length bs - 1 := bs ! (length bs - 1) + 1]"
| "observe_bucket index (bucket # buckets) d bs =
     (if d \<le> bucket then bs[index := bs ! index + 1]
      else observe_bucket (Suc index) buckets d bs)"

definition observe :: "duration \<Rightarrow> histogram \<Rightarrow> histogram" where
  "observe d h =
     (let h1 = (if h_count h = 0 \<or> d < h_min h then h\<lparr>h_min := d\<rparr> else h);
          h2 = (if d > h_max h1 then h1\<lparr>h_max := d\<rparr> else h1);
          h3 = h2\<lparr>h_count := h_count h2 + 1, h_total := int64 (h_total h2 + d)\<rparr>
      in h3\<lparr>h_buckets := observe_bucket 0 latencyBuckets d (h_buckets h3)\<rparr>)"

fun percentile_loop :: "nat \<Rightarrow> u64 \<Rightarrow> u64 \<Rightarrow> u64 list \<Rightarrow> duration \<Rightarrow> duration" where
  "percentile_loop index seen threshold [] hmax = hmax"
| "percentile_loop index seen threshold (count # counts) hmax =
     (let seen = seen + count
      in if seen < threshold then percentile_loop (Suc index) seen threshold counts hmax
         else if index < length latencyBuckets then latencyBuckets ! index
         else hmax)"

definition percentileUpperBound :: "u64 \<Rightarrow> histogram \<Rightarrow> duration" where
  "percentileUpperBound percentile h =
     (let threshold = (h_count h * percentile + 99) div 100;
          threshold = (if threshold = 0 then 1 else threshold)
      in percentile_loop 0 0 threshold (h_buckets h) (h_max h))"

text \<open>The cumulative counts of a snapshot, as the list of its entries.\<close>

fun bucket_loop :: "nat \<Rightarrow> u64 \<Rightarrow> u64 list \<Rightarrow> (string \<times> u64) list" where
  "bucket_loop index cumulative [] = []"
| "bucket_loop index cumulative (v # vs) =
     (if index < length latencyBuckets then
        (let cumulative = cumulative + v
         in (''le_'' @ Duration_String (latencyBuckets ! index), cumulative)
              # bucket_loop (Suc index) cumulative vs)
      else (''gt_'' @ Duration_String (latencyBuckets ! (length latencyBuckets - 1)), v)
              # bucket_loop (Suc index) cumulative vs)"

definition bucketSnapshot :: "u64 list \<Rightarrow> (string \<times> u64) list" where
  "bucketSnapshot values = bucket_loop 0 0 values"

text \<open>\<open>duration.Microseconds()\<close> rounds toward zero, as does the division of \<open>int64\<close>.\<close>

definition quot :: "int \<Rightarrow> int \<Rightarrow> int" where
  "quot a b = sgn a * sgn b * (\<bar>a\<bar> div \<bar>b\<bar>)"

definition milliseconds :: "duration \<Rightarrow> rat" where
  "milliseconds d = float64 (float64 (of_int (quot d 1000)) / 1000)"

record HistogramSnapshot =
  Count :: u64
  MinMS :: rat
  MaxMS :: rat
  AvgMS :: rat
  P50MS :: rat
  P95MS :: rat
  P99MS :: rat
  Buckets :: "(string \<times> u64) list"

definition histogram_snapshot :: "histogram \<Rightarrow> HistogramSnapshot" where
  "histogram_snapshot h =
     (if h_count h = 0 then
        \<lparr>Count = 0, MinMS = 0, MaxMS = 0, AvgMS = 0, P50MS = 0, P95MS = 0, P99MS = 0,
         Buckets = bucketSnapshot (h_buckets h)\<rparr>
      else
        \<lparr>Count = h_count h, MinMS = milliseconds (h_min h), MaxMS = milliseconds (h_max h),
         AvgMS = milliseconds (quot (h_total h) (int64 (uint (h_count h)))),
         P50MS = milliseconds (percentileUpperBound 50 h),
         P95MS = milliseconds (percentileUpperBound 95 h),
         P99MS = milliseconds (percentileUpperBound 99 h),
         Buckets = bucketSnapshot (h_buckets h)\<rparr>)"

section \<open>The recorder\<close>

record Recorder =
  startedAt :: time
  counters :: "string \<Rightarrow> u64 option"
  histograms :: "string \<Rightarrow> histogram option"

definition NewRecorder :: "time \<Rightarrow> Recorder option" where
  "NewRecorder now = Some \<lparr>startedAt = now, counters = Map.empty, histograms = Map.empty\<rparr>"

definition counter :: "Recorder \<Rightarrow> string \<Rightarrow> u64" where
  "counter r name = (case counters r name of None \<Rightarrow> 0 | Some v \<Rightarrow> v)"

definition IncCounter :: "string \<Rightarrow> Recorder option \<Rightarrow> Recorder option" where
  "IncCounter name r =
     (case r of
        None \<Rightarrow> None
      | Some x \<Rightarrow>
          if name = [] then Some x
          else Some (x\<lparr>counters := (counters x)(name \<mapsto> counter x name + 1)\<rparr>))"

definition ObserveDuration :: "string \<Rightarrow> duration \<Rightarrow> Recorder option \<Rightarrow> Recorder option" where
  "ObserveDuration name d r =
     (case r of
        None \<Rightarrow> None
      | Some x \<Rightarrow>
          if name = [] then Some x
          else
            let d = (if d < 0 then 0 else d);
                h = (case histograms x name of None \<Rightarrow> newHistogram | Some h \<Rightarrow> h)
            in Some (x\<lparr>histograms := (histograms x)(name \<mapsto> observe d h)\<rparr>))"

definition RecordRedirect :: "string \<Rightarrow> duration \<Rightarrow> Recorder option \<Rightarrow> Recorder option" where
  "RecordRedirect result d r =
     (let result = (if result = [] then ''unknown'' else result);
          r = IncCounter ''redirect.requests.total'' r;
          r = IncCounter (''redirect.requests.'' @ result) r
      in ObserveDuration ''redirect.latency'' d r)"

definition Recorder_CacheGet :: "string \<Rightarrow> duration \<Rightarrow> Recorder option \<Rightarrow> Recorder option" where
  "Recorder_CacheGet result d r =
     (let result = (if result = [] then ''unknown'' else result);
          r = IncCounter ''cache.get.total'' r;
          r = IncCounter (''cache.get.'' @ result) r
      in ObserveDuration ''cache.get.latency'' d r)"

definition Recorder_CachePut :: "string \<Rightarrow> duration \<Rightarrow> Recorder option \<Rightarrow> Recorder option" where
  "Recorder_CachePut result d r =
     (let result = (if result = [] then ''unknown'' else result);
          r = IncCounter ''cache.put.total'' r;
          r = IncCounter (''cache.put.'' @ result) r
      in ObserveDuration ''cache.put.latency'' d r)"

definition Recorder_SourceLookup :: "string \<Rightarrow> duration \<Rightarrow> Recorder option \<Rightarrow> Recorder option" where
  "Recorder_SourceLookup result d r =
     (let result = (if result = [] then ''unknown'' else result);
          r = IncCounter ''source.lookup.total'' r;
          r = IncCounter (''source.lookup.'' @ result) r
      in ObserveDuration ''source.lookup.latency'' d r)"

definition RecordAnalytics :: "string \<Rightarrow> duration \<Rightarrow> Recorder option \<Rightarrow> Recorder option" where
  "RecordAnalytics result d r =
     (let result = (if result = [] then ''unknown'' else result);
          r = IncCounter ''analytics.record.total'' r;
          r = IncCounter (''analytics.record.'' @ result) r
      in ObserveDuration ''analytics.record.latency'' d r)"

record Snapshot =
  Status :: string
  StartedAt :: time
  UptimeSeconds :: int
  Counters :: "string \<Rightarrow> u64 option"
  Histograms :: "string \<Rightarrow> HistogramSnapshot option"

definition Recorder_Snapshot :: "time \<Rightarrow> Recorder option \<Rightarrow> Snapshot" where
  "Recorder_Snapshot now r =
     (case r of
        None \<Rightarrow>
          \<lparr>Status = ''disabled'', StartedAt = 0, UptimeSeconds = 0, Counters = Map.empty,
           Histograms = Map.empty\<rparr>
      | Some x \<Rightarrow>
          \<lparr>Status = ''ok'', StartedAt = startedAt x,
           UptimeSeconds = quot (Sub now (startedAt x)) Second, Counters = counters x,
           Histograms = (\<lambda>name. map_option histogram_snapshot (histograms x name))\<rparr>)"


section \<open>What a histogram knows of its observations\<close>

definition observe_all :: "duration list \<Rightarrow> histogram" where
  "observe_all ds = fold observe ds newHistogram"

definition bucket_of :: "duration \<Rightarrow> nat" where
  "bucket_of d = length (takeWhile (\<lambda>b. b < d) latencyBuckets)"

definition in_bucket :: "duration list \<Rightarrow> nat \<Rightarrow> nat" where
  "in_bucket ds i = length (filter (\<lambda>d. bucket_of d = i) ds)"

lemma length_latencyBuckets [simp]: "length latencyBuckets = 9"
  by (simp add: latencyBuckets_def)

lemma bucket_of_less: "bucket_of d < 10"
  using length_takeWhile_le [of "\<lambda>b. b < d" latencyBuckets] by (simp add: bucket_of_def)

lemma observe_bucket_eq:
  "length bs = i + length bl + 1 \<Longrightarrow>
     observe_bucket i bl d bs =
       (let k = i + length (takeWhile (\<lambda>b. b < d) bl) in bs[k := bs ! k + 1])"
  by (induction bl arbitrary: i) (auto simp: Let_def not_le)

lemma sorted_latencyBuckets: "sorted latencyBuckets"
  by (simp add: latencyBuckets_def Second_def Millisecond_def Nanosecond_def)

lemma bucket_of_bound:
  assumes "bucket_of d \<le> i" "i < 9"
  shows "d \<le> latencyBuckets ! i"
proof -
  have "\<not> latencyBuckets ! bucket_of d < d"
    using nth_length_takeWhile [of "\<lambda>b. b < d" latencyBuckets] assms by (simp add: bucket_of_def)
  moreover have "latencyBuckets ! bucket_of d \<le> latencyBuckets ! i"
    using sorted_latencyBuckets assms by (intro sorted_nth_mono) auto
  ultimately show ?thesis by linarith
qed

lemma in_bucket_sum: "sum_list (map (in_bucket ds) [0..<k]) = length (filter (\<lambda>d. bucket_of d < k) ds)"
proof (induction k)
  case (Suc k)
  have "filter (\<lambda>d. bucket_of d < Suc k) ds = filter (\<lambda>d. bucket_of d < k \<or> bucket_of d = k) ds"
    by (simp add: less_Suc_eq)
  moreover have "length (filter (\<lambda>d. bucket_of d < k \<or> bucket_of d = k) ds)
      = length (filter (\<lambda>d. bucket_of d < k) ds) + length (filter (\<lambda>d. bucket_of d = k) ds)"
    by (induction ds) auto
  ultimately show ?case using Suc by (simp add: in_bucket_def)
qed simp

lemma observe_all_snoc: "observe_all (ds @ [d]) = observe d (observe_all ds)"
  by (simp add: observe_all_def)

lemma observe_all_Nil: "observe_all [] = newHistogram"
  by (simp add: observe_all_def)

lemma observe_buckets:
  "length (h_buckets h) = 10 \<Longrightarrow>
     h_buckets (observe d h) = (h_buckets h)[bucket_of d := h_buckets h ! bucket_of d + 1]"
  by (simp add: observe_def Let_def observe_bucket_eq bucket_of_def)

lemma observe_fields:
  "h_count (observe d h) = h_count h + 1" "h_total (observe d h) = int64 (h_total h + d)"
  "h_min (observe d h) = (if h_count h = 0 \<or> d < h_min h then d else h_min h)"
  "h_max (observe d h) = (if d > h_max h then d else h_max h)"
  by (simp_all add: observe_def Let_def)

lemma observe_all_count: "h_count (observe_all ds) = of_nat (length ds)"
  by (induction ds rule: rev_induct)
    (simp_all add: observe_all_Nil observe_all_snoc observe_fields newHistogram_def)

lemma observe_all_buckets: "h_buckets (observe_all ds) = map (of_nat \<circ> in_bucket ds) [0..<10]"
proof (induction ds rule: rev_induct)
  case Nil
  show ?case
    by (rule nth_equalityI) (auto simp: observe_all_Nil newHistogram_def in_bucket_def nth_replicate)
next
  case (snoc d ds)
  have "h_buckets (observe_all (ds @ [d])) =
      (map (of_nat \<circ> in_bucket ds) [0..<10])[bucket_of d := of_nat (in_bucket ds (bucket_of d)) + 1]"
    using snoc bucket_of_less [of d] by (simp add: observe_all_snoc observe_buckets comp_def)
  also have "\<dots> = map (of_nat \<circ> in_bucket (ds @ [d])) [0..<10]"
    using bucket_of_less [of d]
    by (intro nth_equalityI) (auto simp: nth_list_update in_bucket_def)
  finally show ?case .
qed

lemma observe_all_max: "x \<in> set ds \<Longrightarrow> x \<le> h_max (observe_all ds)"
  by (induction ds rule: rev_induct) (auto simp: observe_all_snoc observe_fields)

lemma observe_all_counts:
  assumes "length ds * 100 + 99 < 2 ^ 64"
  shows "map unat (h_buckets (observe_all ds)) = map (in_bucket ds) [0..<10]"
proof -
  have "in_bucket ds i < 2 ^ 64" for i
  proof -
    have "in_bucket ds i \<le> length ds" by (simp add: in_bucket_def length_filter_le)
    with assms show ?thesis by linarith
  qed
  then show ?thesis by (simp add: observe_all_buckets unat_of_nat)
qed

lemma percentile_loop_cases:
  assumes "unat seen + sum_list (map unat bs) < 2 ^ 64"
  shows "percentile_loop i seen threshold bs hmax = hmax \<or>
    (\<exists>k < length bs. i + k < 9 \<and>
       percentile_loop i seen threshold bs hmax = latencyBuckets ! (i + k) \<and>
       unat threshold \<le> unat seen + sum_list (map unat (take (Suc k) bs)))"
  using assms
proof (induction bs arbitrary: i seen)
  case (Cons b bs)
  then have add: "unat (seen + b) = unat seen + unat b" by (simp add: unat_word_ariths)
  show ?case
  proof (cases "seen + b < threshold")
    case True
    from Cons.IH [of "seen + b" "Suc i"] Cons.prems add
    consider "percentile_loop (Suc i) (seen + b) threshold bs hmax = hmax"
      | k where "k < length bs" "Suc i + k < 9"
          "percentile_loop (Suc i) (seen + b) threshold bs hmax = latencyBuckets ! (Suc i + k)"
          "unat threshold \<le> unat seen + unat b + sum_list (map unat (take (Suc k) bs))"
      by auto
    then show ?thesis
    proof cases
      case 2
      with True show ?thesis by (intro disjI2 exI [of _ "Suc k"]) simp
    qed (simp add: True)
  next
    case False
    then have "unat threshold \<le> unat seen + unat b" using add by (simp add: word_less_nat_alt)
    with False show ?thesis by (auto intro: exI [of _ 0])
  qed
qed simp

section \<open>What the counters know of the events\<close>

lemma counter_IncCounter:
  "name \<noteq> [] \<Longrightarrow> IncCounter name (Some x) = Some y \<Longrightarrow>
     counter y k = (if k = name then counter x k + 1 else counter x k)"
  by (auto simp: IncCounter_def counter_def)

lemma counter_ObserveDuration:
  "ObserveDuration name d (Some x) = Some y \<Longrightarrow> counter y k = counter x k"
  by (auto simp: ObserveDuration_def counter_def Let_def split: if_splits)

lemma IncCounter_Some: "\<exists>y. IncCounter name (Some x) = Some y"
  by (simp add: IncCounter_def)

lemma ObserveDuration_Some: "\<exists>y. ObserveDuration name d (Some x) = Some y"
  by (simp add: ObserveDuration_def Let_def)

lemma Recorder_CacheGet_counter:
  assumes "result \<noteq> []"
  shows "\<exists>y. Recorder_CacheGet result d (Some x) = Some y \<and>
    (\<forall>k. counter y k = counter x k + (if k = ''cache.get.total'' then 1 else 0)
       + (if k = ''cache.get.'' @ result then 1 else 0))"
proof -
  obtain a where a: "IncCounter ''cache.get.total'' (Some x) = Some a" using IncCounter_Some by blast
  obtain b where b: "IncCounter (''cache.get.'' @ result) (Some a) = Some b"
    using IncCounter_Some by blast
  obtain c where c: "ObserveDuration ''cache.get.latency'' d (Some b) = Some c"
    using ObserveDuration_Some by blast
  from a b c assms show ?thesis
    by (auto simp: Recorder_CacheGet_def Let_def counter_ObserveDuration [OF c]
        counter_IncCounter [OF _ b] counter_IncCounter [OF _ a])
qed

definition cache_gets :: "(string \<times> duration) list \<Rightarrow> Recorder option \<Rightarrow> Recorder option" where
  "cache_gets = fold (\<lambda>(result, d). Recorder_CacheGet result d)"

lemma cache_gets_counts:
  assumes "\<forall>e \<in> set es. fst e \<noteq> [] \<and> fst e \<noteq> ''total''"
  shows "\<exists>x. cache_gets es (NewRecorder now) = Some x \<and>
    counter x ''cache.get.total'' = of_nat (length es) \<and>
    (\<forall>k. k \<noteq> ''total'' \<longrightarrow>
       counter x (''cache.get.'' @ k) = of_nat (length (filter (\<lambda>e. fst e = k) es)))"
  using assms
proof (induction es rule: rev_induct)
  case Nil
  then show ?case by (simp add: cache_gets_def NewRecorder_def counter_def)
next
  case (snoc e es)
  then obtain x where x: "cache_gets es (NewRecorder now) = Some x"
    "counter x ''cache.get.total'' = of_nat (length es)"
    "\<And>k. k \<noteq> ''total'' \<Longrightarrow>
       counter x (''cache.get.'' @ k) = of_nat (length (filter (\<lambda>e. fst e = k) es))"
    by auto
  obtain r d where e: "e = (r, d)" by fastforce
  with snoc.prems have r: "r \<noteq> []" "r \<noteq> ''total''" by auto
  from Recorder_CacheGet_counter [OF r(1), of d x] obtain y where
    y: "Recorder_CacheGet r d (Some x) = Some y"
    "\<And>k. counter y k = counter x k + (if k = ''cache.get.total'' then 1 else 0)
       + (if k = ''cache.get.'' @ r then 1 else 0)" by blast
  have "cache_gets (es @ [e]) (NewRecorder now) = Some y"
    using x(1) y(1) e by (simp add: cache_gets_def)
  with x y(2) r e show ?case by auto
qed

section \<open>Theorems\<close>

text \<open>After any number of cache reads the total counter is their number, and the counter of a
  result the number of reads with that result (modulo \<open>2 ^ 64\<close>).\<close>

theorem cache_get_totals:
  assumes "\<forall>e \<in> set es. fst e \<noteq> [] \<and> fst e \<noteq> ''total''"
  shows "\<exists>x. cache_gets es (NewRecorder now) = Some x \<and>
    counter x ''cache.get.total'' = of_nat (length es) \<and>
    (\<forall>k. k \<noteq> ''total'' \<longrightarrow>
       counter x (''cache.get.'' @ k) = of_nat (length (filter (\<lambda>e. fst e = k) es)))"
  using assms by (rule cache_gets_counts)

theorem cache_get_totals_witness:
  "\<exists>x. cache_gets [(''hit'', 5), (''miss'', 7), (''hit'', 9)] (NewRecorder 0) = Some x \<and>
     counter x ''cache.get.total'' = 3 \<and> counter x ''cache.get.hit'' = 2"
proof -
  obtain x where x: "cache_gets [(''hit'', 5), (''miss'', 7), (''hit'', 9)] (NewRecorder 0) = Some x"
    "counter x ''cache.get.total'' = 3"
    "\<And>k. k \<noteq> ''total'' \<Longrightarrow> counter x (''cache.get.'' @ k)
       = of_nat (length (filter (\<lambda>e. fst e = k) [(''hit'', 5 :: duration), (''miss'', 7), (''hit'', 9)]))"
    using cache_get_totals [of "[(''hit'', 5), (''miss'', 7), (''hit'', 9)]" 0] by auto
  from x(3) [of "''hit''"] have "counter x ''cache.get.hit'' = 2" by simp
  with x(1,2) show ?thesis by blast
qed

text \<open>C40: at least \<open>p\<close> percent of the observed durations do not exceed the value reported as the
  \<open>p\<close>-th percentile, as long as the number of observations times 100 fits in 64 bits.\<close>

theorem percentile_covers:
  assumes "p \<le> 100" "length ds * 100 + 99 < 2 ^ 64"
  shows "p * length ds \<le>
    100 * length (filter (\<lambda>d. d \<le> percentileUpperBound (of_nat p) (observe_all ds)) ds)"
proof -
  let ?n = "length ds" and ?h = "observe_all ds"
  let ?t = "(h_count ?h * of_nat p + 99) div 100 :: u64"
  let ?r = "percentileUpperBound (of_nat p) ?h"
  have "p * ?n \<le> 100 * ?n" using assms(1) by (rule mult_le_mono1)
  then have small: "p * ?n + 99 < 2 ^ 64" using assms(2) by linarith
  have "h_count ?h * of_nat p + 99 = (of_nat (?n * p + 99) :: u64)" by (simp add: observe_all_count)
  then have t: "unat ?t = (?n * p + 99) div 100"
    using small by (simp only: unat_div unat_of_nat) (simp add: mult.commute)
  note counts = observe_all_counts [OF assms(2)]
  from counts have "sum_list (map unat (h_buckets ?h)) = length (filter (\<lambda>d. bucket_of d < 10) ds)"
    by (simp only: in_bucket_sum)
  also have "\<dots> = ?n" using bucket_of_less by simp
  finally have total: "unat (0 :: u64) + sum_list (map unat (h_buckets ?h)) < 2 ^ 64"
    using assms(2) by simp
  have enough: "p * ?n \<le> 100 * m" if "(?n * p + 99) div 100 \<le> m" for m
    using that by (simp add: mult.commute)
  from percentile_loop_cases [OF total, of 0 "if ?t = 0 then 1 else ?t" "h_max ?h"]
  consider "?r = h_max ?h"
    | k where "k < 9" "?r = latencyBuckets ! k"
        "unat ?t \<le> sum_list (map unat (take (Suc k) (h_buckets ?h)))"
    by (auto simp: percentileUpperBound_def Let_def split: if_splits)
  then show ?thesis
  proof cases
    case 1
    have "filter (\<lambda>d. d \<le> ?r) ds = ds"
      using observe_all_max 1 by (auto intro!: filter_True)
    with \<open>p * ?n \<le> 100 * ?n\<close> show ?thesis by simp
  next
    case 2
    have "take (Suc k) [0..<10] = [0..<Suc k]" using 2(1) by (simp add: take_upt del: upt_Suc)
    then have "sum_list (map unat (take (Suc k) (h_buckets ?h))) = length (filter (\<lambda>d. bucket_of d < Suc k) ds)"
      using counts by (metis in_bucket_sum take_map)
    also have "\<dots> \<le> length (filter (\<lambda>d. d \<le> ?r) ds)"
      using bucket_of_bound 2(1,2) by (intro length_filter_mono) auto
    finally have "(?n * p + 99) div 100 \<le> length (filter (\<lambda>d. d \<le> ?r) ds)"
      using 2(3) t by linarith
    then show ?thesis by (rule enough)
  qed
qed


theorem percentile_covers_witness:
  "50 * length [3000000, 2000000000 :: duration] \<le>
     100 * length (filter (\<lambda>d. d \<le> percentileUpperBound (of_nat 50) (observe_all [3000000, 2000000000]))
       [3000000, 2000000000])"
  by (rule percentile_covers) simp_all

end
