(* ===== verification/Analytics.thy ===== *)
theory Analytics
  imports GoStrings
begin

text \<open>
  \<^verbatim>\<open>internal/analytics\<close>: the redirect events (\<^verbatim>\<open>domain\<close>), the port of their recorder, and the
  recorder in memory (\<^verbatim>\<open>adapters/memory\<close>), whose methods are atomic steps.
\<close>

section \<open>The event\<close>

record redirect_event =
  ev_Code :: string
  ev_OccurredAt :: time
  ev_UserAgent :: string
  ev_Referer :: string
  ev_IP :: string

definition NewRedirectEvent :: "string \<Rightarrow> time \<Rightarrow> string \<Rightarrow> string \<Rightarrow> string \<Rightarrow> err + redirect_event" where
  "NewRedirectEvent c occurredAt userAgent referer ip =
     (if TrimSpace c = [] then Inl (Analytics ErrEmptyAnalyticsCode)
      else if occurredAt = 0 then Inl (Analytics ErrZeroOccurredAt)
      else
        Inr \<lparr>ev_Code = c, ev_OccurredAt = occurredAt, ev_UserAgent = userAgent,
             ev_Referer = referer, ev_IP = ip\<rparr>)"

section \<open>The port\<close>

type_synonym ('c, 's) redirect_event_recorder = "'c \<Rightarrow> redirect_event \<Rightarrow> 's \<Rightarrow> err option \<times> 's"

section \<open>The recorder in memory\<close>

record memory_events =
  events :: "redirect_event list"

definition NewRedirectEventRecorder :: memory_events where
  "NewRedirectEventRecorder = \<lparr>events = []\<rparr>"

definition events_Record :: "(ctx, memory_events) redirect_event_recorder" where
  "events_Record ctx event r =
     (case ctx_Err ctx of
        Some e \<Rightarrow> (Some e, r)
      | None \<Rightarrow> (None, r\<lparr>events := events r @ [event]\<rparr>))"

definition Events :: "memory_events \<Rightarrow> redirect_event list" where
  "Events r = events r"

lemma Record_events:
  "events_Record ctx event r = (q, r') \<Longrightarrow>
     Events r' = (if q = None then Events r @ [event] else Events r)"
  by (cases ctx) (auto simp: events_Record_def Events_def)

end
