(* ===== verification/World.thy ===== *)
theory World
  imports CreateLink CacheCoherence CodeGen RedisServer MemoryRepository MemoryIdempotency Metrics Analytics
begin

text \<open>
  The program as \<^verbatim>\<open>cmd/linkd/main.go\<close> wires it over memory storage, with and without the Redis
  cache: one state that every port acts on, and the interpretations of the contracts on it.  The
  readings of the clock, the bytes of the random source, the passing of time on the Redis server
  and the failures of the network are arbitrary parts of the state.
\<close>

section \<open>The state\<close>

record world =
  w_links :: memory_repository
  w_idem :: memory_idempotency
  w_redis :: redis_server
  w_metrics :: "Recorder option"
  w_events :: memory_events
  w_clock :: "nat \<Rightarrow> time"
  w_reads :: nat
  w_heap :: nat
  w_random :: "byte list"

text \<open>\<^verbatim>\<open>internal/link/adapters/system/clock.go\<close>: every reading is the next one.\<close>

definition world_Now :: "world clock" where
  "world_Now w = (w_clock w (w_reads w), w\<lparr>w_reads := Suc (w_reads w)\<rparr>)"

definition world_alloc :: "world allocator" where
  "world_alloc w = (w_heap w, w\<lparr>w_heap := Suc (w_heap w)\<rparr>)"

text \<open>\<^verbatim>\<open>NewBase62Generator\<close>: the default length, over the bytes that are left.\<close>

definition world_Generate :: "(ctx, world) code_generator" where
  "world_Generate c w =
     (case the (Generate (\<lambda>_. c) bytes_reader defaultCodeLength (w_random w)) of
        (r, tape) \<Rightarrow> (r, w\<lparr>w_random := tape\<rparr>))"

definition put_links :: "memory_repository \<Rightarrow> world \<Rightarrow> world" where
  "put_links x w = w\<lparr>w_links := x\<rparr>"

definition put_idem :: "memory_idempotency \<Rightarrow> world \<Rightarrow> world" where
  "put_idem x w = w\<lparr>w_idem := x\<rparr>"

definition put_redis :: "redis_server \<Rightarrow> world \<Rightarrow> world" where
  "put_redis x w = w\<lparr>w_redis := x\<rparr>"

definition world_repo :: "(ctx, world) link_repository" where
  "world_repo = lift_repository w_links put_links memory_link_repository"

definition world_store :: "(ctx, world) idempotency_store" where
  "world_store = lift_idempotency w_idem put_idem memory_idempotency_store"

definition world_client :: "(ctx, redis_data, world) redis_client" where
  "world_client =
     \<lparr>HGetAll = (\<lambda>c k. lift w_redis put_redis (server_HGetAll c k)),
      RunScript = (\<lambda>c f. lift w_redis put_redis (server_call c f))\<rparr>"

definition world_cache :: "(string \<Rightarrow> string) \<Rightarrow> (ctx, world) redirect_cache" where
  "world_cache ul = RedisCache ul server_commands world_client"

definition world_metrics :: "world RedirectCacheMetrics" where
  "world_metrics =
     \<lparr>RecordCacheGet = (\<lambda>n d w. w\<lparr>w_metrics := Recorder_CacheGet n d (w_metrics w)\<rparr>),
      RecordSourceLookup = (\<lambda>n d w. w\<lparr>w_metrics := Recorder_SourceLookup n d (w_metrics w)\<rparr>),
      RecordCachePut = (\<lambda>n d w. w\<lparr>w_metrics := Recorder_CachePut n d (w_metrics w)\<rparr>)\<rparr>"

text \<open>A context with a deadline reports what its parent does until the deadline has passed; a
  deadline that passes during a call shows as a failure of the network.\<close>

definition world_timeout :: "ctx \<Rightarrow> duration \<Rightarrow> ctx" where
  "world_timeout c d = c"

definition world_refresher ::
    "(string \<Rightarrow> string) \<Rightarrow> RedirectCacheConfig \<Rightarrow> (ctx, world) RedirectCacheRefresher" where
  "world_refresher ul config =
     \<lparr>f_cache = world_cache ul, f_clock = world_Now, f_operationTimeout = OperationTimeout config,
      f_activeTTL = ActiveTTL config, f_inactiveTTL = InactiveTTL config\<rparr>"

definition refreshing_repo ::
    "(string \<Rightarrow> string) \<Rightarrow> RedirectCacheConfig \<Rightarrow> (ctx, world) link_repository" where
  "refreshing_repo ul config =
     CacheRefreshingRepository world_repo (Refresh world_timeout (world_refresher ul config))"

section \<open>What the state holds\<close>

definition stored :: "world \<Rightarrow> string \<Rightarrow> link option" where
  "stored w = links (w_links w)"

definition world_inv :: "world \<Rightarrow> bool" where
  "world_inv w = mem_inv (w_links w)"

definition saved_key :: "world \<Rightarrow> string \<Rightarrow> string \<Rightarrow> link option" where
  "saved_key w = mem_saved (w_idem w)"

lemma put_simps [simp]:
  "w_links (put_links x w) = x" "w_idem (put_links x w) = w_idem w" "w_redis (put_links x w) = w_redis w"
  "w_links (put_idem y w) = w_links w" "w_idem (put_idem y w) = y" "w_redis (put_idem y w) = w_redis w"
  "w_links (put_redis z w) = w_links w" "w_idem (put_redis z w) = w_idem w" "w_redis (put_redis z w) = z"
  by (simp_all add: put_links_def put_idem_def put_redis_def)

lemma world_repo_contract: "repository_contract world_repo stored (\<lambda>l. l) world_inv (\<lambda>_. False) link_ok"
  using memory.lifted [of w_links put_links]
  by (simp add: world_repo_def stored_def [abs_def] world_inv_def [abs_def])

lemma world_store_contract:
  "idempotency_contract world_store saved_key (=) (\<lambda>_ l. l) world_inv (\<lambda>l. l) (\<lambda>_. False)"
proof -
  have "idempotency_contract world_store saved_key (=) (\<lambda>_ l. l) (\<lambda>_. True) (\<lambda>l. l) (\<lambda>_. False)"
    using memory_idem.lifted [of w_idem put_idem]
    by (simp add: world_store_def saved_key_def [abs_def])
  then show ?thesis by (rule idempotency_contract.restricted) simp
qed

interpretation world_redis: redis_service server_commands world_client "\<lambda>w. rs_data (w_redis w)"
    server_hash ul for ul
proof (unfold_locales, goal_cases)
  case 1 show ?case by (simp add: server_commands_def server_HGET_def server_hash_def)
next
  case (2 nvs k d k')
  then show ?case using server_hash_HSET by (simp add: server_commands_def)
next
  case (3 k x d k')
  show ?case using server_hash_PEXPIRE by (simp add: server_commands_def)
next
  case (4 c k s fs s')
  then have "server_call c (\<lambda>d. (live_fields d k, d)) (w_redis s) = (Inr fs, w_redis s')"
    by (auto simp: world_client_def lift_iff server_HGetAll_def)
  from server_call_effect [OF this] show ?case by (auto simp: server_hash_def)
next
  case (5 c k s r s' k')
  then have "server_call c (\<lambda>d. (live_fields d k, d)) (w_redis s) = (r, w_redis s')"
    by (auto simp: world_client_def lift_iff server_HGetAll_def)
  from server_call_effect [OF this] show ?case by auto
next
  case (6 c f s q s')
  then have "server_call c f (w_redis s) = (q, w_redis s')"
    by (auto simp: world_client_def lift_iff)
  from server_call_effect [OF this] show ?case by auto
qed

definition cached_for :: "(string \<Rightarrow> string) \<Rightarrow> world \<Rightarrow> string \<Rightarrow> redirect_mapping option" where
  "cached_for ul w k =
     (case live_fields (rs_data (w_redis w)) (redirectKeyPrefix @ k) of
        [] \<Rightarrow> None
      | f # fs \<Rightarrow> (case decode_fields ul k (map_of (f # fs)) of Inl _ \<Rightarrow> None | Inr m \<Rightarrow> Some m))"

lemma cached_for_eq: "cached_for ul w = world_redis.cached_in ul (rs_data (w_redis w))"
  by (rule ext) (auto simp: cached_for_def world_redis.cached_in_def server_hash_def split: list.splits
      simp del: map_of.simps)

lemma world_cache_contract: "redirect_cache_contract (world_cache ul) (cached_for ul) (as_read ul)"
  using world_redis.redirect_cache_contract_axioms [of ul]
  by (simp add: world_cache_def cached_for_eq [abs_def])

section \<open>Each port touches its own part\<close>

lemma world_Now_frame:
  assumes "world_Now w = (t, w')"
  shows "stored w' = stored w" "world_inv w' = world_inv w" "saved_key w' = saved_key w"
    "cached_for ul w' = cached_for ul w"
  using assms by (auto simp: world_Now_def stored_def world_inv_def saved_key_def cached_for_eq)

lemma world_alloc_frame:
  assumes "world_alloc w = (a, w')"
  shows "stored w' = stored w" "world_inv w' = world_inv w" "saved_key w' = saved_key w"
    "cached_for ul w' = cached_for ul w"
  using assms by (auto simp: world_alloc_def stored_def world_inv_def saved_key_def cached_for_eq)

lemma world_Generate_frame:
  assumes "world_Generate c w = (r, w')"
  shows "stored w' = stored w" "world_inv w' = world_inv w" "saved_key w' = saved_key w"
    "cached_for ul w' = cached_for ul w"
  using assms
  by (auto simp: world_Generate_def stored_def world_inv_def saved_key_def cached_for_eq split: prod.splits)

lemma world_repo_frame:
  "Insert world_repo c l w = (q, w') \<Longrightarrow> w_redis w' = w_redis w \<and> w_idem w' = w_idem w"
  "FindByCode world_repo c k w = (r, w') \<Longrightarrow> w_redis w' = w_redis w \<and> w_idem w' = w_idem w"
  "Update world_repo c l v w = (q, w') \<Longrightarrow> w_redis w' = w_redis w \<and> w_idem w' = w_idem w"
  by (auto simp: world_repo_def lift_repository_def lift_iff)

lemma world_store_frame:
  "IdemGet world_store c u k w = (r, w') \<Longrightarrow> w_links w' = w_links w \<and> w_redis w' = w_redis w"
  "IdemSave world_store c u k l w = (q, w') \<Longrightarrow> w_links w' = w_links w \<and> w_redis w' = w_redis w"
  by (auto simp: world_store_def lift_idempotency_def lift_iff)

lemma world_cache_frame:
  "CacheGet (world_cache ul) c k w = (g, w') \<Longrightarrow> w_links w' = w_links w \<and> w_idem w' = w_idem w"
  "PutIfNewer (world_cache ul) c m ttl w = (q, w') \<Longrightarrow> w_links w' = w_links w \<and> w_idem w' = w_idem w"
  by (auto simp: world_cache_def RedisCache_def RedisCache_Get_def RedisCache_PutIfNewer_def
      world_client_def Let_def lift_iff split: prod.splits sum.splits if_splits)

lemma as_read_world_keep: "as_read ul (mapping_of ((\<lambda>l. l) l)) = as_read ul (mapping_of l)"
  by simp

section \<open>The contracts on this state\<close>

interpretation uncached: create_links world_repo stored "\<lambda>l. l" world_inv "\<lambda>_. False" link_ok world_Now
    world_alloc world_store saved_key "(=)" "\<lambda>_ l. l" world_Generate "\<lambda>_. True"
proof -
  have "managed_links world_repo stored (\<lambda>l. l) world_inv (\<lambda>_. False) link_ok world_Now world_alloc"
    using world_repo_contract world_Now_frame world_alloc_frame
    by (simp add: managed_links_def managed_links_axioms_def)
  then show "create_links world_repo stored (\<lambda>l. l) world_inv (\<lambda>_. False) link_ok world_Now world_alloc
      world_store saved_key (=) (\<lambda>_ l. l) world_Generate (\<lambda>_. True)"
    using world_store_contract world_Generate_frame world_Now_frame world_alloc_frame
      world_repo_frame(1) world_store_frame
    by (simp add: create_links_def create_links_axioms_def stored_def world_inv_def saved_key_def)
qed

interpretation cached: refreshed_links world_repo stored "\<lambda>l. l" world_inv "\<lambda>_. False" link_ok
    "world_cache ul" "cached_for ul" "as_read ul" world_Now world_Now world_timeout world_metrics
    world_alloc "world_refresher ul config" for ul config
proof -
  have "cached_links world_repo stored (\<lambda>l. l) world_inv (\<lambda>_. False) link_ok (world_cache ul) (cached_for ul)
      (as_read ul) world_Now world_Now world_metrics"
    using world_repo_contract world_cache_contract world_Now_frame world_repo_frame world_cache_frame
    by (simp add: cached_links_def cached_links_axioms_def cached_for_eq stored_def world_inv_def
        world_metrics_def)
  then show "refreshed_links world_repo stored (\<lambda>l. l) world_inv (\<lambda>_. False) link_ok (world_cache ul)
      (cached_for ul) (as_read ul) world_Now world_Now world_metrics world_alloc (world_refresher ul config)"
    using world_alloc_frame
    by (simp add: refreshed_links_def refreshed_links_axioms_def cached_links.wired_refresher_def
        world_refresher_def)
qed


lemma refreshing_repo_eq:
  "refreshing_repo ul config = CacheRefreshingRepository world_repo (Refresh world_timeout (world_refresher ul config))"
  by (simp add: refreshing_repo_def)

interpretation refreshed: create_links "refreshing_repo ul config" stored "\<lambda>l. l" world_inv "\<lambda>_. False"
    link_ok world_Now world_alloc world_store saved_key "(=)" "\<lambda>_ l. l" world_Generate "\<lambda>_. True" for ul config
proof -
  have i: "Insert (refreshing_repo ul config) = Insert world_repo"
    by (simp add: refreshing_repo_def CacheRefreshingRepository_def)
  from cached.refreshed.managed_links_axioms [of ul config]
  have "managed_links (refreshing_repo ul config) stored (\<lambda>l. l) world_inv (\<lambda>_. False) link_ok world_Now world_alloc"
    by (simp add: refreshing_repo_def)
  then show "create_links (refreshing_repo ul config) stored (\<lambda>l. l) world_inv (\<lambda>_. False) link_ok world_Now
      world_alloc world_store saved_key (=) (\<lambda>_ l. l) world_Generate (\<lambda>_. True)"
    using world_store_contract world_Generate_frame world_Now_frame world_alloc_frame
      world_repo_frame(1) world_store_frame
    by (simp add: create_links_def create_links_axioms_def stored_def world_inv_def saved_key_def i)
qed

text \<open>The generator of this world always returns.\<close>

lemma world_Generate_returns: "Generate (\<lambda>_. c) bytes_reader defaultCodeLength tape \<noteq> None"
proof (cases c)
  case None
  then show ?thesis
    using loop_bytes [of defaultCodeLength "[]" tape] by (auto simp: Generate_def defaultCodeLength_def)
next
  case (Some x)
  then show ?thesis by (simp add: Generate_def)
qed

lemma world_Generate_ok:
  assumes "world_Generate c w = (Inr k, w')"
  shows "code_wf defaultCodeLength k"
proof -
  obtain r tape where "Generate (\<lambda>_. c) bytes_reader defaultCodeLength (w_random w) = Some (r, tape)"
    using world_Generate_returns [of c "w_random w"] by auto
  with assms Generate_wf show ?thesis by (auto simp: world_Generate_def)
qed

section \<open>The resolver of this state\<close>

definition world_resolver ::
    "(string \<Rightarrow> string) \<Rightarrow> RedirectCacheConfig \<Rightarrow> (ctx, world) CacheAsideResolver" where
  "world_resolver ul config =
     \<lparr>r_cache = world_cache ul, r_source = RepositoryResolver_Resolve world_repo, r_clock = world_Now,
      r_operationTimeout = OperationTimeout config, r_activeTTL = ActiveTTL config,
      r_inactiveTTL = InactiveTTL config, r_metrics = Some world_metrics\<rparr>"

lemma world_resolver_New:
  "validateRedirectCacheConfig config = None \<Longrightarrow>
     NewCacheAsideResolver (world_cache ul) (RepositoryResolver_Resolve world_repo) world_Now config
       [WithRedirectCacheMetrics world_metrics] = Inr (world_resolver ul config)"
  by (simp add: NewCacheAsideResolver_def world_resolver_def WithRedirectCacheMetrics_def)

lemma world_refresher_New:
  "validateRedirectCacheConfig config = None \<Longrightarrow>
     NewRedirectCacheRefresher (world_cache ul) world_Now config = Inr (world_refresher ul config)"
  by (simp add: NewRedirectCacheRefresher_def world_refresher_def)

lemma world_resolver_wired: "cached.wired ul (world_resolver ul config)"
  by (simp add: cached.wired_def world_resolver_def)

section \<open>Coherence, written out\<close>

text \<open>A mapping reflects the link at a code: it is no newer, and if it is as new, it is what the
  cache makes of the link's projection.\<close>

definition reflects_link :: "(string \<Rightarrow> string) \<Rightarrow> world \<Rightarrow> string \<Rightarrow> redirect_mapping \<Rightarrow> bool" where
  "reflects_link ul w k m \<longleftrightarrow>
     (\<exists>l. stored w k = Some l \<and> m_version m \<le> version l \<and>
        (m_version m = version l \<longrightarrow> as_read ul (mapping_of l) = Some m))"

definition coherent_world :: "(string \<Rightarrow> string) \<Rightarrow> world \<Rightarrow> bool" where
  "coherent_world ul w \<longleftrightarrow>
     world_inv w \<and> (\<forall>k m. cached_for ul w k = Some m \<longrightarrow> reflects_link ul w k m)"

lemma coherent_world_eq: "coherent_world ul w = cached.coherent ul w"
  by (simp add: coherent_world_def cached.coherent_def reflects_link_def cached.reflects_def)

end
