(* ===== verification/Service.thy ===== *)
theory Service
  imports World
begin

text \<open>
  Sequences of requests to the use cases over one state, in the two wirings of
  \<^verbatim>\<open>cmd/linkd/main.go\<close> on memory storage: with the Redis cache and without.
\<close>

section \<open>Requests\<close>

datatype request =
    ReqCreate ctx CreateGeneratedLinkRequest
  | ReqGet ctx GetManagedLinkRequest
  | ReqStatus ctx ChangeLinkStatusRequest
  | ReqDestination ctx ChangeLinkDestinationRequest
  | ReqExpiration ctx ChangeLinkExpirationRequest
  | ReqRedirect ctx string

datatype response = LinkResponse "err + link" | RedirectResponse "err + string"

text \<open>\<open>cache\<close> is the configuration of the cache, \<open>None\<close> for \<open>CacheNone\<close>.\<close>

definition main_repo ::
    "(string \<Rightarrow> string) \<Rightarrow> RedirectCacheConfig option \<Rightarrow> (ctx, world) link_repository" where
  "main_repo ul cache =
     (case cache of None \<Rightarrow> world_repo | Some config \<Rightarrow> refreshing_repo ul config)"

definition main_resolver ::
    "(string \<Rightarrow> string) \<Rightarrow> RedirectCacheConfig option \<Rightarrow> (ctx, world) link_resolver" where
  "main_resolver ul cache =
     (case cache of
        None \<Rightarrow> RepositoryResolver_Resolve world_repo
      | Some config \<Rightarrow> CacheAside_Resolve world_timeout world_Now (world_resolver ul config))"

fun serve ::
    "(string \<Rightarrow> string) \<Rightarrow> RedirectCacheConfig option \<Rightarrow> request \<Rightarrow> world \<Rightarrow> response \<times> world" where
  "serve ul cache (ReqCreate c q) w =
     (case CreateGeneratedLink ul (main_repo ul cache) world_Generate world_Now world_alloc
             (Some world_store) c q w of (r, w') \<Rightarrow> (LinkResponse r, w'))"
| "serve ul cache (ReqGet c q) w =
     (case GetManagedLink (main_repo ul cache) c q w of (r, w') \<Rightarrow> (LinkResponse r, w'))"
| "serve ul cache (ReqStatus c q) w =
     (case ChangeLinkStatus (main_repo ul cache) world_Now c q w of (r, w') \<Rightarrow> (LinkResponse r, w'))"
| "serve ul cache (ReqDestination c q) w =
     (case ChangeLinkDestination ul (main_repo ul cache) world_Now c q w of
        (r, w') \<Rightarrow> (LinkResponse r, w'))"
| "serve ul cache (ReqExpiration c q) w =
     (case ChangeLinkExpiration (main_repo ul cache) world_Now world_alloc c q w of
        (r, w') \<Rightarrow> (LinkResponse r, w'))"
| "serve ul cache (ReqRedirect c k) w =
     (case RedirectLink (main_resolver ul cache) world_Now c k w of
        (r, w') \<Rightarrow> (RedirectResponse r, w'))"

fun serve_all ::
    "(string \<Rightarrow> string) \<Rightarrow> RedirectCacheConfig option \<Rightarrow> request list \<Rightarrow> world \<Rightarrow> response list \<times> world" where
  "serve_all ul cache [] w = ([], w)"
| "serve_all ul cache (q # qs) w =
     (case serve ul cache q w of (r, w1) \<Rightarrow>
        (case serve_all ul cache qs w1 of (rs, w2) \<Rightarrow> (r # rs, w2)))"

text \<open>No change names the last version a \<open>uint64\<close> can hold.\<close>

fun below_last_version :: "request \<Rightarrow> bool" where
  "below_last_version (ReqStatus c q) = (s_ExpectedVersion q \<noteq> - 1)"
| "below_last_version (ReqDestination c q) = (d_ExpectedVersion q \<noteq> - 1)"
| "below_last_version (ReqExpiration c q) = (e_ExpectedVersion q \<noteq> - 1)"
| "below_last_version _ = True"

section \<open>What one request does to the links\<close>

text \<open>A link can only appear, or take one step of its life cycle.\<close>

definition links_step :: "(string \<Rightarrow> link option) \<Rightarrow> (string \<Rightarrow> link option) \<Rightarrow> bool" where
  "links_step f g \<longleftrightarrow>
     f = g
     \<or> (\<exists>l. link_ok l \<and> version l = 1 \<and> f (code l) = None \<and> g = f(code l \<mapsto> l))
     \<or> (\<exists>k l l'. f k = Some l \<and> link_step l l' \<and> g = f(k \<mapsto> l'))"

lemma links_step_refl [simp]: "links_step f f"
  by (simp add: links_step_def)

interpretation main: managed_links "main_repo ul cache" stored "\<lambda>l. l" world_inv "\<lambda>_. False"
    link_ok world_Now world_alloc for ul cache
  using uncached.managed_links_axioms refreshed.managed_links_axioms
  by (cases cache) (simp_all add: main_repo_def)

interpretation main_create: create_links "main_repo ul cache" stored "\<lambda>l. l" world_inv "\<lambda>_. False"
    link_ok world_Now world_alloc world_store saved_key "(=)" "\<lambda>_ l. l" world_Generate "\<lambda>_. True" for ul cache
  using uncached.create_links_axioms refreshed.create_links_axioms
  by (cases cache) (simp_all add: main_repo_def)

lemma any_destination [simp]:
  "main.fit_dest d" "main.fit_raw ul raw" "main_create.good_raw ul raw"
  by (simp_all add: main.fit_dest_def main.fit_raw_def main_create.good_raw_def)

lemma guarded_change_links:
  assumes "guarded_change (main_repo ul cache) c k u v m w = (r, w')" "world_inv w"
    "main.change_sound m" "v \<noteq> - 1"
  shows "links_step (stored w) (stored w') \<and> world_inv w'"
proof (cases r)
  case (Inl e)
  with main.guarded_change_err [OF _ assms(2-4)] assms(1) show ?thesis by fastforce
next
  case (Inr l')
  with assms(1) have g: "guarded_change (main_repo ul cache) c k u v m w = (Inr l', w')" by simp
  obtain l x where "stored w (TrimSpace k) = Some l" "apply_op x l = (None, l')"
    "stored w' = (stored w)(TrimSpace k \<mapsto> l')" "world_inv w'"
    using main.guarded_change_ok [OF g assms(2-4)] by metis
  then show ?thesis unfolding links_step_def by (metis link_step.step)
qed

lemma create_links_step:
  assumes "CreateGeneratedLink ul (main_repo ul cache) world_Generate world_Now world_alloc
      (Some world_store) c q w = (r, w')" "world_inv w"
  shows "links_step (stored w) (stored w') \<and> world_inv w'"
proof (cases r)
  case (Inl e)
  with main_create.create_err [OF _ assms(2) any_destination(3)] assms(1) show ?thesis
    by (fastforce simp: links_step_def main_create.added_def main_create.fresh_link_def)
next
  case (Inr l)
  with main_create.create_ok [OF _ assms(2) any_destination(3)] assms(1) show ?thesis
    by (fastforce simp: links_step_def main_create.added_def main_create.fresh_link_def)
qed

lemma get_links:
  assumes "GetManagedLink (main_repo ul cache) c q w = (r, w')" "world_inv w"
  shows "stored w' = stored w \<and> world_inv w'"
  using assms main.Find_frame
  by (fastforce simp: GetManagedLink_def Let_def split: prod.splits sum.splits if_splits)

lemma resolver_links:
  assumes "main_resolver ul cache c k w = (r, w')" "world_inv w" "cache \<noteq> None \<Longrightarrow> coherent_world ul w"
  shows "stored w' = stored w \<and> world_inv w'"
proof (cases cache)
  case None
  with assms uncached.Find_frame show ?thesis
    by (fastforce simp: main_resolver_def RepositoryResolver_Resolve_def split: prod.splits sum.splits)
next
  case (Some config)
  with assms cached.resolve_coherent [OF _ world_resolver_wired, of ul config c k w r w'] show ?thesis
    by (simp add: main_resolver_def coherent_world_eq cached.coherent_def)
qed

lemma redirect_links:
  assumes "RedirectLink (main_resolver ul cache) world_Now c k w = (r, w')" "world_inv w"
    "cache \<noteq> None \<Longrightarrow> coherent_world ul w"
  shows "stored w' = stored w \<and> world_inv w'"
proof -
  obtain m w1 where m: "main_resolver ul cache c k w = (m, w1)" by fastforce
  note r = resolver_links [OF m assms(2,3)]
  show ?thesis
    using assms(1) m r
    by (cases m) (auto simp: RedirectLink_def split: prod.splits if_splits dest: world_Now_frame)
qed


section \<open>One request as a whole\<close>

lemma change_sound_main:
  "main.change_sound (status_change world_Now st)"
  "main.change_sound (destination_change ul world_Now raw)"
  "main.change_sound (expiration_change world_Now world_alloc t)"
  by (rule main.status_change_sound main.destination_change_sound main.expiration_change_sound any_destination)+

lemma serve_links:
  assumes "serve ul cache q w = (r, w')" "world_inv w" "below_last_version q"
    "cache \<noteq> None \<Longrightarrow> coherent_world ul w"
  shows "links_step (stored w) (stored w') \<and> world_inv w'"
proof (cases q)
  case (ReqCreate c x)
  with assms create_links_step show ?thesis by (auto split: prod.splits)
next
  case (ReqGet c x)
  with assms get_links show ?thesis by (fastforce split: prod.splits)
next
  case (ReqStatus c x)
  with assms guarded_change_links [OF _ assms(2) change_sound_main(1)] show ?thesis
    by (auto simp: ChangeLinkStatus_guarded split: prod.splits)
next
  case (ReqDestination c x)
  with assms guarded_change_links [OF _ assms(2) change_sound_main(2)] show ?thesis
    by (auto simp: ChangeLinkDestination_guarded split: prod.splits)
next
  case (ReqExpiration c x)
  with assms guarded_change_links [OF _ assms(2) change_sound_main(3)] show ?thesis
    by (auto simp: ChangeLinkExpiration_guarded split: prod.splits)
next
  case (ReqRedirect c k)
  with assms redirect_links show ?thesis by (fastforce split: prod.splits)
qed

text \<open>Coherence of the cache, through each request.\<close>

lemma coherent_worldI:
  assumes "coherent_world ul w" "stored w' = stored w" "world_inv w'" "cached_for ul w' = cached_for ul w"
  shows "coherent_world ul w'"
  using assms by (simp add: coherent_world_def reflects_link_def)

lemma coherent_insert:
  assumes "coherent_world ul w" "Insert (refreshing_repo ul config) c l w = (q, w')" "link_ok l"
  shows "coherent_world ul w'"
proof -
  have i: "Insert world_repo c l w = (q, w')"
    using assms(2) by (simp add: refreshing_repo_def CacheRefreshingRepository_def)
  have inv: "world_inv w" using assms(1) by (simp add: coherent_world_def)
  have "world_inv w' \<and> (stored w' = stored w \<or> stored w (code l) = None \<and> stored w' = (stored w)(code l \<mapsto> l))"
  proof (cases q)
    case None
    with uncached.Insert_ok [OF inv assms(3)] i show ?thesis by blast
  next
    case (Some e)
    with uncached.Insert_err [OF inv assms(3)] i show ?thesis by blast
  qed
  moreover have "cached_for ul w' = cached_for ul w"
    using world_repo_frame(1) [OF i] by (simp add: cached_for_eq)
  ultimately show ?thesis using assms(1) unfolding coherent_world_def reflects_link_def
    by (metis fun_upd_other option.distinct(1))
qed

lemma coherent_create:
  assumes "CreateGeneratedLink ul (refreshing_repo ul config) world_Generate world_Now world_alloc
      (Some world_store) c q w = (r, w')" "coherent_world ul w"
  shows "coherent_world ul w'"
  using assms
proof (rule create_keeps)
  show "coherent_world ul s'" if "coherent_world ul s" "world_Generate c s = (g, s')" for s g s'
    using coherent_worldI [OF that(1)] world_Generate_frame [OF that(2)] that(1)
    by (simp add: coherent_world_def)
  show "coherent_world ul s'" if "coherent_world ul s" "world_Now s = (t, s')" for s t s'
    using coherent_worldI [OF that(1)] world_Now_frame [OF that(2)] that(1)
    by (simp add: coherent_world_def)
  show "coherent_world ul s'" if "coherent_world ul s" "world_alloc s = (a, s')" for s a s'
    using coherent_worldI [OF that(1)] world_alloc_frame [OF that(2)] that(1)
    by (simp add: coherent_world_def)
  show "coherent_world ul s'" if "coherent_world ul s" "link_ok l"
    "Insert (refreshing_repo ul config) c l s = (p, s')" for l s p s'
    by (rule coherent_insert [OF that(1,3,2)])
  show "coherent_world ul s'" if "Some world_store = Some x" "coherent_world ul s"
    "IdemGet x c u k s = (g, s')" for x u k s g s'
    using coherent_worldI [OF that(2)] world_store_frame(1) [of c u k s g s'] that
    by (simp add: coherent_world_def stored_def world_inv_def cached_for_eq)
  show "coherent_world ul s'" if "Some world_store = Some x" "coherent_world ul s"
    "IdemSave x c u k l s = (p, s')" for x u k l s p s'
    using coherent_worldI [OF that(2)] world_store_frame(2) [of c u k l s p s'] that
    by (simp add: coherent_world_def stored_def world_inv_def cached_for_eq)
qed

lemma coherent_get:
  assumes "GetManagedLink (refreshing_repo ul config) c q w = (r, w')" "coherent_world ul w"
  shows "coherent_world ul w'"
proof -
  have "w' = w \<or> (\<exists>p. FindByCode world_repo c (TrimSpace (g_Code q)) w = (p, w'))"
    using assms(1)
    by (auto simp: GetManagedLink_def Let_def refreshing_repo_def CacheRefreshingRepository_def
        split: prod.splits sum.splits if_splits)
  then show ?thesis
  proof (elim disjE exE)
    fix p
    assume f: "FindByCode world_repo c (TrimSpace (g_Code q)) w = (p, w')"
    from assms(2) have inv: "world_inv w" by (simp add: coherent_world_def)
    show ?thesis
      using coherent_worldI [OF assms(2)] uncached.Find_frame [OF inv f] world_repo_frame(2) [OF f]
      by (simp add: cached_for_eq)
  qed (use assms(2) in simp)
qed

lemma coherent_redirect:
  assumes "RedirectLink (main_resolver ul (Some config)) world_Now c k w = (r, w')" "coherent_world ul w"
  shows "coherent_world ul w'"
proof -
  obtain m w1 where m: "CacheAside_Resolve world_timeout world_Now (world_resolver ul config) c k w = (m, w1)"
    by fastforce
  then have c1: "coherent_world ul w1"
    using cached.resolve_coherent [OF m world_resolver_wired] assms(2) by (simp add: coherent_world_eq)
  obtain t w2 where n: "world_Now w1 = (t, w2)" by fastforce
  have "coherent_world ul w2"
    using coherent_worldI [OF c1] world_Now_frame [OF n] c1 by (simp add: coherent_world_def)
  with assms(1) m n c1 show ?thesis
    by (cases m) (auto simp: RedirectLink_def main_resolver_def split: if_splits)
qed

lemma serve_coherent:
  assumes "serve ul (Some config) q w = (r, w')" "coherent_world ul w" "below_last_version q"
  shows "coherent_world ul w'"
proof (cases q)
  case (ReqCreate c x)
  with assms coherent_create show ?thesis by (fastforce simp: main_repo_def split: prod.splits)
next
  case (ReqGet c x)
  with assms coherent_get show ?thesis by (fastforce simp: main_repo_def split: prod.splits)
next
  case (ReqStatus c x)
  with assms cached.changes_coherent(1) [of ul w config] show ?thesis
    by (auto simp: main_repo_def refreshing_repo_def coherent_world_eq split: prod.splits)
next
  case (ReqDestination c x)
  with assms cached.changes_coherent(2) [of ul w ul config] show ?thesis
    by (auto simp: main_repo_def refreshing_repo_def coherent_world_eq split: prod.splits)
next
  case (ReqExpiration c x)
  with assms cached.changes_coherent(3) [of ul w config] show ?thesis
    by (auto simp: main_repo_def refreshing_repo_def coherent_world_eq split: prod.splits)
next
  case (ReqRedirect c k)
  with assms coherent_redirect show ?thesis by (fastforce split: prod.splits)
qed


section \<open>Sequences of requests\<close>

definition ready :: "(string \<Rightarrow> string) \<Rightarrow> RedirectCacheConfig option \<Rightarrow> world \<Rightarrow> bool" where
  "ready ul cache w \<longleftrightarrow> world_inv w \<and> (cache \<noteq> None \<longrightarrow> coherent_world ul w)"

lemma serve_ready:
  assumes "serve ul cache q w = (r, w')" "ready ul cache w" "below_last_version q"
  shows "ready ul cache w' \<and> links_step (stored w) (stored w')"
  using serve_links [OF assms(1) _ assms(3)] assms serve_coherent [of ul _ q w r w']
  by (cases cache) (auto simp: ready_def)

lemma serve_all_ready:
  "serve_all ul cache qs w = (rs, w') \<Longrightarrow> ready ul cache w \<Longrightarrow> \<forall>q \<in> set qs. below_last_version q \<Longrightarrow>
     ready ul cache w' \<and> links_step\<^sup>*\<^sup>* (stored w) (stored w')"
proof (induction qs arbitrary: w rs)
  case (Cons q qs)
  obtain r w1 where q: "serve ul cache q w = (r, w1)" by fastforce
  obtain rs1 w2 where "serve_all ul cache qs w1 = (rs1, w2)" by fastforce
  with Cons q serve_ready [OF q] show ?case by (auto intro: converse_rtranclp_into_rtranclp)
qed simp

lemma links_step_life:
  assumes "links_step f g" "f k = Some l"
  shows "\<exists>l'. g k = Some l' \<and> link_step\<^sup>*\<^sup>* l l'"
  using assms unfolding links_step_def by auto

lemma links_steps_life:
  "links_step\<^sup>*\<^sup>* f g \<Longrightarrow> f k = Some l \<Longrightarrow> \<exists>l'. g k = Some l' \<and> link_step\<^sup>*\<^sup>* l l'"
proof (induction rule: rtranclp_induct)
  case (step g h)
  then obtain l1 where "g k = Some l1" "link_step\<^sup>*\<^sup>* l l1" by blast
  with links_step_life [OF step.hyps(2)] show ?case by (metis rtranclp_trans)
qed auto

text \<open>The state the program starts in, on an empty Redis server.\<close>

definition initial_world :: "(nat \<Rightarrow> time) \<Rightarrow> byte list \<Rightarrow> (nat \<Rightarrow> nat) \<Rightarrow> (nat \<Rightarrow> network) \<Rightarrow> world" where
  "initial_world clk tape elapse net =
     \<lparr>w_links = NewRepository, w_idem = NewIdempotencyStore,
      w_redis = \<lparr>rs_data = \<lparr>rd_keys = Map.empty, rd_time = 0\<rparr>, rs_calls = 0, rs_elapse = elapse,
                 rs_network = net\<rparr>,
      w_metrics = NewRecorder 0, w_events = NewRedirectEventRecorder, w_clock = clk, w_reads = 0, w_heap = 0, w_random = tape\<rparr>"

lemma initial_ready [simp]: "ready ul cache (initial_world clk tape elapse net)"
  by (simp add: ready_def coherent_world_def world_inv_def initial_world_def cached_for_def
      live_fields_def live_entry_def)

section \<open>Answers\<close>

lemma stored_ok: "world_inv w \<Longrightarrow> stored w k = Some l \<Longrightarrow> link_ok l \<and> code l = k"
  using uncached.content_ok by blast

lemma Find_world:
  "FindByCode world_repo None k w =
     ((case stored w k of None \<Rightarrow> Inl (Ports ErrLinkNotFound) | Some l \<Rightarrow> Inr l), w)"
  by (simp add: world_repo_def lift_repository_def lift_def memory_link_repository_def
      mem_FindByCode_def stored_def put_links_def split: option.split)

lemma redirect_plain:
  assumes "world_inv w"
  shows "serve ul None (ReqRedirect None k) w =
    (case stored w k of
       None \<Rightarrow> (RedirectResponse (Inl (Ports ErrLinkNotFound)), w)
     | Some l \<Rightarrow>
         (RedirectResponse
            (if CanRedirect l (w_clock w (w_reads w)) then Inr (dest_String (destination l))
             else Inl (App ErrLinkUnavailable)),
          w\<lparr>w_reads := Suc (w_reads w)\<rparr>))"
proof (cases "stored w k")
  case None
  then show ?thesis
    by (simp add: main_resolver_def RedirectLink_def RepositoryResolver_Resolve_def Find_world)
next
  case (Some l)
  then have "link_ok l" using stored_ok [OF assms] by blast
  with Some show ?thesis
    by (simp add: main_resolver_def RedirectLink_def RepositoryResolver_Resolve_def Find_world
        RedirectMappingFromLink_ok world_Now_def)
qed

text \<open>What a cached answer says about the link.\<close>

definition answers :: "(string \<Rightarrow> string) \<Rightarrow> link \<Rightarrow> redirect_mapping \<Rightarrow> bool" where
  "answers ul l m \<longleftrightarrow>
     m_version m \<le> version l \<and>
     (m_version m = version l \<longrightarrow> m = mapping_of l \<or> as_read ul (mapping_of l) = Some m)"

lemma redirect_cached:
  assumes "serve ul (Some config) (ReqRedirect c k) w = (RedirectResponse (Inr url), w')"
    "coherent_world ul w"
  shows "\<exists>l m now. stored w k = Some l \<and> answers ul l m \<and> m_CanRedirect m now \<and>
    url = dest_String (m_destination m)"
proof -
  obtain p w1 where p: "CacheAside_Resolve world_timeout world_Now (world_resolver ul config) c k w = (p, w1)"
    by fastforce
  with assms(1) obtain m now where m: "p = Inr m" "m_CanRedirect m now" "url = dest_String (m_destination m)"
    by (cases p) (auto simp: main_resolver_def RedirectLink_def split: prod.splits if_splits)
  from cached.resolve_coherent [OF p world_resolver_wired] assms(2) m(1)
  have "cached.reflects ul (stored w) k m \<or> cached.current (stored w) k m"
    by (simp add: coherent_world_eq)
  then have "\<exists>l. stored w k = Some l \<and> answers ul l m"
    by (auto simp: cached.reflects_def cached.current_def answers_def)
  with m(2,3) show ?thesis by blast
qed

text \<open>An answer of the current version never outlives the link.\<close>

lemma answers_current:
  assumes "answers ul l m" "m_version m = version l" "link_ok l" "m_CanRedirect m now"
    "\<forall>t. ExpiresAt l = Some t \<longrightarrow> unix_range t"
  shows "CanRedirect l now"
proof -
  have ok: "mapping_ok (mapping_of l)" using assms(3) by simp
  have "m_status m = status l \<and> (m_expiresAt m = ExpiresAt l
      \<or> m_expiresAt m = map_option to_millisecond (ExpiresAt l))"
    using assms(1,2) as_read_version [OF ok, of ul m] by (auto simp: answers_def)
  moreover have "to_millisecond t \<le> t" if "ExpiresAt l = Some t" for t
    using assms(5) that to_millisecond_bounds by blast
  ultimately show ?thesis
    using assms(4) by (fastforce simp: m_CanRedirect_iff CanRedirect_expiry)
qed


section \<open>Who may do what\<close>

text \<open>The code and the owner of a request on an existing link, as the use cases read them, and the
  version a change expects.\<close>

fun named_link :: "request \<Rightarrow> (string \<times> string) option" where
  "named_link (ReqGet c q) = Some (TrimSpace (g_Code q), TrimSpace (g_OwnerID q))"
| "named_link (ReqStatus c q) = Some (TrimSpace (s_Code q), TrimSpace (s_OwnerID q))"
| "named_link (ReqDestination c q) = Some (TrimSpace (d_Code q), TrimSpace (d_OwnerID q))"
| "named_link (ReqExpiration c q) = Some (TrimSpace (e_Code q), TrimSpace (e_OwnerID q))"
| "named_link _ = None"

fun expected_version :: "request \<Rightarrow> u64 option" where
  "expected_version (ReqStatus c q) = Some (s_ExpectedVersion q)"
| "expected_version (ReqDestination c q) = Some (d_ExpectedVersion q)"
| "expected_version (ReqExpiration c q) = Some (e_ExpectedVersion q)"
| "expected_version _ = None"

lemma guarded_change_granted:
  assumes "guarded_change (main_repo ul cache) c k u v m w = (Inr l', w')" "world_inv w"
    "main.change_sound m" "v \<noteq> - 1"
  shows "\<exists>l. stored w (TrimSpace k) = Some l \<and> ownerID l = TrimSpace u \<and> version l = v \<and> v \<noteq> 0 \<and>
    link_step l l' \<and> stored w' = (stored w)(TrimSpace k \<mapsto> l')"
  using main.guarded_change_ok [OF assms] by (metis link_step.step)

lemma get_granted:
  assumes "GetManagedLink (main_repo ul cache) c q w = (Inr l, w')" "world_inv w"
  shows "stored w (TrimSpace (g_Code q)) = Some l \<and> ownerID l = TrimSpace (g_OwnerID q) \<and> stored w' = stored w"
proof -
  from assms(1) have "FindByCode (main_repo ul cache) c (TrimSpace (g_Code q)) w = (Inr l, w')"
    "ownerID l = TrimSpace (g_OwnerID q)"
    by (auto simp: GetManagedLink_def Let_def split: prod.splits sum.splits if_splits)
  with main.Find_ok [OF assms(2) this(1)] main.Find_frame [OF assms(2) this(1)] show ?thesis by simp
qed

lemma serve_granted:
  assumes "serve ul cache q w = (LinkResponse (Inr l'), w')" "named_link q = Some (k, u)"
    "world_inv w" "below_last_version q"
  shows "\<exists>l. stored w k = Some l \<and> ownerID l = u \<and>
    (case expected_version q of
       None \<Rightarrow> l' = l \<and> stored w' = stored w
     | Some v \<Rightarrow> version l = v \<and> v \<noteq> 0 \<and> link_step l l' \<and> stored w' = (stored w)(k \<mapsto> l'))"
proof (cases q)
  case (ReqGet c x)
  with assms get_granted [OF _ assms(3), of ul cache c x l' w'] show ?thesis
    by (auto split: prod.splits)
next
  case (ReqStatus c x)
  with assms guarded_change_granted [OF _ assms(3) change_sound_main(1)] show ?thesis
    by (fastforce simp: ChangeLinkStatus_guarded split: prod.splits)
next
  case (ReqDestination c x)
  with assms guarded_change_granted [OF _ assms(3) change_sound_main(2)] show ?thesis
    by (fastforce simp: ChangeLinkDestination_guarded split: prod.splits)
next
  case (ReqExpiration c x)
  with assms guarded_change_granted [OF _ assms(3) change_sound_main(3)] show ?thesis
    by (fastforce simp: ChangeLinkExpiration_guarded split: prod.splits)
qed (use assms in auto)

lemma guarded_change_refused:
  assumes "guarded_change (main_repo ul cache) c k u v m w = (Inl e, w')" "world_inv w"
    "main.change_sound m" "v \<noteq> - 1"
  shows "stored w' = stored w"
  using main.guarded_change_err [OF assms] by simp

lemma serve_refused:
  assumes "serve ul cache q w = (LinkResponse (Inl e), w')" "named_link q = Some (k, u)"
    "world_inv w" "below_last_version q"
  shows "stored w' = stored w"
proof (cases q)
  case (ReqGet c x)
  with assms get_links [OF _ assms(3)] show ?thesis by (fastforce split: prod.splits)
next
  case (ReqStatus c x)
  with assms guarded_change_refused [OF _ assms(3) change_sound_main(1)] show ?thesis
    by (fastforce simp: ChangeLinkStatus_guarded split: prod.splits)
next
  case (ReqDestination c x)
  with assms guarded_change_refused [OF _ assms(3) change_sound_main(2)] show ?thesis
    by (fastforce simp: ChangeLinkDestination_guarded split: prod.splits)
next
  case (ReqExpiration c x)
  with assms guarded_change_refused [OF _ assms(3) change_sound_main(3)] show ?thesis
    by (fastforce simp: ChangeLinkExpiration_guarded split: prod.splits)
qed (use assms in auto)

section \<open>Creating\<close>

text \<open>A link as a create request asks for it.\<close>

definition asked_for :: "(string \<Rightarrow> string) \<Rightarrow> CreateGeneratedLinkRequest \<Rightarrow> link \<Rightarrow> bool" where
  "asked_for ul q l \<longleftrightarrow>
     NewDestinationURL ul (c_Destination q) = Inr (destination l) \<and> ownerID l = TrimSpace (c_OwnerID q)
     \<and> status l = Active \<and> version l = 1 \<and> ExpiresAt l = c_ExpiresAt q \<and> updatedAt l = createdAt l
     \<and> link_ok l"

lemma serve_created:
  assumes "serve ul cache (ReqCreate c q) w = (LinkResponse (Inr l), w')" "world_inv w"
  shows "(c_IdempotencyKey q \<noteq> [] \<and> saved_key w (c_OwnerID q) (c_IdempotencyKey q) = Some l
      \<and> stored w' = stored w \<and> saved_key w' = saved_key w)
    \<or> (asked_for ul q l \<and> stored w (code l) = None \<and> stored w' = (stored w)(code l \<mapsto> l) \<and>
       (c_IdempotencyKey q \<noteq> [] \<longrightarrow> saved_key w (c_OwnerID q) (c_IdempotencyKey q) = None \<and>
          saved_key w' (c_OwnerID q) (c_IdempotencyKey q) = Some l))"
proof -
  from assms(1) have c: "CreateGeneratedLink ul (main_repo ul cache) world_Generate world_Now world_alloc
      (Some world_store) c q w = (Inr l, w')"
    by (auto split: prod.splits)
  show ?thesis
    using main_create.create_ok [OF c assms(2) any_destination(3)]
    by (auto simp: main_create.fresh_link_def main_create.added_def asked_for_def split: if_splits)
qed

lemma serve_create_twice:
  assumes "serve ul cache (ReqCreate c q) w = (LinkResponse (Inr l), w1)" "world_inv w"
    "c_IdempotencyKey q \<noteq> []" "c_OwnerID q' = c_OwnerID q" "c_IdempotencyKey q' = c_IdempotencyKey q"
    "serve ul cache (ReqCreate c' q') w1 = (LinkResponse (Inr l'), w2)"
  shows "l' = l \<and> stored w2 = stored w1"
proof -
  from assms(1,6) have c: "CreateGeneratedLink ul (main_repo ul cache) world_Generate world_Now world_alloc
      (Some world_store) c q w = (Inr l, w1)"
    "CreateGeneratedLink ul (main_repo ul cache) world_Generate world_Now world_alloc
      (Some world_store) c' q' w1 = (Inr l', w2)"
    by (auto split: prod.splits)
  show ?thesis
    using main_create.create_twice [OF c(1) assms(2-5) c(2)] any_destination(3) by blast
qed

lemma serve_create_refused:
  assumes "serve ul cache (ReqCreate c q) w = (LinkResponse (Inl e), w')" "world_inv w"
  shows "saved_key w' = saved_key w \<and>
    (stored w' = stored w \<or> c_IdempotencyKey q \<noteq> [] \<and>
       (\<exists>l. asked_for ul q l \<and> stored w (code l) = None \<and> stored w' = (stored w)(code l \<mapsto> l)))"
proof -
  from assms(1) have c: "CreateGeneratedLink ul (main_repo ul cache) world_Generate world_Now world_alloc
      (Some world_store) c q w = (Inl e, w')"
    by (auto split: prod.splits)
  show ?thesis
    using main_create.create_err [OF c assms(2) any_destination(3)]
    by (auto simp: main_create.fresh_link_def main_create.added_def asked_for_def)
qed

end
