(* ===== verification/Concurrency.thy ===== *)
theory Concurrency
  imports Service
begin

text \<open>
  Requests in parallel.  The server runs every request in its own goroutine, so the calls a use
  case makes interleave with those of others; each call of a port is one step (a mutex, a
  statement of the database or a Redis script makes it atomic).  A configuration is the state and
  the list of the activities under way, each waiting for its next call.
\<close>

section \<open>Interleaved steps\<close>

text \<open>
  \<open>Changing v l\<close>: a change that has read a link at version \<open>v\<close>, applied its mutation to the copy
  and is about to update to \<open>l\<close>.  \<open>Refreshing l\<close>: one whose update to \<open>l\<close> succeeded and that is
  about to refresh the cache.  \<open>Filling m\<close>: a resolution that has read \<open>m\<close> from the source and
  is about to put it into the cache.
\<close>

datatype activity = Changing u64 link | Refreshing link | Filling redirect_mapping

inductive pstep ::
    "(string \<Rightarrow> string) \<Rightarrow> RedirectCacheConfig \<Rightarrow> world \<times> activity list \<Rightarrow> world \<times> activity list \<Rightarrow> bool"
  for ul config where
  begin_change:
    "FindByCode world_repo c k w = (Inr l, w1) \<Longrightarrow> apply_op x l = (None, l') \<Longrightarrow> version l \<noteq> - 1 \<Longrightarrow>
       pstep ul config (w, as) (w1, Changing (version l) l' # as)"
| commit:
    "Changing v l \<in> set as \<Longrightarrow> Update world_repo c l v w = (None, w1) \<Longrightarrow>
       pstep ul config (w, as) (w1, Refreshing l # remove1 (Changing v l) as)"
| conflict:
    "Changing v l \<in> set as \<Longrightarrow> Update world_repo c l v w = (Some e, w1) \<Longrightarrow>
       pstep ul config (w, as) (w1, remove1 (Changing v l) as)"
| refresh:
    "Refreshing l \<in> set as \<Longrightarrow> Refresh world_timeout (world_refresher ul config) c l w = (q, w1) \<Longrightarrow>
       pstep ul config (w, as) (w1, remove1 (Refreshing l) as)"
| begin_fill:
    "RepositoryResolver_Resolve world_repo c k w = (Inr m, w1) \<Longrightarrow>
       pstep ul config (w, as) (w1, Filling m # as)"
| fill:
    "Filling m \<in> set as \<Longrightarrow> PutIfNewer (world_cache ul) c m ttl w = (q, w1) \<Longrightarrow>
       pstep ul config (w, as) (w1, remove1 (Filling m) as)"
| insert:
    "NewLink a k d u t e = Inr l \<Longrightarrow> Insert world_repo c l w = (q, w1) \<Longrightarrow> pstep ul config (w, as) (w1, as)"
| cache_get:
    "CacheGet (world_cache ul) c k w = (g, w1) \<Longrightarrow> pstep ul config (w, as) (w1, as)"
| time:
    "world_Now w = (t, w1) \<Longrightarrow> pstep ul config (w, as) (w1, as)"
| abandon:
    "a \<in> set as \<Longrightarrow> pstep ul config (w, as) (w, remove1 a as)"

inductive_cases pstep_elim: "pstep ul config (w, as) (w', as')"

lemmas pstepE = pstep_elim [consumes 1, case_names begin_change commit conflict refresh begin_fill
    fill insert cache_get time abandon]

abbreviation psteps where
  "psteps ul config \<equiv> (pstep ul config)\<^sup>*\<^sup>*"

section \<open>The invariant\<close>

text \<open>Links are never lost, and change only to higher versions.\<close>

definition advances :: "(string \<Rightarrow> link option) \<Rightarrow> (string \<Rightarrow> link option) \<Rightarrow> bool" where
  "advances f g \<longleftrightarrow>
     (\<forall>k l. f k = Some l \<longrightarrow> (\<exists>l'. g k = Some l' \<and> (l' = l \<or> version l < version l')))"

fun activity_ok :: "(string \<Rightarrow> string) \<Rightarrow> world \<Rightarrow> activity \<Rightarrow> bool" where
  "activity_ok ul w (Changing v l) \<longleftrightarrow>
     link_ok l \<and> v \<noteq> - 1 \<and> version l = v + 1 \<and>
     (\<exists>cur. stored w (code l) = Some cur \<and> v \<le> version cur \<and> (v = version cur \<longrightarrow> link_step cur l))"
| "activity_ok ul w (Refreshing l) \<longleftrightarrow>
     link_ok l \<and>
     (\<exists>cur. stored w (code l) = Some cur \<and> version l \<le> version cur \<and> (version l = version cur \<longrightarrow> cur = l))"
| "activity_ok ul w (Filling m) \<longleftrightarrow>
     mapping_ok m \<and> (\<forall>m'. as_read ul m = Some m' \<longrightarrow> reflects_link ul w (m_code m) m')"

definition config_ok :: "(string \<Rightarrow> string) \<Rightarrow> world \<times> activity list \<Rightarrow> bool" where
  "config_ok ul wa \<longleftrightarrow> (case wa of (w, as) \<Rightarrow> coherent_world ul w \<and> (\<forall>a \<in> set as. activity_ok ul w a))"

lemma advances_refl [simp]: "advances f f"
  by (simp add: advances_def)

lemma advances_trans:
  assumes "advances f g" "advances g h"
  shows "advances f h"
  unfolding advances_def
proof (intro allI impI)
  fix k l
  assume "f k = Some l"
  then obtain l1 where "g k = Some l1" "l1 = l \<or> version l < version l1"
    using assms(1) unfolding advances_def by blast
  moreover from this(1) obtain l2 where "h k = Some l2" "l2 = l1 \<or> version l1 < version l2"
    using assms(2) unfolding advances_def by blast
  ultimately show "\<exists>l'. h k = Some l' \<and> (l' = l \<or> version l < version l')" by auto
qed

lemma advances_new: "f k = None \<Longrightarrow> advances f (f(k \<mapsto> l))"
  by (auto simp: advances_def)

lemma advances_put: "f k = Some l \<Longrightarrow> version l < version l' \<Longrightarrow> advances f (f(k \<mapsto> l'))"
  by (auto simp: advances_def)

lemma reflects_link_advances:
  assumes "reflects_link ul w k m" "advances (stored w) (stored w')"
  shows "reflects_link ul w' k m"
proof -
  obtain l where l: "stored w k = Some l" "m_version m \<le> version l"
    "m_version m = version l \<longrightarrow> as_read ul (mapping_of l) = Some m"
    using assms(1) by (auto simp: reflects_link_def)
  obtain l' where l': "stored w' k = Some l'" "l' = l \<or> version l < version l'"
    using assms(2) l(1) unfolding advances_def by blast
  from l'(2) show ?thesis
  proof
    assume "version l < version l'"
    with l(2) have "m_version m < version l'" by simp
    with l'(1) show ?thesis by (auto simp: reflects_link_def)
  qed (use l l' in \<open>auto simp: reflects_link_def\<close>)
qed

lemma activity_ok_advances:
  assumes "activity_ok ul w a" "advances (stored w) (stored w')"
  shows "activity_ok ul w' a"
proof (cases a)
  case (Changing v l)
  with assms obtain cur cur' where "stored w (code l) = Some cur" "v \<le> version cur"
    "v = version cur \<longrightarrow> link_step cur l" "stored w' (code l) = Some cur'"
    "cur' = cur \<or> version cur < version cur'"
    unfolding advances_def by fastforce
  with assms(1) Changing show ?thesis by auto
next
  case (Refreshing l)
  with assms obtain cur cur' where "stored w (code l) = Some cur" "version l \<le> version cur"
    "version l = version cur \<longrightarrow> cur = l" "stored w' (code l) = Some cur'"
    "cur' = cur \<or> version cur < version cur'"
    unfolding advances_def by fastforce
  with assms(1) Refreshing show ?thesis by auto
next
  case (Filling m)
  with assms reflects_link_advances show ?thesis by auto
qed

text \<open>What a step has to show: the rest follows.\<close>

lemma config_okI:
  assumes "config_ok ul (w, as)" "coherent_world ul w'" "advances (stored w) (stored w')"
    "set as' \<subseteq> insert a (set as)" "activity_ok ul w' a \<or> set as' \<subseteq> set as"
  shows "config_ok ul (w', as')"
  using assms activity_ok_advances [OF _ assms(3)] by (auto simp: config_ok_def)

section \<open>Every step keeps it\<close>

lemma coherent_same:
  assumes "coherent_world ul w" "stored w' = stored w" "world_inv w' = world_inv w" "w_redis w' = w_redis w"
  shows "coherent_world ul w'"
  using assms by (intro coherent_worldI [OF assms(1)]) (auto simp: coherent_world_def cached_for_eq)

lemma coherent_advances:
  assumes "coherent_world ul w" "world_inv w'" "advances (stored w) (stored w')" "w_redis w' = w_redis w"
  shows "coherent_world ul w'"
  unfolding coherent_world_def
proof (intro conjI allI impI)
  fix k m
  assume "cached_for ul w' k = Some m"
  then have "reflects_link ul w k m"
    using assms(1,4) by (simp add: coherent_world_def cached_for_eq)
  then show "reflects_link ul w' k m" using assms(3) by (rule reflects_link_advances)
qed (rule assms(2))

lemma Find_keeps:
  assumes "FindByCode world_repo c k w = (r, w')" "coherent_world ul w"
  shows "coherent_world ul w' \<and> stored w' = stored w"
proof -
  have inv: "world_inv w" using assms(2) by (simp add: coherent_world_def)
  note f = uncached.Find_frame [OF inv assms(1)]
  have "coherent_world ul w'"
    by (rule coherent_same [OF assms(2)]) (use f inv world_repo_frame(2) [OF assms(1)] in auto)
  with f show ?thesis by simp
qed

lemma put_keeps:
  assumes "PutIfNewer (world_cache ul) c m ttl w = (q, w')" "coherent_world ul w"
    "activity_ok ul w (Filling m)"
  shows "coherent_world ul w' \<and> stored w' = stored w"
proof -
  have "coherent_world ul w'"
    using cached.put_coherent [OF assms(1)] assms(2,3)
    by (simp add: coherent_world_eq reflects_link_def cached.reflects_def)
  with world_cache_frame(2) [OF assms(1)] show ?thesis by (simp add: stored_def)
qed

text \<open>A link that has been stored may be put, even after it has been overtaken.\<close>

lemma refreshing_fills: "activity_ok ul w (Refreshing l) \<Longrightarrow> activity_ok ul w (Filling (mapping_of l))"
  using as_read_version [of "mapping_of l" ul] by (fastforce simp: reflects_link_def)

lemma refresh_keeps:
  assumes "Refresh world_timeout (world_refresher ul config) c l w = (q, w')" "coherent_world ul w"
    "activity_ok ul w (Refreshing l)"
  shows "coherent_world ul w' \<and> stored w' = stored w"
proof -
  have ok: "link_ok l" using assms(3) by simp
  from assms(1) cached.refresher ok show ?thesis
  proof (cases rule: cached.refresh_cases)
    case skipped
    with assms(2) cached.fades_coherent cached.fadesD(1) show ?thesis by (auto simp: coherent_world_eq)
  next
    case (put w1 d ttl)
    have "coherent_world ul w1" "stored w1 = stored w"
      using put(1) assms(2) cached.fades_coherent cached.fadesD(1) by (auto simp: coherent_world_eq)
    moreover have "activity_ok ul w1 (Filling (mapping_of l))"
      by (rule activity_ok_advances [OF refreshing_fills [OF assms(3)]]) (simp add: calculation)
    ultimately show ?thesis using put_keeps [OF put(2)] by metis
  qed
qed

lemma update_keeps:
  assumes "Update world_repo c l v w = (q, w')" "coherent_world ul w" "activity_ok ul w (Changing v l)"
  shows "coherent_world ul w' \<and>
    (q = None \<longrightarrow> (\<exists>cur. stored w (code l) = Some cur \<and> version cur = v \<and> link_step cur l \<and>
       stored w' = (stored w)(code l \<mapsto> l))) \<and>
    (q \<noteq> None \<longrightarrow> stored w' = stored w)"
proof -
  have inv: "world_inv w" using assms(2) by (simp add: coherent_world_def)
  have ok: "link_ok l" using assms(3) by simp
  show ?thesis
  proof (cases q)
    case (Some e)
    with uncached.Update_err [OF inv ok] assms(1) have u: "world_inv w'" "stored w' = stored w" by auto
    have "coherent_world ul w'"
      by (rule coherent_same [OF assms(2)]) (use u inv world_repo_frame(3) [OF assms(1)] in auto)
    with u Some show ?thesis by simp
  next
    case None
    obtain old where u: "stored w (code l) = Some old" "version old = v"
      "ownerID old = ownerID l \<longrightarrow> createdAt old = createdAt l \<longrightarrow>
         world_inv w' \<and> stored w' = (stored w)(code l \<mapsto> l)"
      using uncached.Update_ok [OF inv ok] assms(1) None by blast
    then have s: "link_step old l" using assms(3) by auto
    with link_step_facts u(3) have w': "world_inv w'" "stored w' = (stored w)(code l \<mapsto> l)" by metis+
    have "version old < version l" using assms(3) u(2) u64_Suc(2) [of v] by simp
    then have "advances (stored w) (stored w')" using u(1) w'(2) by (simp add: advances_put)
    then have "coherent_world ul w'"
      using coherent_advances [OF assms(2) w'(1)] world_repo_frame(3) [OF assms(1)] by simp
    with None u s w' show ?thesis by blast
  qed
qed

lemma begin_change_ok:
  assumes "FindByCode world_repo c k w = (Inr l, w')" "coherent_world ul w" "apply_op x l = (None, l')"
    "version l \<noteq> - 1"
  shows "activity_ok ul w' (Changing (version l) l')"
proof -
  have inv: "world_inv w" using assms(2) by (simp add: coherent_world_def)
  note f = uncached.Find_ok [OF inv assms(1)] uncached.Find_frame [OF inv assms(1)]
  have "link_ok l'" using link_ok_apply_op [OF _ assms(3,4)] f by simp
  moreover have "code l' = k" using apply_op_ok(1) [OF assms(3)] stored_ok [OF inv] f by metis
  ultimately show ?thesis
    using f assms(3,4) apply_op_ok(4) [OF assms(3)] by (auto intro: link_step.step)
qed

lemma begin_fill_ok:
  assumes "RepositoryResolver_Resolve world_repo c k w = (Inr m, w')" "coherent_world ul w"
  shows "coherent_world ul w' \<and> stored w' = stored w \<and> activity_ok ul w' (Filling m)"
proof -
  have inv: "world_inv w" using assms(2) by (simp add: coherent_world_def)
  obtain l where f: "FindByCode world_repo c k w = (Inr l, w')" "RedirectMappingFromLink l = Inr m"
    using assms(1) by (auto simp: RepositoryResolver_Resolve_def split: prod.splits sum.splits)
  note l = uncached.Find_ok [OF inv f(1)] and w' = Find_keeps [OF f(1) assms(2)]
  have m: "m = mapping_of l" using f(2) l by (simp add: RedirectMappingFromLink_ok)
  have "code l = k" using stored_ok [OF inv] l by blast
  then have "activity_ok ul w' (Refreshing l)" using l w' by simp
  then show ?thesis using refreshing_fills w' m by blast
qed

lemma insert_keeps:
  assumes "Insert world_repo c l w = (q, w')" "coherent_world ul w" "link_ok l"
  shows "coherent_world ul w' \<and>
    (stored w' = stored w \<or> stored w (code l) = None \<and> stored w' = (stored w)(code l \<mapsto> l))"
proof -
  have inv: "world_inv w" using assms(2) by (simp add: coherent_world_def)
  have s: "world_inv w' \<and> (stored w' = stored w \<or> stored w (code l) = None \<and> stored w' = (stored w)(code l \<mapsto> l))"
  proof (cases q)
    case None
    with uncached.Insert_ok [OF inv assms(3)] assms(1) show ?thesis by blast
  next
    case (Some e)
    with uncached.Insert_err [OF inv assms(3)] assms(1) show ?thesis by blast
  qed
  then have "advances (stored w) (stored w')" by (auto simp: advances_new)
  with s coherent_advances [OF assms(2)] world_repo_frame(1) [OF assms(1)] show ?thesis by simp
qed

text \<open>One step keeps the invariant and takes the links one step of their life cycle.\<close>

lemma pstep_keeps:
  assumes "pstep ul config (w, as) (w', as')" "config_ok ul (w, as)"
  shows "config_ok ul (w', as') \<and> links_step (stored w) (stored w') \<and> advances (stored w) (stored w')"
proof -
  have coh: "coherent_world ul w" and act: "\<And>a. a \<in> set as \<Longrightarrow> activity_ok ul w a"
    using assms(2) by (auto simp: config_ok_def)
  have still: "?thesis" if "coherent_world ul w'" "stored w' = stored w" "set as' \<subseteq> insert a (set as)"
    "activity_ok ul w' a \<or> set as' \<subseteq> set as" for a
    using config_okI [OF assms(2) that(1) _ that(3,4)] that(2) by simp
  from assms(1) show ?thesis
  proof (cases rule: pstepE)
    case (begin_change c k l x l')
    then show ?thesis
      using still [of "Changing (version l) l'"] Find_keeps [OF _ coh] begin_change_ok [OF _ coh] by auto
  next
    case (commit v l c)
    from update_keeps [OF commit(3) coh act [OF commit(2)]] obtain cur where
      u: "coherent_world ul w'" "stored w (code l) = Some cur" "version cur = v" "link_step cur l"
      "stored w' = (stored w)(code l \<mapsto> l)" by auto
    have ok: "activity_ok ul w (Changing v l)" by (rule act [OF commit(2)])
    then have "version cur < version l" using u(3) u64_Suc(2) [of v] by simp
    with u have adv: "advances (stored w) (stored w')" by (simp add: advances_put)
    have "activity_ok ul w' (Refreshing l)" using ok u(5) by simp
    with config_okI [OF assms(2) u(1) adv, of as' "Refreshing l"] commit(1)
    have "config_ok ul (w', as')" by (auto dest: set_remove1_subset [THEN subsetD])
    moreover have "links_step (stored w) (stored w')" using u(2,4,5) unfolding links_step_def by blast
    ultimately show ?thesis using adv by simp
  next
    case (conflict v l c e)
    then show ?thesis
      using still update_keeps [OF conflict(3) coh act [OF conflict(2)]]
      by (simp add: set_remove1_subset subset_insertI2)
  next
    case (refresh l c q)
    then show ?thesis
      using still refresh_keeps [OF refresh(3) coh act [OF refresh(2)]]
      by (simp add: set_remove1_subset subset_insertI2)
  next
    case (begin_fill c k m)
    then show ?thesis using still [of "Filling m"] begin_fill_ok [OF begin_fill(2) coh] by auto
  next
    case (fill m c ttl q)
    then show ?thesis
      using still put_keeps [OF fill(3) coh act [OF fill(2)]]
      by (simp add: set_remove1_subset subset_insertI2)
  next
    case (insert a k d u t e l c q)
    have ok: "link_ok l" by (rule link_ok_NewLink [OF insert(2)])
    from insert(2) have v: "version l = 1"
      by (auto simp: NewLink_def Let_def split: if_splits option.splits)
    note i = insert_keeps [OF insert(3) coh ok]
    then have adv: "advances (stored w) (stored w')" by (auto simp: advances_new)
    have "config_ok ul (w', as')"
      using config_okI [OF assms(2) _ adv] i insert(1) by auto
    moreover have "links_step (stored w) (stored w')" using i ok v unfolding links_step_def by metis
    ultimately show ?thesis using adv by simp
  next
    case (cache_get c k g)
    have "coherent_world ul w'"
      using cached.fades_simps(3) [OF cache_get(2)] cached.fades_coherent coh
      by (auto simp: coherent_world_eq)
    then show ?thesis
      using still world_cache_frame(1) [OF cache_get(2)] cache_get(1) by (auto simp: stored_def)
  next
    case (time t)
    have "coherent_world ul w'"
      using coherent_worldI [OF coh] world_Now_frame [OF time(2)] coh by (simp add: coherent_world_def)
    then show ?thesis using still world_Now_frame(1) [OF time(2)] time(1) by auto
  next
    case (abandon a)
    then show ?thesis using still coh by (simp add: set_remove1_subset subset_insertI2)
  qed
qed


lemma psteps_keep:
  assumes "psteps ul config (w, as) (w', as')" "config_ok ul (w, as)"
  shows "config_ok ul (w', as') \<and> links_step\<^sup>*\<^sup>* (stored w) (stored w') \<and> advances (stored w) (stored w')"
  using assms(1)
proof (induction rule: rtranclp_induct2)
  case refl
  then show ?case using assms(2) by simp
next
  case (step w1 as1 w2 as2)
  with pstep_keeps [OF step.hyps(2)] advances_trans show ?case
    by (auto intro: rtranclp.rtrancl_into_rtrancl)
qed

lemma initial_config_ok: "config_ok ul (initial_world clk tape elapse net, [])"
  using initial_ready [of ul "Some undefined" clk tape elapse net] by (simp add: config_ok_def ready_def)

text \<open>Once a link has moved past a version, no update that expects that version succeeds.\<close>

lemma late_update:
  assumes "stored w (code l) = Some cur" "version cur \<noteq> v"
  shows "Update world_repo None l v w = (Some (Ports ErrVersionConflict), w)"
  using assms
  by (simp add: world_repo_def lift_repository_def lift_def memory_link_repository_def mem_Update_def
      stored_def put_links_def)

lemma one_winner:
  assumes "config_ok ul (w, as)" "Changing v l1 \<in> set as" "Update world_repo c l1 v w = (None, w1)"
    "psteps ul config (w1, Refreshing l1 # remove1 (Changing v l1) as) (w2, as2)" "code l2 = code l1"
  shows "Update world_repo None l2 v w2 = (Some (Ports ErrVersionConflict), w2)"
proof -
  have act: "activity_ok ul w (Changing v l1)" and coh: "coherent_world ul w"
    using assms(1,2) by (auto simp: config_ok_def)
  have "pstep ul config (w, as) (w1, Refreshing l1 # remove1 (Changing v l1) as)"
    by (rule pstep.commit [OF assms(2,3)])
  then have ok1: "config_ok ul (w1, Refreshing l1 # remove1 (Changing v l1) as)"
    using pstep_keeps assms(1) by blast
  have "stored w1 (code l1) = Some l1" using update_keeps [OF assms(3) coh act] by auto
  then obtain cur where cur: "stored w2 (code l1) = Some cur" "cur = l1 \<or> version l1 < version cur"
    using psteps_keep [OF assms(4) ok1] unfolding advances_def by blast
  have "v < version l1" using act u64_Suc(2) [of v] by simp
  with cur(2) have "version cur \<noteq> v" by auto
  with cur(1) assms(5) late_update show ?thesis by metis
qed

end
