(* ===== verification/GoTime.thy ===== *)
theory GoTime
  imports GoStrings GoFloat
begin

text \<open>
  The parts of Go's \<open>time\<close> package that read text: \<open>Time.UnmarshalJSON\<close>, which parses RFC 3339
  with \<open>time.Parse\<close>, and \<open>ParseDuration\<close>.  Which error a bad text gives makes no difference to the
  program, so it is \<open>None\<close>.
\<close>

section \<open>Dates\<close>

definition leap :: "int \<Rightarrow> bool" where
  "leap y \<longleftrightarrow> y mod 4 = 0 \<and> (y mod 100 \<noteq> 0 \<or> y mod 400 = 0)"

definition month_lengths :: "int \<Rightarrow> int list" where
  "month_lengths y = [31, if leap y then 29 else 28, 31, 30, 31, 30, 31, 31, 30, 31, 30, 31]"

definition days_in :: "int \<Rightarrow> nat \<Rightarrow> int" where
  "days_in y m = month_lengths y ! (m - 1)"

text \<open>The days from January 1, year 1 to January 1 of a year, and to a date.\<close>

definition days_before_year :: "int \<Rightarrow> int" where
  "days_before_year y = 365 * (y - 1) + (y - 1) div 4 - (y - 1) div 100 + (y - 1) div 400"

definition days_before :: "int \<Rightarrow> nat \<Rightarrow> int \<Rightarrow> int" where
  "days_before y m d = days_before_year y + sum_list (take (m - 1) (month_lengths y)) + (d - 1)"

definition date :: "int \<Rightarrow> nat \<Rightarrow> int \<Rightarrow> int \<Rightarrow> int \<Rightarrow> int \<Rightarrow> int \<Rightarrow> time" where
  "date y m d hour mins sec nsec =
     (((days_before y m d * 24 + hour) * 60 + mins) * 60 + sec) * Second + nsec"

lemma div_step:
  assumes "0 < n"
  shows "(y :: int) div n = (y - 1) div n + (if y mod n = 0 then 1 else 0)"
proof (cases "y mod n = 0")
  case True
  then obtain q where "y = n * q" by auto
  moreover have "(n * q - 1) div n = q - 1"
    by (rule int_div_pos_eq [where r = "n - 1"]) (use assms in \<open>simp_all add: algebra_simps\<close>)
  ultimately show ?thesis using assms by simp
next
  case False
  have "0 \<le> y mod n" "y mod n < n" using assms by auto
  then have "(y - 1) div n = y div n"
    using False assms
    by (intro int_div_pos_eq [where r = "y mod n - 1"]) (auto simp: minus_mod_eq_mult_div [symmetric] less_le)
  with False show ?thesis by simp
qed

lemma leap_sum:
  fixes A :: int
  assumes "A = a + (if P then 1 else 0)" "B = b + (if Q then 1 else 0)" "C = c + (if R then 1 else 0)"
    "Q \<Longrightarrow> P" "R \<Longrightarrow> Q"
  shows "365 * Y + A - B + C = 365 * (Y - 1) + a - b + c + (if P \<and> (\<not> Q \<or> R) then 366 else 365)"
  using assms by (cases P; cases Q; cases R; simp)

lemma days_next_year: "days_before_year (y + 1) = days_before_year y + (if leap y then 366 else 365)"
proof -
  have m: "y mod 100 = 0 \<Longrightarrow> y mod 4 = 0" "y mod 400 = 0 \<Longrightarrow> y mod 100 = 0"
    using dvd_trans [of 4 100 y] dvd_trans [of 100 400 y] by (simp_all only: dvd_eq_mod_eq_0) simp_all
  show ?thesis
    unfolding days_before_year_def leap_def add_diff_cancel_right'
    by (rule leap_sum) (rule div_step m, simp; fail)+
qed

lemma year_length: "sum_list (month_lengths y) = (if leap y then 366 else 365)"
  by (simp add: month_lengths_def)

section \<open>Parsing RFC 3339\<close>

fun num_from :: "int \<Rightarrow> string \<Rightarrow> int" where
  "num_from n [] = n"
| "num_from n (c # s) = num_from (n * 10 + int (digit_val c)) s"

definition num :: "string \<Rightarrow> int" where
  "num s = num_from 0 s"

text \<open>A literal prefix, two digits, and one or two digits.\<close>

definition lit :: "string \<Rightarrow> string \<Rightarrow> string option" where
  "lit p s = (if HasPrefix s p then Some (drop (length p) s) else None)"

definition getnum2 :: "string \<Rightarrow> (int \<times> string) option" where
  "getnum2 s =
     (if 2 \<le> length s \<and> list_all is_digit (take 2 s) then Some (num (take 2 s), drop 2 s) else None)"

definition getnum :: "string \<Rightarrow> (int \<times> string) option" where
  "getnum s =
     (if s = [] \<or> \<not> is_digit (hd s) then None
      else if 2 \<le> length s \<and> is_digit (s ! 1) then Some (num (take 2 s), drop 2 s)
      else Some (num (take 1 s), drop 1 s))"

definition getyear :: "string \<Rightarrow> (int \<times> string) option" where
  "getyear s =
     (if 4 \<le> length s \<and> list_all is_digit (take 4 s) then Some (num (take 4 s), drop 4 s) else None)"

text \<open>A fraction of a second after a period or comma: nanoseconds, from its first nine digits.\<close>

definition getfraction :: "string \<Rightarrow> int \<times> string" where
  "getfraction s =
     (if 2 \<le> length s \<and> (hd s = CHR ''.'' \<or> hd s = CHR '','') \<and> is_digit (s ! 1)
      then let ds = take 9 (takeWhile is_digit (tl s))
           in (num ds * 10 ^ (9 - length ds), dropWhile is_digit (tl s))
      else (0, s))"

text \<open>The zone: the seconds east of UTC.  Hours up to 24 and minutes up to 60 are let through.\<close>

definition getzone :: "string \<Rightarrow> (int \<times> string) option" where
  "getzone s =
     (case s of
        [] \<Rightarrow> None
      | c # r \<Rightarrow>
          if c = CHR ''Z'' then Some (0, r)
          else if length s < 6 \<or> s ! 3 \<noteq> CHR '':'' then None
          else
            (case (getnum2 (take 2 r), getnum2 (take 2 (drop 4 s))) of
               (Some (hr, _), Some (mm, _)) \<Rightarrow>
                 if 24 < hr \<or> 60 < mm then None
                 else if c = CHR ''+'' then Some ((hr * 60 + mm) * 60, drop 6 s)
                 else if c = CHR ''-'' then Some (- ((hr * 60 + mm) * 60), drop 6 s)
                 else None
             | _ \<Rightarrow> None))"

definition parse_date :: "string \<Rightarrow> (int \<times> nat \<times> int \<times> string) option" where
  "parse_date s =
     Option.bind (getyear s) (\<lambda>(y, s).
     Option.bind (lit ''-'' s) (\<lambda>s.
     Option.bind (getnum2 s) (\<lambda>(m, s).
     if m \<le> 0 \<or> 12 < m then None
     else
       Option.bind (lit ''-'' s) (\<lambda>s.
       Option.bind (getnum2 s) (\<lambda>(d, s).
         Some (y, nat m, d, s))))))"

definition parse_clock :: "string \<Rightarrow> (int \<times> int \<times> int \<times> int \<times> string) option" where
  "parse_clock s =
     Option.bind (getnum s) (\<lambda>(hour, s).
     if 24 \<le> hour then None
     else
       Option.bind (lit '':'' s) (\<lambda>s.
       Option.bind (getnum2 s) (\<lambda>(mins, s).
       if 60 \<le> mins then None
       else
         Option.bind (lit '':'' s) (\<lambda>s.
         Option.bind (getnum2 s) (\<lambda>(sec, s).
         if 60 \<le> sec then None
         else (case getfraction s of (nsec, s) \<Rightarrow> Some (hour, mins, sec, nsec, s)))))))"

definition parse_RFC3339 :: "string \<Rightarrow> time option" where
  "parse_RFC3339 s =
     Option.bind (parse_date s) (\<lambda>(y, m, d, s).
     Option.bind (lit ''T'' s) (\<lambda>s.
     Option.bind (parse_clock s) (\<lambda>(hour, mins, sec, nsec, s).
     Option.bind (getzone s) (\<lambda>(offset, s).
       if s \<noteq> [] \<or> d < 1 \<or> days_in y m < d then None
       else Some (date y m d hour mins sec nsec - offset * Second)))))"

text \<open>\<open>Time.UnmarshalJSON\<close>: what stands between the quotes is parsed as it is.\<close>

definition UnmarshalJSON :: "string \<Rightarrow> time option" where
  "UnmarshalJSON raw =
     (if length raw < 2 \<or> hd raw \<noteq> CHR 0x22 \<or> last raw \<noteq> CHR 0x22 then None
      else parse_RFC3339 (butlast (tl raw)))"

lemma RFC3339_epoch: "parse_RFC3339 ''0001-01-01T00:00:00Z'' = Some 0"
  by code_simp

lemma RFC3339_offset:
  "parse_RFC3339 ''2024-02-29T12:00:00.25+02:00'' = parse_RFC3339 ''2024-02-29T10:00:00,250Z''"
  "parse_RFC3339 ''2023-02-29T12:00:00Z'' = None"
  by code_simp+

section \<open>Parsing durations\<close>

text \<open>\<open>leadingInt\<close> and \<open>leadingFraction\<close>: digits with too large a value are refused, and dropped.\<close>

definition leadingInt :: "string \<Rightarrow> (int \<times> string) option" where
  "leadingInt s =
     (let v = num (takeWhile is_digit s)
      in if 2 ^ 63 < v then None else Some (v, dropWhile is_digit s))"

fun fraction_digits :: "int \<Rightarrow> rat \<Rightarrow> string \<Rightarrow> int \<times> rat" where
  "fraction_digits x scale [] = (x, scale)"
| "fraction_digits x scale (c # s) =
     (if (2 ^ 63 - 1) div 10 < x \<or> 2 ^ 63 < x * 10 + int (digit_val c) then (x, scale)
      else fraction_digits (x * 10 + int (digit_val c)) (float64 (scale * 10)) s)"

definition leadingFraction :: "string \<Rightarrow> int \<times> rat \<times> string" where
  "leadingFraction s =
     (case fraction_digits 0 1 (takeWhile is_digit s) of
        (x, scale) \<Rightarrow> (x, scale, dropWhile is_digit s))"

definition unitMap :: "string \<Rightarrow> int option" where
  "unitMap = map_of
     [(''ns'', 1), (''us'', 10 ^ 3), ([CHR 0xC2, CHR 0xB5, CHR ''s''], 10 ^ 3),
      ([CHR 0xCE, CHR 0xBC, CHR ''s''], 10 ^ 3), (''ms'', 10 ^ 6), (''s'', 10 ^ 9),
      (''m'', 60 * 10 ^ 9), (''h'', 3600 * 10 ^ 9)]"

text \<open>One number and its unit: the nanoseconds, and what follows.\<close>

definition duration_part :: "string \<Rightarrow> (int \<times> string) option" where
  "duration_part s =
     (if s = [] \<or> hd s \<noteq> CHR ''.'' \<and> \<not> is_digit (hd s) then None
      else
        (case leadingInt s of
           None \<Rightarrow> None
         | Some (v, r) \<Rightarrow>
             let pre = r \<noteq> s;
                 (f, scale, q) = (if HasPrefix r ''.'' then leadingFraction (tl r) else (0, 1, r));
                 post = HasPrefix r ''.'' \<and> q \<noteq> tl r;
                 u = takeWhile (\<lambda>c. c \<noteq> CHR ''.'' \<and> \<not> is_digit c) q
             in if \<not> pre \<and> \<not> post then None
                else
                  (case unitMap u of
                     None \<Rightarrow> None
                   | Some unit_ns \<Rightarrow>
                       if 2 ^ 63 div unit_ns < v then None
                       else
                         let v = v * unit_ns
                           + (if 0 < f
                              then \<lfloor>float64 (float64 (of_int f) * float64 (of_int unit_ns / scale))\<rfloor>
                              else 0)
                         in if 2 ^ 63 < v then None else Some (v, drop (length u) q))))"

lemma duration_part_shorter:
  assumes "duration_part s = Some (v, r)"
  shows "length r < length s"
proof -
  obtain n q where q: "leadingInt s = Some (n, q)" "s \<noteq> []"
    using assms by (auto simp: duration_part_def split: if_splits option.splits)
  then have "length q \<le> length s"
    by (auto simp: leadingInt_def Let_def length_dropWhile_le split: if_splits)
  obtain f sc p where p: "(if HasPrefix q ''.'' then leadingFraction (tl q) else (0, 1, q)) = (f, sc, p)"
    by (cases "if HasPrefix q ''.'' then leadingFraction (tl q) else (0, 1, q)") auto
  have "length p \<le> length q"
    using p length_dropWhile_le [of is_digit "tl q"]
    by (auto simp: leadingFraction_def split: if_splits prod.splits)
  define u where "u = takeWhile (\<lambda>c. c \<noteq> CHR ''.'' \<and> \<not> is_digit c) p"
  have "unitMap u \<noteq> None" and r: "r = drop (length u) p"
    using assms q p by (auto simp: duration_part_def Let_def u_def split: if_splits option.splits prod.splits)
  then have "u \<noteq> []" by (auto simp: unitMap_def split: if_splits)
  moreover have "length u \<le> length p" by (simp add: u_def length_takeWhile_le)
  ultimately show ?thesis
    using r \<open>length p \<le> length q\<close> \<open>length q \<le> length s\<close> by (cases u) auto
qed

text \<open>The loop of \<open>ParseDuration\<close>; the sum is a \<open>uint64\<close>.\<close>

function duration_loop :: "int \<Rightarrow> string \<Rightarrow> int option" where
  "duration_loop d s =
     (if s = [] then Some d
      else
        (case duration_part s of
           None \<Rightarrow> None
         | Some (v, r) \<Rightarrow>
             let d' = (d + v) mod 2 ^ 64
             in if 2 ^ 63 < d' then None else duration_loop d' r))"
  by pat_completeness auto
termination by (relation "measure (\<lambda>(_, s). length s)") (auto dest: duration_part_shorter)

declare duration_loop.simps [simp del]

definition ParseDuration :: "string \<Rightarrow> duration option" where
  "ParseDuration s =
     (let neg = HasPrefix s ''-'';
          s = (if HasPrefix s ''-'' \<or> HasPrefix s ''+'' then tl s else s)
      in if s = ''0'' then Some 0
         else if s = [] then None
         else
           (case duration_loop 0 s of
              None \<Rightarrow> None
            | Some d \<Rightarrow>
                if neg then Some (- d) else if 2 ^ 63 \<le> d then None else Some d))"

lemma ParseDuration_samples:
  "ParseDuration ''1m30s'' = Some (90 * Second) \<and> ParseDuration ''-3us'' = Some (- 3000)
   \<and> ParseDuration ''10'' = None"
  by code_simp

text \<open>Every duration fits in an \<open>int64\<close>.\<close>

lemma duration_loop_range:
  "duration_loop d s = Some n \<Longrightarrow> 0 \<le> d \<Longrightarrow> d \<le> 2 ^ 63 \<Longrightarrow> 0 \<le> n \<and> n \<le> 2 ^ 63"
proof (induction d s rule: duration_loop.induct)
  case (1 d s)
  show ?case
  proof (cases "s = []")
    case False
    with 1(2) obtain v r where v: "duration_part s = Some (v, r)" "\<not> 2 ^ 63 < (d + v) mod 2 ^ 64"
      "duration_loop ((d + v) mod 2 ^ 64) r = Some n"
      by (auto simp: duration_loop.simps [of d s] Let_def split: option.splits if_splits)
    from 1(1) [OF False v(1) refl refl v(2,3)] v(2) show ?thesis by simp
  qed (use 1 in \<open>simp add: duration_loop.simps\<close>)
qed

lemma ParseDuration_range: "ParseDuration s = Some d \<Longrightarrow> - (2 ^ 63) \<le> d \<and> d < 2 ^ 63"
  by (auto simp: ParseDuration_def Let_def dest!: duration_loop_range split: if_splits option.splits)

end
