(* ===== verification/Config.thy ===== *)
theory Config
  imports GoUrl GoTime
begin

text \<open>
  \<^verbatim>\<open>internal/config/config.go\<close>: the configuration is read from the environment, which is the
  parameter \<open>getenv\<close> (\<open>os.Getenv\<close> gives the empty string for a variable that is not set).  Messages
  of errors keep their constant parts only.
\<close>

type_synonym StorageMode = string
type_synonym CacheMode = string

definition StorageMemory :: StorageMode where "StorageMemory = ''memory''"
definition StoragePostgres :: StorageMode where "StoragePostgres = ''postgres''"
definition CacheNone :: CacheMode where "CacheNone = ''none''"
definition CacheRedis :: CacheMode where "CacheRedis = ''redis''"

record Config =
  cfg_Storage :: StorageMode
  cfg_DatabaseURL :: string
  cfg_Cache :: CacheMode
  cfg_RedisURL :: string
  cfg_CacheOperationTimeout :: duration
  cfg_CacheActiveTTL :: duration
  cfg_CacheInactiveTTL :: duration
  cfg_Addr :: string
  cfg_BaseURL :: string
  cfg_ShutdownTimeout :: duration
  cfg_DiagnosticsToken :: string

text \<open>A trimmed variable, or its default when that is empty.\<close>

definition loadPositiveDuration :: "(string \<Rightarrow> string) \<Rightarrow> string \<Rightarrow> string \<Rightarrow> err + duration" where
  "loadPositiveDuration getenv name defaultValue =
     (let raw = TrimSpace (getenv name);
          raw = (if raw = [] then defaultValue else raw)
      in case ParseDuration raw of
           None \<Rightarrow> Inl (Wrap (''invalid '' @ name) (Foreign ''time: invalid duration''))
         | Some v \<Rightarrow> if v \<le> 0 then Inl (Plain (name @ '' must be positive'')) else Inr v)"

text \<open>The part of \<open>Load\<close> that reads and checks the public URL.\<close>

definition load_base_url :: "(string \<Rightarrow> string) \<Rightarrow> err + string" where
  "load_base_url getenv =
     (let baseURL = TrimSpace (getenv ''TINYURL_BASE_URL'');
          baseURL = (if baseURL = [] then ''http://localhost:8080'' else baseURL);
          baseURL = TrimRight CHR ''/'' baseURL
      in case Parse baseURL of
           Inl e \<Rightarrow> Inl (Wrap ''invalid TINYURL_BASE_URL'' e)
         | Inr u \<Rightarrow>
             if Scheme u \<noteq> ''http'' \<and> Scheme u \<noteq> ''https''
             then Inl (Plain ''TINYURL_BASE_URL must use http or https'')
             else if Host u = [] then Inl (Plain ''TINYURL_BASE_URL must be absolute URL'')
             else if RawQuery u \<noteq> [] \<or> Fragment u \<noteq> []
             then Inl (Plain ''TINYURL_BASE_URL must not contain a query or fragment'')
             else Inr baseURL)"

definition Load :: "(string \<Rightarrow> string) \<Rightarrow> (string \<Rightarrow> string) \<Rightarrow> err + Config" where
  "Load ul getenv =
     (let storage = ToLower ul (TrimSpace (getenv ''TINYURL_STORAGE''));
          storage = (if storage = [] then StorageMemory else storage)
      in if storage \<noteq> StorageMemory \<and> storage \<noteq> StoragePostgres then Inl (Plain ''invalid TINYURL_STORAGE'')
      else
      let databaseURL = TrimSpace (getenv ''TINYURL_DATABASE_URL'')
      in if storage = StoragePostgres \<and> databaseURL = []
      then Inl (Plain ''TINYURL_DATABASE_URL is required when TINYURL_STORAGE=postgres'')
      else
      let addr = TrimSpace (getenv ''TINYURL_ADDR'');
          addr = (if addr = [] then '':8080'' else addr)
      in case load_base_url getenv of Inl e \<Rightarrow> Inl e | Inr baseURL \<Rightarrow>
      (case loadPositiveDuration getenv ''TINYURL_SHUTDOWN_TIMEOUT'' ''10s'' of Inl e \<Rightarrow> Inl e | Inr shutdownTimeout \<Rightarrow>
      let diagnosticsToken = TrimSpace (getenv ''TINYURL_DIAGNOSTICS_TOKEN'');
          cache = ToLower ul (TrimSpace (getenv ''TINYURL_CACHE''));
          cache = (if cache = [] then CacheNone else cache)
      in if cache \<noteq> CacheNone \<and> cache \<noteq> CacheRedis then Inl (Plain ''invalid TINYURL_CACHE'')
      else
      let redisURL = TrimSpace (getenv ''TINYURL_REDIS_URL'')
      in if cache = CacheRedis \<and> redisURL = []
      then Inl (Plain ''TINYURL_REDIS_URL is required when TINYURL_CACHE=redis'')
      else
      (case loadPositiveDuration getenv ''TINYURL_CACHE_OPERATION_TIMEOUT'' ''25ms'' of Inl e \<Rightarrow> Inl e | Inr operationTimeout \<Rightarrow>
      (case loadPositiveDuration getenv ''TINYURL_CACHE_ACTIVE_TTL'' ''60s'' of Inl e \<Rightarrow> Inl e | Inr activeTTL \<Rightarrow>
      (case loadPositiveDuration getenv ''TINYURL_CACHE_INACTIVE_TTL'' ''30s'' of Inl e \<Rightarrow> Inl e | Inr inactiveTTL \<Rightarrow>
        Inr \<lparr>cfg_Storage = storage, cfg_DatabaseURL = databaseURL, cfg_Cache = cache, cfg_RedisURL = redisURL,
             cfg_CacheOperationTimeout = operationTimeout, cfg_CacheActiveTTL = activeTTL,
             cfg_CacheInactiveTTL = inactiveTTL, cfg_Addr = addr, cfg_BaseURL = baseURL,
             cfg_ShutdownTimeout = shutdownTimeout, cfg_DiagnosticsToken = diagnosticsToken\<rparr>)))))"

section \<open>What a loaded configuration promises\<close>

definition base_url_ok :: "string \<Rightarrow> bool" where
  "base_url_ok base \<longleftrightarrow>
     (\<exists>u. Parse base = Inr u \<and> (Scheme u = ''http'' \<or> Scheme u = ''https'') \<and> Host u \<noteq> []
        \<and> RawQuery u = [] \<and> Fragment u = [])
     \<and> (base = [] \<or> last base \<noteq> CHR ''/'')"

definition duration_ok :: "duration \<Rightarrow> bool" where
  "duration_ok d \<longleftrightarrow> 0 < d \<and> d < 2 ^ 63"

definition config_valid :: "Config \<Rightarrow> bool" where
  "config_valid cfg \<longleftrightarrow>
     (cfg_Storage cfg = StorageMemory \<or> cfg_Storage cfg = StoragePostgres \<and> cfg_DatabaseURL cfg \<noteq> [])
     \<and> (cfg_Cache cfg = CacheNone \<or> cfg_Cache cfg = CacheRedis \<and> cfg_RedisURL cfg \<noteq> [])
     \<and> list_all duration_ok [cfg_CacheOperationTimeout cfg, cfg_CacheActiveTTL cfg, cfg_CacheInactiveTTL cfg,
          cfg_ShutdownTimeout cfg]
     \<and> cfg_Addr cfg \<noteq> [] \<and> base_url_ok (cfg_BaseURL cfg)"

lemma TrimRight_last: "TrimRight c s = [] \<or> last (TrimRight c s) \<noteq> c"
proof (cases "dropWhile (\<lambda>x. x = c) (rev s)")
  case (Cons y ys)
  with hd_dropWhile [of "\<lambda>x. x = c" "rev s"] show ?thesis by (simp add: TrimRight_def)
qed (simp add: TrimRight_def)

lemma load_base_url_ok: "load_base_url getenv = Inr base \<Longrightarrow> base_url_ok base"
  using TrimRight_last
  by (auto simp: load_base_url_def Let_def base_url_ok_def split: sum.splits if_splits)

lemma loadPositiveDuration_ok: "loadPositiveDuration getenv name dflt = Inr d \<Longrightarrow> duration_ok d"
  by (auto simp: loadPositiveDuration_def Let_def duration_ok_def dest: ParseDuration_range
      split: option.splits if_splits)

lemma guard_Inr_iff: "(if b then Inl e else r) = Inr y \<longleftrightarrow> \<not> b \<and> r = Inr y"
  by simp

lemma let_Inr_iff: "(let x = v in f x) = Inr y \<longleftrightarrow> (\<exists>x. v = x \<and> f x = Inr y)"
  by simp

lemma if_Nil: "(if x = [] then y else x) = [] \<longleftrightarrow> x = [] \<and> y = []"
  by simp

lemma Inr_sym: "Inr x = Inr y \<Longrightarrow> y = x"
  by simp

lemma Load_ok:
  assumes "Load ul getenv = Inr cfg"
  shows "config_valid cfg"
  using assms unfolding Load_def let_Inr_iff case_sum_Inr_iff guard_Inr_iff
  by (elim exE conjE) (drule Inr_sym, auto simp: config_valid_def if_Nil load_base_url_ok loadPositiveDuration_ok)

text \<open>C21: a configuration that loads names a storage and a cache the program has, with the address
  each needs; its durations are positive and fit in an \<open>int64\<close>; its public URL is an absolute
  http or https URL without query, fragment or trailing slash.\<close>

theorem Load_valid:
  assumes "Load ul getenv = Inr cfg"
  shows "config_valid cfg"
  using assms by (rule Load_ok)

lemma default_durations:
  "ParseDuration ''10s'' = Some (10 * Second) \<and> ParseDuration ''25ms'' = Some (25 * Millisecond)
   \<and> ParseDuration ''60s'' = Some (60 * Second) \<and> ParseDuration ''30s'' = Some (30 * Second)"
  by code_simp

lemma default_base_url:
  "load_base_url (\<lambda>_. '''') = Inr ''http://localhost:8080''"
  by code_simp

definition default_config :: Config where
  "default_config =
     \<lparr>cfg_Storage = StorageMemory, cfg_DatabaseURL = '''', cfg_Cache = CacheNone, cfg_RedisURL = '''',
      cfg_CacheOperationTimeout = 25 * Millisecond, cfg_CacheActiveTTL = 60 * Second,
      cfg_CacheInactiveTTL = 30 * Second, cfg_Addr = '':8080'', cfg_BaseURL = ''http://localhost:8080'',
      cfg_ShutdownTimeout = 10 * Second, cfg_DiagnosticsToken = ''''\<rparr>"

lemma Load_blank:
  assumes "\<And>name. TrimSpace (getenv name) = ''''"
  shows "Load ul getenv = Inr default_config"
proof -
  have b: "load_base_url getenv = Inr ''http://localhost:8080''"
    using default_base_url assms by (simp add: load_base_url_def)
  have "ToLower ul '''' = ''''" by (simp add: ToLower_def is_ascii_def)
  moreover have "StorageMemory \<noteq> StoragePostgres" "CacheNone \<noteq> CacheRedis"
    by (simp_all add: StorageMemory_def StoragePostgres_def CacheNone_def CacheRedis_def)
  ultimately show ?thesis
    using default_durations
    by (simp add: Load_def b assms loadPositiveDuration_def default_config_def Second_def Millisecond_def
        Nanosecond_def)
qed

text \<open>Without any variable set, or with blank ones, the defaults of the documentation are loaded.\<close>

theorem Load_defaults:
  assumes "\<And>name. TrimSpace (getenv name) = ''''"
  shows "Load ul getenv = Inr default_config"
  using assms by (rule Load_blank)

lemma Load_defaults_witness: "Load id (\<lambda>_. '' '') = Inr default_config"
proof (rule Load_defaults)
  show "TrimSpace '' '' = ''''" by code_simp
qed

lemma Load_valid_witness: "config_valid default_config"
proof (rule Load_valid)
  show "Load id (\<lambda>_. '''') = Inr default_config"
    using default_base_url default_durations by (simp add: Load_def) code_simp
qed

text \<open>A public URL that ends in \<open>?\<close> or \<open>#\<close> has an empty query or fragment and is let through.\<close>

theorem load_base_url_question_mark:
  "load_base_url (\<lambda>_. ''http://localhost:8080?'') = Inr ''http://localhost:8080?''
   \<and> load_base_url (\<lambda>_. ''http://localhost:8080/#'') = Inr ''http://localhost:8080/#''"
  by code_simp

end
