(* ===== verification/GoHttp.thy ===== *)
theory GoHttp
  imports GoUrl
begin

text \<open>
  The parts of Go's \<open>net/http\<close> and \<open>net\<close> packages the handlers use.  A handler is modelled as a
  function to a response: the handlers write the status once, after all headers.
\<close>

record http_request =
  rq_ctx :: ctx
  rq_Method :: string
  rq_Path :: string
  rq_EscapedPath :: string \<comment> \<open>the path as the request has it, \<open>r.URL.EscapedPath()\<close>\<close>
  rq_code :: string \<comment> \<open>\<open>PathValue("code")\<close>\<close>
  rq_Header :: "(string \<times> string) list"
  rq_RemoteAddr :: string
  rq_Body :: string

text \<open>Header names are the same up to the case of ASCII letters; the first value counts.\<close>

definition header_get :: "http_request \<Rightarrow> string \<Rightarrow> string" where
  "header_get r name =
     (case find (\<lambda>(n, _). map lower_char n = map lower_char name) (rq_Header r) of
        None \<Rightarrow> ''''
      | Some (_, v) \<Rightarrow> v)"

text \<open>A body is a text, or a value that is printed as JSON.\<close>

datatype 'j http_body = Text string | Json 'j

record 'j http_response =
  rp_Status :: nat
  rp_Header :: "(string \<times> string) list"
  rp_Body :: "'j http_body"

definition http_Error :: "string \<Rightarrow> nat \<Rightarrow> 'j http_response" where
  "http_Error msg status_code =
     \<lparr>rp_Status = status_code,
      rp_Header = [(''Content-Type'', ''text/plain; charset=utf-8''), (''X-Content-Type-Options'', ''nosniff'')],
      rp_Body = Text (msg @ [CHR 0x0A])\<rparr>"

definition http_NotFound :: "'j http_response" where
  "http_NotFound = http_Error ''404 page not found'' 404"

text \<open>\<open>http.Redirect\<close> to an absolute URL in answer to a GET: bytes outside ASCII are escaped in the
  header, and the special characters of HTML in the page.\<close>

definition lowerhex :: "nat \<Rightarrow> char" where
  "lowerhex n = (if n < 10 then char_of (0x30 + n) else char_of (0x61 + (n - 10)))"

definition hexEscapeNonASCII :: "string \<Rightarrow> string" where
  "hexEscapeNonASCII s =
     concat (map (\<lambda>c. let n = (of_char c :: nat) in
       if n < 0x80 then [c] else [CHR 0x25, lowerhex (n div 16), lowerhex (n mod 16)]) s)"

definition html_escape :: "string \<Rightarrow> string" where
  "html_escape s =
     concat (map (\<lambda>c.
       if c = CHR ''&'' then ''&amp;'' else if c = CHR ''<'' then ''&lt;''
       else if c = CHR ''>'' then ''&gt;'' else if c = CHR 0x22 then ''&#34;''
       else if c = CHR 0x27 then ''&#39;'' else [c]) s)"

definition http_Redirect :: "string \<Rightarrow> 'j http_response" where
  "http_Redirect target =
     \<lparr>rp_Status = 302,
      rp_Header = [(''Location'', hexEscapeNonASCII target), (''Content-Type'', ''text/html; charset=utf-8'')],
      rp_Body = Text ([CHR ''<'', CHR ''a''] @ '' href='' @ [CHR 0x22] @ html_escape target @ [CHR 0x22]
        @ ''>Found</a>.'' @ [CHR 0x0A, CHR 0x0A])\<rparr>"

text \<open>The host of a host and port, if \<open>net.SplitHostPort\<close> accepts them.\<close>

definition SplitHost :: "string \<Rightarrow> string option" where
  "SplitHost s =
     (case split_last (CHR '':'') s of
        None \<Rightarrow> None
      | Some (before, port) \<Rightarrow>
          if hd s = CHR ''['' then
            (let h = split_first (CHR '']'') (tl s)
             in if before = CHR ''['' # h @ '']'' \<and> CHR ''['' \<notin> set (tl s) \<and> CHR '']'' \<notin> set port
                then Some h else None)
          else if CHR '':'' \<in> set before \<or> CHR ''['' \<in> set s \<or> CHR '']'' \<in> set s then None
          else Some before)"

lemma SplitHost_samples:
  "SplitHost ''10.0.0.1:80'' = Some ''10.0.0.1''" "SplitHost ''[::1]:80'' = Some ''::1''"
  "SplitHost ''::1:80'' = None" "SplitHost ''host'' = None" "SplitHost ''[::1]'' = None"
  by code_simp+

end
