(* ===== verification/Health.thy ===== *)
theory Health
  imports GoHttp Metrics Ports
begin

text \<open>
  \<^verbatim>\<open>internal/health/health.go\<close>, and the HTTP handler of \<^verbatim>\<open>internal/metrics/recorder.go\<close>, which
  protects its snapshot in the same way.  Parameters are \<open>sha256\<close>, \<open>time.Now\<close>,
  \<open>context.WithTimeout\<close> and the text of an error.
\<close>

section \<open>Checks\<close>

definition readinessTimeout :: duration where
  "readinessTimeout = 2 * Second"

type_synonym ('c, 's) Checker = "'c \<Rightarrow> 's \<Rightarrow> err option \<times> 's"

record 's ComponentCheck =
  k_Name :: string
  k_Required :: bool
  k_Checker :: "(ctx, 's) Checker option"

record 's HealthHandler =
  hh_readiness :: "(ctx, 's) Checker option"
  hh_diagnostics :: "'s ComponentCheck list"
  hh_diagnosticsToken :: string

definition NewHealthHandler ::
    "(ctx, 's) Checker option \<Rightarrow> 's ComponentCheck list \<Rightarrow> string \<Rightarrow> 's HealthHandler" where
  "NewHealthHandler readiness diagnostics diagnosticsToken =
     \<lparr>hh_readiness = readiness, hh_diagnostics = diagnostics, hh_diagnosticsToken = diagnosticsToken\<rparr>"

record check_response =
  dr_Status :: string
  dr_Required :: bool
  dr_LatencyMS :: int
  dr_Error :: string

datatype health_json =
    StatusJson string
  | DiagnosticsJson string "string \<Rightarrow> check_response option"

definition health_writeJSON :: "nat \<Rightarrow> 'j \<Rightarrow> 'j http_response" where
  "health_writeJSON statusCode v =
     \<lparr>rp_Status = statusCode,
      rp_Header = [(''Content-Type'', ''application/json''), (''Cache-Control'', ''no-store'')],
      rp_Body = Json v\<rparr>"

definition Liveness :: "health_json http_response" where
  "Liveness = health_writeJSON 200 (StatusJson ''ok'')"

definition Readiness ::
    "(ctx \<Rightarrow> duration \<Rightarrow> ctx) \<Rightarrow> 's HealthHandler \<Rightarrow> http_request \<Rightarrow> 's \<Rightarrow> health_json http_response \<times> 's" where
  "Readiness timeout h r s =
     (case hh_readiness h of
        None \<Rightarrow> (health_writeJSON 503 (StatusJson ''not_ready''), s)
      | Some check \<Rightarrow>
          (case check (timeout (rq_ctx r) readinessTimeout) s of
             (Some e, s1) \<Rightarrow> (health_writeJSON 503 (StatusJson ''not_ready''), s1)
           | (None, s1) \<Rightarrow> (health_writeJSON 200 (StatusJson ''ok''), s1)))"

section \<open>Authorization\<close>

definition tokenMatches :: "(string \<Rightarrow> string) \<Rightarrow> string \<Rightarrow> string \<Rightarrow> bool" where
  "tokenMatches sha256 actual expected \<longleftrightarrow>
     \<not> (actual = [] \<or> expected = []) \<and> sha256 actual = sha256 expected"

definition authorized :: "(string \<Rightarrow> string) \<Rightarrow> http_request \<Rightarrow> string \<Rightarrow> bool" where
  "authorized sha256 r expected =
     (if tokenMatches sha256 (header_get r ''X-Diagnostics-Token'') expected then True
      else if tokenMatches sha256 (header_get r ''X-Admin-Token'') expected then True
      else
        (case CutPrefix (TrimSpace (header_get r ''Authorization'')) ''Bearer '' of
           (bearerToken, ok) \<Rightarrow>
             if \<not> ok then False else tokenMatches sha256 (TrimSpace bearerToken) expected))"

section \<open>Diagnostics\<close>

definition runComponentCheck ::
    "(ctx \<Rightarrow> duration \<Rightarrow> ctx) \<Rightarrow> (err \<Rightarrow> string) \<Rightarrow> 's clock \<Rightarrow> ctx \<Rightarrow> 's ComponentCheck \<Rightarrow> 's
     \<Rightarrow> check_response \<times> 's" where
  "runComponentCheck timeout error_text TimeNow parent check s =
     (case TimeNow s of (started, s1) \<Rightarrow>
        (let ctx = timeout parent readinessTimeout;
             result = \<lparr>dr_Status = ''ok'', dr_Required = k_Required check, dr_LatencyMS = 0, dr_Error = ''''\<rparr>;
             (result, s2) =
               (case k_Checker check of
                  None \<Rightarrow> (result\<lparr>dr_Status := ''error'', dr_Error := ''checker is not configured''\<rparr>, s1)
                | Some f \<Rightarrow>
                    (case f ctx s1 of
                       (Some e, s2) \<Rightarrow> (result\<lparr>dr_Status := ''error'', dr_Error := error_text e\<rparr>, s2)
                     | (None, s2) \<Rightarrow> (result, s2)))
         in case TimeNow s2 of (ended, s3) \<Rightarrow>
              (result\<lparr>dr_LatencyMS := Milliseconds (Sub ended started)\<rparr>, s3)))"

text \<open>The loop over the checks: the answers by name, the overall status and its code.\<close>

fun diagnostics_loop ::
    "(ctx \<Rightarrow> duration \<Rightarrow> ctx) \<Rightarrow> (err \<Rightarrow> string) \<Rightarrow> 's clock \<Rightarrow> ctx \<Rightarrow> 's ComponentCheck list
     \<Rightarrow> (string \<Rightarrow> check_response option) \<Rightarrow> string \<Rightarrow> nat \<Rightarrow> 's
     \<Rightarrow> (string \<Rightarrow> check_response option) \<times> string \<times> nat \<times> 's" where
  "diagnostics_loop timeout error_text TimeNow ctx [] checks overall statusCode s =
     (checks, overall, statusCode, s)"
| "diagnostics_loop timeout error_text TimeNow ctx (check # rest) checks overall statusCode s =
     (case runComponentCheck timeout error_text TimeNow ctx check s of
        (result, s1) \<Rightarrow>
          (let checks = checks(k_Name check \<mapsto> result)
           in if dr_Status result = ''ok''
              then diagnostics_loop timeout error_text TimeNow ctx rest checks overall statusCode s1
              else if dr_Required result
              then diagnostics_loop timeout error_text TimeNow ctx rest checks ''not_ready'' 503 s1
              else diagnostics_loop timeout error_text TimeNow ctx rest checks
                     (if overall = ''ok'' then ''degraded'' else overall) statusCode s1))"

definition Diagnostics ::
    "(string \<Rightarrow> string) \<Rightarrow> (ctx \<Rightarrow> duration \<Rightarrow> ctx) \<Rightarrow> (err \<Rightarrow> string) \<Rightarrow> 's clock \<Rightarrow> 's HealthHandler
     \<Rightarrow> http_request \<Rightarrow> 's \<Rightarrow> health_json http_response \<times> 's" where
  "Diagnostics sha256 timeout error_text TimeNow h r s =
     (if hh_diagnosticsToken h = [] then (health_writeJSON 404 (StatusJson ''not_found''), s)
      else if \<not> authorized sha256 r (hh_diagnosticsToken h)
      then (health_writeJSON 401 (StatusJson ''unauthorized''), s)
      else
        (case diagnostics_loop timeout error_text TimeNow (rq_ctx r) (hh_diagnostics h) Map.empty ''ok'' 200 s of
           (checks, overall, statusCode, s1) \<Rightarrow>
             (health_writeJSON statusCode (DiagnosticsJson overall checks), s1)))"

section \<open>The handler of the metrics\<close>

text \<open>The handler points to the recorder: \<open>mh_recorder\<close> reads it from the state.\<close>

record 's MetricsHandler =
  mh_recorder :: "'s \<Rightarrow> Recorder option"
  mh_token :: string

definition NewMetricsHandler :: "('s \<Rightarrow> Recorder option) \<Rightarrow> string \<Rightarrow> 's MetricsHandler" where
  "NewMetricsHandler recorder token = \<lparr>mh_recorder = recorder, mh_token = token\<rparr>"

datatype metrics_json = MetricsStatusJson string | SnapshotJson Snapshot

definition metrics_tokenMatches :: "(string \<Rightarrow> string) \<Rightarrow> string \<Rightarrow> string \<Rightarrow> bool" where
  "metrics_tokenMatches sha256 actual expected \<longleftrightarrow>
     \<not> (actual = [] \<or> expected = []) \<and> sha256 actual = sha256 expected"

definition metrics_authorized :: "(string \<Rightarrow> string) \<Rightarrow> http_request \<Rightarrow> string \<Rightarrow> bool" where
  "metrics_authorized sha256 r expected =
     (if metrics_tokenMatches sha256 (header_get r ''X-Diagnostics-Token'') expected then True
      else if metrics_tokenMatches sha256 (header_get r ''X-Admin-Token'') expected then True
      else
        (case CutPrefix (TrimSpace (header_get r ''Authorization'')) ''Bearer '' of
           (bearerToken, ok) \<Rightarrow>
             if \<not> ok then False else metrics_tokenMatches sha256 (TrimSpace bearerToken) expected))"

definition metrics_writeJSON :: "nat \<Rightarrow> 'j \<Rightarrow> 'j http_response" where
  "metrics_writeJSON statusCode v =
     \<lparr>rp_Status = statusCode,
      rp_Header = [(''Content-Type'', ''application/json''), (''Cache-Control'', ''no-store'')],
      rp_Body = Json v\<rparr>"

definition Metrics_ServeHTTP ::
    "(string \<Rightarrow> string) \<Rightarrow> 's clock \<Rightarrow> 's MetricsHandler \<Rightarrow> http_request \<Rightarrow> 's \<Rightarrow> metrics_json http_response \<times> 's" where
  "Metrics_ServeHTTP sha256 TimeNow h r s =
     (if mh_token h = [] then (metrics_writeJSON 404 (MetricsStatusJson ''not_found''), s)
      else if \<not> metrics_authorized sha256 r (mh_token h)
      then (metrics_writeJSON 401 (MetricsStatusJson ''unauthorized''), s)
      else
        (case TimeNow s of
           (now, s1) \<Rightarrow> (metrics_writeJSON 200 (SnapshotJson (Recorder_Snapshot now (mh_recorder h s1))), s1)))"

section \<open>Who is authorized\<close>

text \<open>The tokens a request presents.\<close>

definition presented :: "http_request \<Rightarrow> string set" where
  "presented r =
     {header_get r ''X-Diagnostics-Token'', header_get r ''X-Admin-Token''}
     \<union> {TrimSpace t |t. TrimSpace (header_get r ''Authorization'') = ''Bearer '' @ t}"

lemma CutPrefix_Bearer:
  "CutPrefix s p = (t, ok) \<Longrightarrow> ok \<and> s = p @ t \<or> \<not> ok \<and> (\<forall>t. s \<noteq> p @ t)"
  by (auto simp: CutPrefix_def HasPrefix_iff split: if_splits)

lemma authorized_iff:
  "authorized sha256 r expected \<longleftrightarrow> (\<exists>t \<in> presented r. tokenMatches sha256 t expected)"
proof -
  obtain t ok where "CutPrefix (TrimSpace (header_get r ''Authorization'')) ''Bearer '' = (t, ok)" by fastforce
  with CutPrefix_Bearer [OF this] show ?thesis
    by (cases ok) (auto simp: authorized_def presented_def)
qed

lemma metrics_authorized_eq: "metrics_authorized = authorized"
  by (intro ext) (simp add: metrics_authorized_def authorized_def metrics_tokenMatches_def tokenMatches_def)

text \<open>The text that the hash function is not to confuse with another is the configured token.\<close>

lemma authorized_token:
  assumes "\<forall>t. sha256 t = sha256 token \<longrightarrow> t = token" "token \<noteq> []"
  shows "authorized sha256 r token \<longleftrightarrow> token \<in> presented r"
  using assms unfolding authorized_iff tokenMatches_def by metis

section \<open>What diagnostics report\<close>

text \<open>The results of the checks, in their order.\<close>

fun check_results ::
    "(ctx \<Rightarrow> duration \<Rightarrow> ctx) \<Rightarrow> (err \<Rightarrow> string) \<Rightarrow> 's clock \<Rightarrow> ctx \<Rightarrow> 's ComponentCheck list \<Rightarrow> 's
     \<Rightarrow> (string \<times> check_response) list \<times> 's" where
  "check_results timeout error_text TimeNow ctx [] s = ([], s)"
| "check_results timeout error_text TimeNow ctx (check # rest) s =
     (case runComponentCheck timeout error_text TimeNow ctx check s of (result, s1) \<Rightarrow>
        (case check_results timeout error_text TimeNow ctx rest s1 of (results, s2) \<Rightarrow>
           ((k_Name check, result) # results, s2)))"

definition failing :: "(string \<times> check_response) list \<Rightarrow> check_response list" where
  "failing results = filter (\<lambda>x. dr_Status x \<noteq> ''ok'') (map snd results)"

lemma failing_simps [simp]:
  "failing [] = []"
  "failing ((n, x) # results) = (if dr_Status x = ''ok'' then failing results else x # failing results)"
  by (simp_all add: failing_def)

lemma map_add_single: "m ++ (\<lambda>a. if a = k then Some x else None) = (\<lambda>a. if a = k then Some x else m a)"
  by (auto simp: map_add_def)

lemma diagnostics_loop_eq:
  assumes "check_results timeout error_text TimeNow ctx checks s = (results, s')"
    and "overall \<in> {''ok'', ''degraded'', ''not_ready''}"
  shows "diagnostics_loop timeout error_text TimeNow ctx checks m overall sc s =
    (m ++ map_of (rev results),
     if \<exists>x \<in> set (failing results). dr_Required x then ''not_ready''
     else if overall = ''ok'' \<and> failing results \<noteq> [] then ''degraded'' else overall,
     if \<exists>x \<in> set (failing results). dr_Required x then 503 else sc, s')"
  using assms
proof (induction checks arbitrary: m overall sc s results)
  case (Cons check checks)
  obtain x s1 where x: "runComponentCheck timeout error_text TimeNow ctx check s = (x, s1)" by fastforce
  obtain xs s2 where xs: "check_results timeout error_text TimeNow ctx checks s1 = (xs, s2)" by fastforce
  have r: "results = (k_Name check, x) # xs" "s' = s2" using Cons.prems(1) x xs by auto
  note IH = Cons.IH [OF xs [folded r(2)]]
  consider "dr_Status x = ''ok''" | "dr_Status x \<noteq> ''ok''" "dr_Required x" | "dr_Status x \<noteq> ''ok''" "\<not> dr_Required x"
    by blast
  then show ?case
  proof cases
    case 1
    with IH [OF Cons.prems(2)] x show ?thesis by (simp add: r(1) fun_upd_def map_add_single)
  next
    case 2
    with IH [of "''not_ready''"] x show ?thesis by (simp add: r(1) fun_upd_def map_add_single)
  next
    case 3
    show ?thesis
    proof (cases "overall = ''ok''")
      case True
      with 3 IH [of "''degraded''"] x show ?thesis by (simp add: r(1) fun_upd_def map_add_single)
    next
      case False
      with 3 IH [OF Cons.prems(2)] x show ?thesis by (simp add: r(1) fun_upd_def map_add_single)
    qed
  qed
qed simp

section \<open>The properties\<close>

text \<open>C22: without a configured token, or from a request that does not present it, the diagnostics and
  the metrics answer 404 or 401 and nothing else: no check is run and the state stays as it is.  The
  hash is only asked not to confuse another text with the token.\<close>

theorem protected_endpoints:
  assumes "\<forall>t. sha256 t = sha256 token \<longrightarrow> t = token" "token = [] \<or> token \<notin> presented r"
    and "hh_diagnosticsToken h = token" "mh_token mh = token"
  shows "Diagnostics sha256 timeout error_text TimeNow h r s =
      (if token = [] then (health_writeJSON 404 (StatusJson ''not_found''), s)
       else (health_writeJSON 401 (StatusJson ''unauthorized''), s))
    \<and> Metrics_ServeHTTP sha256 TimeNow mh r s =
      (if token = [] then (metrics_writeJSON 404 (MetricsStatusJson ''not_found''), s)
       else (metrics_writeJSON 401 (MetricsStatusJson ''unauthorized''), s))"
proof (cases "token = []")
  case False
  with authorized_token [OF assms(1)] assms(2) have "\<not> authorized sha256 r token" by blast
  with False assms(3,4) show ?thesis
    by (simp add: Diagnostics_def Metrics_ServeHTTP_def metrics_authorized_eq)
qed (use assms(3,4) in \<open>simp add: Diagnostics_def Metrics_ServeHTTP_def\<close>)

text \<open>A request that presents a token as a bearer, and a state that counts the readings of its clock.\<close>

definition bearer_request :: "string \<Rightarrow> http_request" where
  "bearer_request t =
     \<lparr>rq_ctx = None, rq_Method = ''GET'', rq_Path = ''/internal/diagnostics'',
      rq_EscapedPath = ''/internal/diagnostics'', rq_code = '''',
      rq_Header = [(''authorization'', ''Bearer '' @ t)], rq_RemoteAddr = ''10.0.0.1:80'', rq_Body = ''''\<rparr>"

definition tick :: "int clock" where
  "tick n = (n, n + Millisecond)"

definition sample_checks :: "int ComponentCheck list" where
  "sample_checks =
     [\<lparr>k_Name = ''memory'', k_Required = True, k_Checker = Some (\<lambda>_ s. (None, s))\<rparr>,
      \<lparr>k_Name = ''redis'', k_Required = False, k_Checker = Some (\<lambda>_ s. (Some (Plain ''down''), s))\<rparr>]"

lemma protected_endpoints_witness:
  "Diagnostics id (\<lambda>c _. c) (\<lambda>_. ''error'') tick (NewHealthHandler None sample_checks ''secret'')
     (bearer_request ''guess'') 7 = (health_writeJSON 401 (StatusJson ''unauthorized''), 7)"
proof -
  have "header_get (bearer_request ''guess'') ''X-Diagnostics-Token'' = ''''"
    "header_get (bearer_request ''guess'') ''X-Admin-Token'' = ''''"
    "TrimSpace (header_get (bearer_request ''guess'') ''Authorization'') = ''Bearer guess''"
    by code_simp+
  moreover have "TrimSpace ''guess'' = ''guess''" by code_simp
  ultimately have "''secret'' \<notin> presented (bearer_request ''guess'')"
    by (simp add: presented_def)
  with protected_endpoints [of id "''secret''" "bearer_request ''guess''" "NewHealthHandler None sample_checks ''secret''"
      "NewMetricsHandler (\<lambda>_. None) ''secret''" "\<lambda>c _. c" "\<lambda>_. ''error''" tick 7]
  show ?thesis by (simp add: NewHealthHandler_def NewMetricsHandler_def)
qed

text \<open>C30: a request that presents the token has every check run once, in order; the answer holds the
  last result under each name, its status is 503 exactly when a required check failed, and the
  overall status is \<open>not_ready\<close> then, \<open>degraded\<close> when only optional checks failed, and \<open>ok\<close>
  otherwise.\<close>

theorem diagnostics_report:
  assumes "hh_diagnosticsToken h \<in> presented r" "hh_diagnosticsToken h \<noteq> []"
    and "check_results timeout error_text TimeNow (rq_ctx r) (hh_diagnostics h) s = (results, s')"
  shows "Diagnostics sha256 timeout error_text TimeNow h r s =
    (health_writeJSON (if \<exists>x \<in> set (failing results). dr_Required x then 503 else 200)
       (DiagnosticsJson
          (if \<exists>x \<in> set (failing results). dr_Required x then ''not_ready''
           else if failing results \<noteq> [] then ''degraded'' else ''ok'')
          (map_of (rev results))), s')"
proof -
  have "tokenMatches sha256 (hh_diagnosticsToken h) (hh_diagnosticsToken h)"
    using assms(2) by (simp add: tokenMatches_def)
  then have "authorized sha256 r (hh_diagnosticsToken h)"
    using assms(1) authorized_iff by blast
  with diagnostics_loop_eq [OF assms(3), of "''ok''" Map.empty 200] assms(2) show ?thesis
    by (simp add: Diagnostics_def)
qed

lemma diagnostics_report_witness:
  "rp_Status (fst (Diagnostics id (\<lambda>c _. c) (\<lambda>_. ''error'') tick (NewHealthHandler None sample_checks ''secret'')
     (bearer_request ''secret'') 7)) = 200"
proof -
  let ?h = "NewHealthHandler None sample_checks ''secret''" and ?r = "bearer_request ''secret''"
  have "TrimSpace (header_get ?r ''Authorization'') = ''Bearer '' @ ''secret''" "TrimSpace ''secret'' = ''secret''"
    by code_simp+
  then have "\<exists>t. ''secret'' = TrimSpace t \<and> TrimSpace (header_get ?r ''Authorization'') = ''Bearer '' @ t"
    by metis
  then have p: "hh_diagnosticsToken ?h \<in> presented ?r"
    by (auto simp: presented_def NewHealthHandler_def)
  have c: "check_results (\<lambda>c _. c) (\<lambda>_. ''error'') tick (rq_ctx ?r) (hh_diagnostics ?h) 7 =
      ([(''memory'', \<lparr>dr_Status = ''ok'', dr_Required = True, dr_LatencyMS = 1, dr_Error = ''''\<rparr>),
        (''redis'', \<lparr>dr_Status = ''error'', dr_Required = False, dr_LatencyMS = 1, dr_Error = ''error''\<rparr>)],
       7 + 4 * Millisecond)"
    by code_simp
  have "hh_diagnosticsToken ?h \<noteq> []" by (simp add: NewHealthHandler_def)
  from diagnostics_report [OF p this c] show ?thesis by (simp add: health_writeJSON_def)
qed

end
