(* ===== verification/GoJson.thy ===== *)
theory GoJson
  imports GoUrl
begin

text \<open>
  Decoding JSON the way Go's \<open>encoding/json\<close> does, as far as the handlers use it: one value is
  read from the start of the body (what follows it is ignored) and stored into a struct whose fields
  are strings, pointers to strings, a raw value or a pointer to a \<open>time.Time\<close>.  Which error a body
  that cannot be decoded gives makes no difference to the program, so it is \<open>None\<close>.
\<close>

section \<open>The syntax of values\<close>

definition json_space :: "char \<Rightarrow> bool" where
  "json_space c \<longleftrightarrow> c \<in> {CHR '' '', CHR 0x09, CHR 0x0A, CHR 0x0D}"

definition skip_space :: "string \<Rightarrow> string" where
  "skip_space s = dropWhile json_space s"

text \<open>What follows a string, from behind its opening quote.\<close>

function string_rest :: "string \<Rightarrow> string option" where
  "string_rest [] = None"
| "string_rest (c # s) =
     (if c = CHR 0x22 then Some s
      else if c = CHR 0x5C then
        (case s of
           [] \<Rightarrow> None
         | e # r \<Rightarrow>
             if e = CHR ''u'' then
               (if 4 \<le> length r \<and> list_all ishex (take 4 r) then string_rest (drop 4 r) else None)
             else if e \<in> {CHR 0x22, CHR 0x5C, CHR ''/'', CHR ''b'', CHR ''f'', CHR ''n'', CHR ''r'', CHR ''t''}
             then string_rest r else None)
      else if (of_char c :: nat) < 0x20 then None
      else string_rest s)"
  by pat_completeness auto
termination by (relation "measure length") auto

text \<open>What follows a number.\<close>

definition digits_rest :: "string \<Rightarrow> string option" where
  "digits_rest s = (if s \<noteq> [] \<and> is_digit (hd s) then Some (dropWhile is_digit s) else None)"

definition fraction_rest :: "string \<Rightarrow> string option" where
  "fraction_rest s =
     (case s of
        c # r \<Rightarrow> if c = CHR ''.'' then digits_rest r else Some s
      | [] \<Rightarrow> Some s)"

definition exponent_rest :: "string \<Rightarrow> string option" where
  "exponent_rest s =
     (case s of
        c # r \<Rightarrow>
          if c \<in> {CHR ''e'', CHR ''E''}
          then digits_rest (if r \<noteq> [] \<and> hd r \<in> {CHR ''+'', CHR ''-''} then tl r else r)
          else Some s
      | [] \<Rightarrow> Some s)"

definition number_rest :: "string \<Rightarrow> string option" where
  "number_rest s =
     (let s = (if s \<noteq> [] \<and> hd s = CHR ''-'' then tl s else s) in
      case (if s \<noteq> [] \<and> hd s = CHR ''0'' then Some (tl s) else digits_rest s) of
        None \<Rightarrow> None
      | Some r \<Rightarrow> (case fraction_rest r of None \<Rightarrow> None | Some q \<Rightarrow> exponent_rest q))"

text \<open>What follows a string, a literal or a number.\<close>

definition scalar_rest :: "string \<Rightarrow> string option" where
  "scalar_rest s =
     (if s \<noteq> [] \<and> hd s = CHR 0x22 then string_rest (tl s)
      else if HasPrefix s ''true'' then Some (drop 4 s)
      else if HasPrefix s ''false'' then Some (drop 5 s)
      else if HasPrefix s ''null'' then Some (drop 4 s)
      else number_rest s)"

text \<open>What follows a key and its colon.\<close>

definition key_rest :: "string \<Rightarrow> string option" where
  "key_rest s =
     (if s \<noteq> [] \<and> hd s = CHR 0x22 then
        (case string_rest (tl s) of
           None \<Rightarrow> None
         | Some r \<Rightarrow>
             (let q = skip_space r in if q \<noteq> [] \<and> hd q = CHR '':'' then Some (tl q) else None))
      else None)"

lemma string_rest_shorter: "string_rest s = Some r \<Longrightarrow> length r < length s"
proof (induction s arbitrary: r rule: string_rest.induct)
  case (2 c s)
  show ?case
  proof (cases "c = CHR 0x5C")
    case False
    with 2(3,4) show ?thesis by (cases "c = CHR 0x22") (auto split: if_splits)
  next
    case True
    then obtain e q where s: "s = e # q" using 2(4) by (cases s) auto
    show ?thesis
    proof (cases "e = CHR ''u''")
      case e: True
      with True s 2(4) have "4 \<le> length q" "list_all ishex (take 4 q)" "string_rest (drop 4 q) = Some r"
        by (auto split: if_splits)
      with 2(1) [OF _ True s e] True s show ?thesis by auto
    next
      case False
      with True s 2(4) 2(2) [OF _ True s False] show ?thesis by (auto split: if_splits)
    qed
  qed
qed simp

declare string_rest.simps(2) [simp del]

lemma skip_space_le: "length (skip_space s) \<le> length s"
  by (simp add: skip_space_def length_dropWhile_le)

lemma digits_rest_shorter: "digits_rest s = Some r \<Longrightarrow> length r < length s"
  by (cases s) (auto simp: digits_rest_def le_imp_less_Suc length_dropWhile_le split: if_splits)

lemma fraction_rest_le: "fraction_rest s = Some r \<Longrightarrow> length r \<le> length s"
  by (auto simp: fraction_rest_def dest: digits_rest_shorter split: list.splits if_splits)

lemma exponent_rest_le: "exponent_rest s = Some r \<Longrightarrow> length r \<le> length s"
  by (auto simp: exponent_rest_def dest!: digits_rest_shorter split: list.splits if_splits)

lemma number_rest_shorter: "number_rest s = Some r \<Longrightarrow> length r < length s"
proof -
  assume n: "number_rest s = Some r"
  let ?s = "if s \<noteq> [] \<and> hd s = CHR ''-'' then tl s else s"
  obtain p q where p: "(if ?s \<noteq> [] \<and> hd ?s = CHR ''0'' then Some (tl ?s) else digits_rest ?s) = Some p"
    "fraction_rest p = Some q" "exponent_rest q = Some r"
    using n by (auto simp: number_rest_def Let_def split: option.splits)
  have "length p < length ?s"
  proof (cases "?s \<noteq> [] \<and> hd ?s = CHR ''0''")
    case True
    then show ?thesis using p(1) by (cases ?s) auto
  next
    case False
    then show ?thesis using p(1) digits_rest_shorter by metis
  qed
  moreover have "length ?s \<le> length s" by simp
  ultimately show ?thesis using fraction_rest_le [OF p(2)] exponent_rest_le [OF p(3)] by linarith
qed

lemma scalar_rest_shorter: "scalar_rest s = Some r \<Longrightarrow> length r < length s"
  by (cases s) (auto simp: scalar_rest_def HasPrefix_def
      dest!: string_rest_shorter number_rest_shorter split: if_splits)

lemma key_rest_shorter: "key_rest s = Some r \<Longrightarrow> length r < length s"
proof -
  assume "key_rest s = Some r"
  then obtain q where q: "string_rest (tl s) = Some q" "r = tl (skip_space q)" "s \<noteq> []"
    by (auto simp: key_rest_def Let_def split: if_splits option.splits)
  then show ?thesis using string_rest_shorter [OF q(1)] skip_space_le [of q] by simp
qed

text \<open>The containers a position is in; a value may be nested 10000 deep.\<close>

datatype container = InArray | InObject

definition maxNestingDepth :: nat where
  "maxNestingDepth = 10000"

text \<open>
  \<open>value_rest True st s\<close>: what follows, after all of \<open>st\<close> is closed, when \<open>s\<close> starts at a value;
  \<open>value_rest False st s\<close> when \<open>s\<close> starts behind one.
\<close>

function value_rest :: "bool \<Rightarrow> container list \<Rightarrow> string \<Rightarrow> string option" where
  "value_rest True st s =
     (case skip_space s of
        [] \<Rightarrow> None
      | c # r \<Rightarrow>
          if c = CHR ''{'' then
            (if maxNestingDepth \<le> length st then None
             else
               (case skip_space r of
                  [] \<Rightarrow> None
                | d # q \<Rightarrow>
                    if d = CHR ''}'' then value_rest False st q
                    else
                      (case key_rest (d # q) of
                         None \<Rightarrow> None
                       | Some v \<Rightarrow> value_rest True (InObject # st) v)))
          else if c = CHR ''['' then
            (if maxNestingDepth \<le> length st then None
             else
               (case skip_space r of
                  [] \<Rightarrow> None
                | d # q \<Rightarrow>
                    if d = CHR '']'' then value_rest False st q
                    else value_rest True (InArray # st) (d # q)))
          else (case scalar_rest (c # r) of None \<Rightarrow> None | Some q \<Rightarrow> value_rest False st q))"
| "value_rest False [] s = Some s"
| "value_rest False (InArray # st) s =
     (case skip_space s of
        [] \<Rightarrow> None
      | c # r \<Rightarrow>
          if c = CHR '','' then value_rest True (InArray # st) r
          else if c = CHR '']'' then value_rest False st r
          else None)"
| "value_rest False (InObject # st) s =
     (case skip_space s of
        [] \<Rightarrow> None
      | c # r \<Rightarrow>
          if c = CHR '','' then
            (case key_rest (skip_space r) of None \<Rightarrow> None | Some v \<Rightarrow> value_rest True (InObject # st) v)
          else if c = CHR ''}'' then value_rest False st r
          else None)"
  by pat_completeness auto

lemma skip_space_Cons: "skip_space s = c # r \<Longrightarrow> Suc (length r) \<le> length s"
  using skip_space_le [of s] by simp

lemma key_rest_space: "key_rest (skip_space s) = Some r \<Longrightarrow> length r < length s"
  using key_rest_shorter skip_space_le order.strict_trans2 by blast

lemma skip_space_less: "n < length (skip_space s) \<Longrightarrow> n < length s"
  using skip_space_le [of s] by linarith

lemmas rest_shorter = skip_space_Cons skip_space_less scalar_rest_shorter key_rest_space key_rest_shorter

termination value_rest
  by (relation "measure (\<lambda>(_, _, s). length s)") (auto dest!: rest_shorter)

text \<open>The first value of a text, and what follows it.\<close>

definition next_value :: "string \<Rightarrow> (string \<times> string) option" where
  "next_value s =
     (let s = skip_space s in
      case value_rest True [] s of
        None \<Rightarrow> None
      | Some r \<Rightarrow> Some (take (length s - length r) s, r))"

section \<open>Strings\<close>

text \<open>The length of the UTF-8 encoding at the start of a text, if it is one.\<close>

definition between :: "nat \<Rightarrow> nat \<Rightarrow> char \<Rightarrow> bool" where
  "between a b c \<longleftrightarrow> a \<le> of_char c \<and> of_char c \<le> b"

definition utf8_length :: "string \<Rightarrow> nat option" where
  "utf8_length s =
     (let cont = between 0x80 0xBF;
          is = (\<lambda>ps. length ps \<le> length s \<and> list_all2 (\<lambda>p c. p c) ps (take (length ps) s))
      in if is [between 0 0x7F] then Some 1
         else if is [between 0xC2 0xDF, cont] then Some 2
         else if is [between 0xE0 0xE0, between 0xA0 0xBF, cont]
              \<or> is [between 0xE1 0xEC, cont, cont]
              \<or> is [between 0xED 0xED, between 0x80 0x9F, cont]
              \<or> is [between 0xEE 0xEF, cont, cont] then Some 3
         else if is [between 0xF0 0xF0, between 0x90 0xBF, cont, cont]
              \<or> is [between 0xF1 0xF3, cont, cont, cont]
              \<or> is [between 0xF4 0xF4, between 0x80 0x8F, cont, cont] then Some 4
         else None)"

definition surrogate :: "nat \<Rightarrow> bool" where
  "surrogate n \<longleftrightarrow> 0xD800 \<le> n \<and> n < 0xE000"

definition RuneError :: nat where
  "RuneError = 0xFFFD"

definition encode_rune :: "nat \<Rightarrow> string" where
  "encode_rune n =
     (let n = (if surrogate n \<or> 0x10FFFF < n then RuneError else n)
      in map char_of
        (if n < 0x80 then [n]
         else if n < 0x800 then [0xC0 + n div 64, 0x80 + n mod 64]
         else if n < 0x10000 then [0xE0 + n div 4096, 0x80 + n div 64 mod 64, 0x80 + n mod 64]
         else [0xF0 + n div 262144, 0x80 + n div 4096 mod 64, 0x80 + n div 64 mod 64, 0x80 + n mod 64]))"

text \<open>\<open>getu4\<close>: the number of a \<open>\uXXXX\<close> at the start of a text.\<close>

definition getu4 :: "string \<Rightarrow> nat option" where
  "getu4 s =
     (if HasPrefix s [CHR 0x5C, CHR ''u''] \<and> 6 \<le> length s \<and> list_all ishex (take 4 (drop 2 s))
      then Some (foldl (\<lambda>n c. 16 * n + unhex c) 0 (take 4 (drop 2 s)))
      else None)"

definition utf16_DecodeRune :: "nat \<Rightarrow> nat \<Rightarrow> nat" where
  "utf16_DecodeRune a b =
     (if 0xD800 \<le> a \<and> a < 0xDC00 \<and> 0xDC00 \<le> b \<and> b < 0xE000
      then (a - 0xD800) * 1024 + (b - 0xDC00) + 0x10000 else RuneError)"

definition simple_escape :: "char \<Rightarrow> char" where
  "simple_escape c =
     (if c = CHR ''b'' then CHR 0x08 else if c = CHR ''f'' then CHR 0x0C
      else if c = CHR ''n'' then CHR 0x0A else if c = CHR ''r'' then CHR 0x0D
      else if c = CHR ''t'' then CHR 0x09 else c)"

text \<open>\<open>unquote\<close>, on what stands between the quotes of a valid string: escapes are resolved, a lone
  surrogate and a byte that is not UTF-8 become the replacement character.\<close>

function unquote :: "string \<Rightarrow> string" where
  "unquote [] = []"
| "unquote (c # s) =
     (if c = CHR 0x5C then
        (case getu4 (c # s) of
           Some a \<Rightarrow>
             (case getu4 (drop 5 s) of
                Some b \<Rightarrow>
                  if surrogate a \<and> utf16_DecodeRune a b \<noteq> RuneError
                  then encode_rune (utf16_DecodeRune a b) @ unquote (drop 11 s)
                  else encode_rune a @ unquote (drop 5 s)
              | None \<Rightarrow> encode_rune a @ unquote (drop 5 s))
         | None \<Rightarrow>
             (case s of [] \<Rightarrow> [] | e # r \<Rightarrow> simple_escape e # unquote r))
      else
        (case utf8_length (c # s) of
           Some n \<Rightarrow> take n (c # s) @ unquote (drop n (c # s))
         | None \<Rightarrow> encode_rune RuneError @ unquote s))"
  by pat_completeness auto

lemma utf8_length_pos: "utf8_length s = Some n \<Longrightarrow> 0 < n"
  by (auto simp: utf8_length_def Let_def split: if_splits)

termination unquote
  by (relation "measure length") (auto dest: utf8_length_pos)

definition json_null :: "string \<Rightarrow> bool" where
  "json_null raw \<longleftrightarrow> raw = ''null''"

text \<open>The string a raw value holds, if it is one.\<close>

definition json_string :: "string \<Rightarrow> string option" where
  "json_string raw =
     (if 2 \<le> length raw \<and> hd raw = CHR 0x22 then Some (unquote (butlast (tl raw))) else None)"

section \<open>Objects\<close>

text \<open>The members of an object, from behind its opening brace or a comma: the keys, and the raw values.\<close>

function members :: "string \<Rightarrow> (string \<times> string) list option" where
  "members s =
     (let k = skip_space s in
      case key_rest k of
        None \<Rightarrow> None
      | Some v \<Rightarrow>
          (case next_value v of
             None \<Rightarrow> None
           | Some (raw, r) \<Rightarrow>
               (let key = (case string_rest (tl k) of
                             None \<Rightarrow> [] | Some q \<Rightarrow> unquote (take (length (tl k) - length q - 1) (tl k)))
                in case skip_space r of
                     [] \<Rightarrow> None
                   | c # t \<Rightarrow>
                       if c = CHR ''}'' then Some [(key, raw)]
                       else if c = CHR '','' then map_option (Cons (key, raw)) (members t)
                       else None)))"
  by pat_completeness auto

declare value_rest.simps [simp del]

lemma value_rest_le: "value_rest b st s = Some r \<Longrightarrow> length r \<le> length s"
proof (induction b st s rule: value_rest.induct)
  case (1 st s)
  obtain c q where s: "skip_space s = c # q" using 1(6) by (cases "skip_space s") (auto simp: value_rest.simps(1))
  then have le: "Suc (length q) \<le> length s" by (rule skip_space_Cons)
  show ?case
  proof (cases "c = CHR ''{''")
    case True
    then obtain d p where d: "\<not> maxNestingDepth \<le> length st" "skip_space q = d # p"
      using 1(6) s by (auto simp: value_rest.simps(1) split: if_splits list.splits)
    have "length p < length q" using d(2) skip_space_Cons by fastforce
    show ?thesis
    proof (cases "d = CHR ''}''")
      case e: True
      with 1(6) True s d have "value_rest False st p = Some r" by (simp add: value_rest.simps(1))
      with 1(1) [OF s True d e] le \<open>length p < length q\<close> show ?thesis by simp
    next
      case False
      with 1(6) True s d obtain v where v: "key_rest (d # p) = Some v" "value_rest True (InObject # st) v = Some r"
        by (auto simp: value_rest.simps(1) split: option.splits)
      from 1(2) [OF s True d False v] key_rest_shorter [OF v(1)] le \<open>length p < length q\<close> show ?thesis by simp
    qed
  next
    case notobj: False
    show ?thesis
    proof (cases "c = CHR ''[''")
      case True
      then obtain d p where d: "\<not> maxNestingDepth \<le> length st" "skip_space q = d # p"
        using 1(6) s notobj by (auto simp: value_rest.simps(1) split: if_splits list.splits)
      have "length p < length q" using d(2) skip_space_Cons by fastforce
      with 1(3) [OF s notobj True d] 1(4) [OF s notobj True d] 1(6) True s d le notobj
      show ?thesis by (cases "d = CHR '']''") (auto simp: value_rest.simps(1))
    next
      case False
      with 1(6) s notobj obtain v where v: "scalar_rest (c # q) = Some v" "value_rest False st v = Some r"
        by (auto simp: value_rest.simps(1) split: option.splits)
      from 1(5) [OF s notobj False v] scalar_rest_shorter [OF v(1)] le show ?thesis by simp
    qed
  qed
next
  case (3 st s)
  then obtain c q where s: "skip_space s = c # q"
    by (cases "skip_space s") (auto simp: value_rest.simps(3))
  then have "Suc (length q) \<le> length s" by (rule skip_space_Cons)
  with 3(1) [OF s] 3(2) [OF s] 3(3) s show ?case
    by (cases "c = CHR '',''") (simp_all add: value_rest.simps(3) split: if_splits)
next
  case (4 st s)
  then obtain c q where s: "skip_space s = c # q"
    by (cases "skip_space s") (auto simp: value_rest.simps(4))
  then have le: "Suc (length q) \<le> length s" by (rule skip_space_Cons)
  show ?case
  proof (cases "c = CHR '',''")
    case True
    with 4(3) s obtain v where v: "key_rest (skip_space q) = Some v" "value_rest True (InObject # st) v = Some r"
      by (auto simp: value_rest.simps(4) split: option.splits)
    from 4(1) [OF s True v] key_rest_space [OF v(1)] le show ?thesis by simp
  next
    case False
    with 4 s le show ?thesis by (auto simp: value_rest.simps(4) split: if_splits)
  qed
qed (simp add: value_rest.simps)

lemma next_value_le:
  assumes "next_value s = Some (raw, r)"
  shows "length r \<le> length s"
proof -
  from assms have "value_rest True [] (skip_space s) = Some r"
    by (auto simp: next_value_def Let_def split: option.splits)
  then show ?thesis using value_rest_le skip_space_le order.trans by blast
qed

termination members
proof (relation "measure length", goal_cases)
  case (2 s k v p raw r key c t)
  then show ?case
    using key_rest_space [of s v] next_value_le [of v raw r] skip_space_Cons [of r c t] by simp
qed simp

declare members.simps [simp del]

section \<open>Structs\<close>

text \<open>The members a body has for a struct: \<open>null\<close> leaves the struct as it is.\<close>

definition body_members :: "string \<Rightarrow> (string \<times> string) list option" where
  "body_members body =
     (case next_value body of
        None \<Rightarrow> None
      | Some (raw, _) \<Rightarrow>
          if json_null raw then Some []
          else if hd raw = CHR ''{'' then
            (if HasPrefix (skip_space (tl raw)) ''}'' then Some [] else members (tl raw))
          else None)"

text \<open>Keys name fields up to case; two letters outside ASCII fold to ASCII ones.\<close>

definition upper_char :: "char \<Rightarrow> char" where
  "upper_char c = (if between 0x61 0x7A c then char_of (of_char c - 0x20 :: nat) else c)"

fun fold_name :: "string \<Rightarrow> string" where
  "fold_name [] = []"
| "fold_name (c # s) =
     (if HasPrefix (c # s) [CHR 0xC5, CHR 0xBF] then CHR ''S'' # fold_name (tl s)
      else if HasPrefix (c # s) [CHR 0xE2, CHR 0x84, CHR 0xAA] then CHR ''K'' # fold_name (drop 2 s)
      else upper_char c # fold_name s)"

definition names :: "string \<Rightarrow> string \<Rightarrow> bool" where
  "names key field \<longleftrightarrow> fold_name key = fold_name field"

end
