(* ===== verification/LinkHttp.thy ===== *)
theory LinkHttp
  imports Analytics GoHttp GoJson GoTime ManageLink CreateLink
begin

text \<open>
  \<^verbatim>\<open>internal/link/adapters/httpapi\<close>: the handlers of the public and of the management interface.
  The use cases, the analytics recorder, the clock and the metrics are the fields of the handlers;
  \<open>TimeNow\<close> is \<open>time.Now\<close>, which the latencies are measured with.
\<close>

section \<open>The public handler\<close>

record 's MetricsRecorder =
  hm_RecordRedirect :: "string \<Rightarrow> duration \<Rightarrow> 's \<Rightarrow> 's"
  hm_RecordAnalytics :: "string \<Rightarrow> duration \<Rightarrow> 's \<Rightarrow> 's"

record 's Handler =
  h_createGeneratedLink :: "ctx \<Rightarrow> CreateGeneratedLinkRequest \<Rightarrow> 's \<Rightarrow> (err + link) \<times> 's"
  h_redirectLink :: "ctx \<Rightarrow> string \<Rightarrow> 's \<Rightarrow> (err + string) \<times> 's"
  h_baseURL :: string
  h_analyticsRecorder :: "(ctx, 's) redirect_event_recorder option"
  h_clock :: "'s clock option"
  h_metrics :: "'s MetricsRecorder option"

definition WithAnalytics :: "(ctx, 's) redirect_event_recorder \<Rightarrow> 's clock \<Rightarrow> 's Handler \<Rightarrow> 's Handler" where
  "WithAnalytics recorder clk h = h\<lparr>h_analyticsRecorder := Some recorder, h_clock := Some clk\<rparr>"

definition WithMetrics :: "'s MetricsRecorder \<Rightarrow> 's Handler \<Rightarrow> 's Handler" where
  "WithMetrics recorder h = h\<lparr>h_metrics := Some recorder\<rparr>"

definition NewHandler ::
    "(ctx \<Rightarrow> CreateGeneratedLinkRequest \<Rightarrow> 's \<Rightarrow> (err + link) \<times> 's)
     \<Rightarrow> (ctx \<Rightarrow> string \<Rightarrow> 's \<Rightarrow> (err + string) \<times> 's) \<Rightarrow> string \<Rightarrow> ('s Handler \<Rightarrow> 's Handler) list
     \<Rightarrow> 's Handler" where
  "NewHandler create redirect baseURL options =
     foldl (\<lambda>h option. option h)
       \<lparr>h_createGeneratedLink = create, h_redirectLink = redirect, h_baseURL = baseURL,
        h_analyticsRecorder = None, h_clock = None, h_metrics = None\<rparr> options"

text \<open>The JSON the handlers answer with; times are printed in RFC 3339 with their zone.\<close>

datatype link_json =
    CreatedLink (json_code: string) (json_shortUrl: string) (json_destination: string)
  | ManagedLink string string string time time "time option" u64

definition isValidationError :: "err \<Rightarrow> bool" where
  "isValidationError e \<longleftrightarrow>
     errors_is e (Domain ErrEmptyDestination) \<or> errors_is e (Domain ErrMalformedDestination)
     \<or> errors_is e (Domain ErrUnsupportedScheme) \<or> errors_is e (Domain ErrMissingHost)
     \<or> errors_is e (Domain ErrEmptyCode) \<or> errors_is e (Domain ErrZeroDestination)
     \<or> errors_is e (Domain ErrEmptyOwnerID) \<or> errors_is e (Domain ErrZeroCreatedAt)
     \<or> errors_is e (Domain ErrInvalidExpiresAt)"

definition isCodePath :: "string \<Rightarrow> bool" where
  "isCodePath path \<longleftrightarrow>
     \<not> (path = [] \<or> path = ''/'') \<and> HasPrefix path ''/'' \<and> CHR ''/'' \<notin> set (TrimPrefix path ''/'')"

definition writeJSON :: "nat \<Rightarrow> 'j \<Rightarrow> 'j http_response" where
  "writeJSON status_code v =
     \<lparr>rp_Status = status_code, rp_Header = [(''Content-Type'', ''application/json'')], rp_Body = Json v\<rparr>"

definition writeCreateError :: "err \<Rightarrow> link_json http_response" where
  "writeCreateError e =
     (if errors_is e (Ports ErrLinkAlreadyExists) then http_Error ''conflict'' 409
      else if isValidationError e then http_Error ''bad request'' 400
      else http_Error ''internal server error'' 500)"

definition writeRedirectErr :: "err \<Rightarrow> link_json http_response" where
  "writeRedirectErr e =
     (if errors_is e (Ports ErrLinkNotFound) \<or> errors_is e (App ErrLinkUnavailable) then http_NotFound
      else http_Error ''internal server error'' 500)"

subsection \<open>Creating a link\<close>

text \<open>The body of a creation: destination, owner and expiry.\<close>

definition decode_create_field ::
    "string \<times> string \<Rightarrow> string \<times> string \<times> time option \<Rightarrow> (string \<times> string \<times> time option) option" where
  "decode_create_field kv r =
     (case (kv, r) of
        ((key, raw), (dest, owner, expires)) \<Rightarrow>
          if names key ''destination'' then
            (if json_null raw then Some r
             else map_option (\<lambda>v. (v, owner, expires)) (json_string raw))
          else if names key ''ownerId'' then
            (if json_null raw then Some r
             else map_option (\<lambda>v. (dest, v, expires)) (json_string raw))
          else if names key ''expiresAt'' then
            (if json_null raw then Some (dest, owner, None)
             else map_option (\<lambda>t. (dest, owner, Some t)) (UnmarshalJSON raw))
          else Some r)"

definition decode_fold :: "('f \<Rightarrow> 'r \<Rightarrow> 'r option) \<Rightarrow> 'f list option \<Rightarrow> 'r \<Rightarrow> 'r option" where
  "decode_fold f ms r =
     Option.bind ms (\<lambda>ms. fold (\<lambda>m q. Option.bind q (f m)) ms (Some r))"

definition createLinkHTTPRequest :: "string \<Rightarrow> (string \<times> string \<times> time option) option" where
  "createLinkHTTPRequest body = decode_fold decode_create_field (body_members body) ('''', '''', None)"

definition handleCreateLink :: "'s Handler \<Rightarrow> http_request \<Rightarrow> 's \<Rightarrow> link_json http_response \<times> 's" where
  "handleCreateLink h r s =
     (case createLinkHTTPRequest (rq_Body r) of
        None \<Rightarrow> (http_Error ''bad request'' 400, s)
      | Some (dest, owner, expires) \<Rightarrow>
          (case h_createGeneratedLink h (rq_ctx r)
                  \<lparr>c_Destination = dest, c_OwnerID = owner, c_ExpiresAt = expires,
                   c_IdempotencyKey = header_get r ''Idempotency-Key''\<rparr> s of
             (Inl e, s1) \<Rightarrow> (writeCreateError e, s1)
           | (Inr l, s1) \<Rightarrow>
               (writeJSON 201
                  (CreatedLink (code l) (h_baseURL h @ ''/'' @ code l) (dest_String (destination l))),
                s1)))"

subsection \<open>Redirecting\<close>

definition recordRedirectMetric :: "'s Handler \<Rightarrow> string \<Rightarrow> duration \<Rightarrow> 's \<Rightarrow> 's" where
  "recordRedirectMetric h result d s =
     (case h_metrics h of None \<Rightarrow> s | Some x \<Rightarrow> hm_RecordRedirect x result d s)"

definition recordAnalyticsMetric :: "'s Handler \<Rightarrow> string \<Rightarrow> duration \<Rightarrow> 's \<Rightarrow> 's" where
  "recordAnalyticsMetric h result d s =
     (case h_metrics h of None \<Rightarrow> s | Some x \<Rightarrow> hm_RecordAnalytics x result d s)"

definition clientIPFromRequest :: "http_request \<Rightarrow> string" where
  "clientIPFromRequest r =
     (let forwardedFor = header_get r ''X-Forwarded-For''
      in if forwardedFor \<noteq> [] then TrimSpace (split_first (CHR '','') forwardedFor)
         else case SplitHost (rq_RemoteAddr r) of None \<Rightarrow> rq_RemoteAddr r | Some host \<Rightarrow> host)"

definition recordRedirectEvent :: "'s clock \<Rightarrow> 's Handler \<Rightarrow> http_request \<Rightarrow> string \<Rightarrow> 's \<Rightarrow> 's" where
  "recordRedirectEvent TimeNow h r c s =
     (case (h_analyticsRecorder h, h_clock h) of
        (Some recorder, Some Now) \<Rightarrow>
          (case Now s of (now, s1) \<Rightarrow>
             (case NewRedirectEvent c now (header_get r ''User-Agent'') (header_get r ''Referer'')
                     (clientIPFromRequest r) of
                Inl e \<Rightarrow> recordAnalyticsMetric h ''error'' 0 s1
              | Inr event \<Rightarrow>
                  (case TimeNow s1 of (started, s2) \<Rightarrow>
                     (case recorder (rq_ctx r) event s2 of (q, s3) \<Rightarrow>
                        (case TimeNow s3 of (ended, s4) \<Rightarrow>
                           recordAnalyticsMetric h (if q = None then ''success'' else ''error'')
                             (Sub ended started) s4)))))
      | _ \<Rightarrow> recordAnalyticsMetric h ''skipped'' 0 s)"

definition handleRedirect ::
    "'s clock \<Rightarrow> 's Handler \<Rightarrow> http_request \<Rightarrow> 's \<Rightarrow> link_json http_response \<times> 's" where
  "handleRedirect TimeNow h r s =
     (case TimeNow s of (started, s0) \<Rightarrow>
        (let c = TrimPrefix (rq_Path r) ''/'';
             (response, resultName, s2) =
               (case h_redirectLink h (rq_ctx r) c s0 of
                  (Inl e, s1) \<Rightarrow>
                    (writeRedirectErr e,
                     if errors_is e (Ports ErrLinkNotFound) \<or> errors_is e (App ErrLinkUnavailable)
                     then ''not_found'' else ''error'',
                     s1)
                | (Inr target, s1) \<Rightarrow>
                    (http_Redirect target, ''success'', recordRedirectEvent TimeNow h r c s1))
         in case TimeNow s2 of (ended, s3) \<Rightarrow>
              (response, recordRedirectMetric h resultName (Sub ended started) s3)))"

definition Handler_ServeHTTP ::
    "'s clock \<Rightarrow> 's Handler \<Rightarrow> http_request \<Rightarrow> 's \<Rightarrow> link_json http_response \<times> 's" where
  "Handler_ServeHTTP TimeNow h r s =
     (if rq_Method r = ''POST'' \<and> rq_Path r = ''/v1/links'' then handleCreateLink h r s
      else if rq_Method r = ''GET'' \<and> isCodePath (rq_Path r) then handleRedirect TimeNow h r s
      else (http_NotFound, s))"

section \<open>The management handler\<close>

record 's ManagementHandler =
  m_getManagedLink :: "ctx \<Rightarrow> GetManagedLinkRequest \<Rightarrow> 's \<Rightarrow> (err + link) \<times> 's"
  m_changeLinkStatus :: "ctx \<Rightarrow> ChangeLinkStatusRequest \<Rightarrow> 's \<Rightarrow> (err + link) \<times> 's"
  m_changeLinkDestination :: "ctx \<Rightarrow> ChangeLinkDestinationRequest \<Rightarrow> 's \<Rightarrow> (err + link) \<times> 's"
  m_changeLinkExpiration :: "ctx \<Rightarrow> ChangeLinkExpirationRequest \<Rightarrow> 's \<Rightarrow> (err + link) \<times> 's"

definition NewManagementHandler ::
    "(ctx \<Rightarrow> GetManagedLinkRequest \<Rightarrow> 's \<Rightarrow> (err + link) \<times> 's)
     \<Rightarrow> (ctx \<Rightarrow> ChangeLinkStatusRequest \<Rightarrow> 's \<Rightarrow> (err + link) \<times> 's)
     \<Rightarrow> (ctx \<Rightarrow> ChangeLinkDestinationRequest \<Rightarrow> 's \<Rightarrow> (err + link) \<times> 's)
     \<Rightarrow> (ctx \<Rightarrow> ChangeLinkExpirationRequest \<Rightarrow> 's \<Rightarrow> (err + link) \<times> 's) \<Rightarrow> 's ManagementHandler" where
  "NewManagementHandler get change_status change_destination change_expiration =
     \<lparr>m_getManagedLink = get, m_changeLinkStatus = change_status, m_changeLinkDestination = change_destination,
      m_changeLinkExpiration = change_expiration\<rparr>"

definition writeManagedLinkResponse :: "nat \<Rightarrow> link \<Rightarrow> link_json http_response" where
  "writeManagedLinkResponse status_code l =
     \<lparr>rp_Status = status_code,
      rp_Header =
        [(''ETag'', [CHR 0x22] @ FormatUint (version l) @ [CHR 0x22]),
         (''Cache-Control'', ''private, no-store''), (''Content-Type'', ''application/json'')],
      rp_Body = Json (ManagedLink (code l) (dest_String (destination l)) (status_String (status l))
        (createdAt l) (updatedAt l) (ExpiresAt l) (version l))\<rparr>"

definition ManagementHandler_Get ::
    "'s ManagementHandler \<Rightarrow> http_request \<Rightarrow> 's \<Rightarrow> link_json http_response \<times> 's" where
  "ManagementHandler_Get h r s =
     (let owner = TrimSpace (header_get r ''X-Owner-ID'')
      in if owner = [] then (http_Error ''unauthorized'' 401, s)
         else
           (case m_getManagedLink h (rq_ctx r) \<lparr>g_Code = rq_code r, g_OwnerID = owner\<rparr> s of
              (Inl e, s1) \<Rightarrow>
                (if errors_is e (Ports ErrLinkNotFound) \<or> errors_is e (App ErrLinkAccessDenied)
                 then http_NotFound else http_Error ''internal server error'' 500,
                 s1)
            | (Inr l, s1) \<Rightarrow> (writeManagedLinkResponse 200 l, s1)))"

definition parseIfMatch :: "string \<Rightarrow> err + u64" where
  "parseIfMatch v =
     (if length v < 3 \<or> hd v \<noteq> CHR 0x22 \<or> last v \<noteq> CHR 0x22 then Inl (App ErrInvalidExpectedVersion)
      else
        (case ParseUint (butlast (tl v)) of
           Inl _ \<Rightarrow> Inl (App ErrInvalidExpectedVersion)
         | Inr n \<Rightarrow> if n = 0 then Inl (App ErrInvalidExpectedVersion) else Inr n))"

text \<open>\<open>parseExpiresAt\<close> of a raw value: \<open>None\<close> for an error.\<close>

definition http_parseExpiresAt :: "string \<Rightarrow> time option option" where
  "http_parseExpiresAt raw =
     (let trimmed = TrimSpace raw
      in if trimmed = ''null'' then Some None else map_option Some (UnmarshalJSON trimmed))"

definition writeManagementMutationError :: "err \<Rightarrow> link_json http_response" where
  "writeManagementMutationError e =
     (if errors_is e (Ports ErrLinkNotFound) \<or> errors_is e (App ErrLinkAccessDenied) then http_NotFound
      else if errors_is e (Ports ErrVersionConflict) then http_Error ''precondition failed'' 412
      else if errors_is e (Domain ErrInvalidTransition) \<or> errors_is e (Domain ErrDeletedLink)
        \<or> errors_is e (Domain ErrUnchangedDestination) \<or> errors_is e (Domain ErrUnchangedExpiration)
        \<or> errors_is e (Domain ErrNoExpiration) then http_Error ''conflict'' 409
      else if errors_is e (App ErrInvalidExpectedVersion) \<or> errors_is e (Domain ErrInvalidLinkStatus)
        \<or> isValidationError e then http_Error ''bad request'' 400
      else http_Error ''internal server error'' 500)"

text \<open>The body of a change: pointers to strings, and a raw value, which is also kept for \<open>null\<close>.\<close>

record patchLinkHTTPRequest =
  p_Status :: "string option"
  p_Destination :: "string option"
  p_ExpiresAt :: "string option"

definition decode_patch_field ::
    "string \<times> string \<Rightarrow> patchLinkHTTPRequest \<Rightarrow> patchLinkHTTPRequest option" where
  "decode_patch_field kv r =
     (case kv of
        (key, raw) \<Rightarrow>
          if names key ''status'' then
            (if json_null raw then Some (r\<lparr>p_Status := None\<rparr>)
             else map_option (\<lambda>v. r\<lparr>p_Status := Some v\<rparr>) (json_string raw))
          else if names key ''destination'' then
            (if json_null raw then Some (r\<lparr>p_Destination := None\<rparr>)
             else map_option (\<lambda>v. r\<lparr>p_Destination := Some v\<rparr>) (json_string raw))
          else if names key ''expiresAt'' then Some (r\<lparr>p_ExpiresAt := Some raw\<rparr>)
          else Some r)"

definition parse_patch :: "string \<Rightarrow> patchLinkHTTPRequest option" where
  "parse_patch body =
     decode_fold decode_patch_field (body_members body)
       \<lparr>p_Status = None, p_Destination = None, p_ExpiresAt = None\<rparr>"

definition provided :: "'a option \<Rightarrow> nat" where
  "provided x = (if x = None then 0 else 1)"

definition ManagementHandler_Patch ::
    "(string \<Rightarrow> string) \<Rightarrow> 's ManagementHandler \<Rightarrow> http_request \<Rightarrow> 's \<Rightarrow> link_json http_response \<times> 's" where
  "ManagementHandler_Patch ul h r s =
     (let owner = TrimSpace (header_get r ''X-Owner-ID'');
          ifMatch = TrimSpace (header_get r ''If-Match'');
          bad = (http_Error ''bad request'' 400, s);
          answer = (\<lambda>result. case result of
             (Inl e, s1) \<Rightarrow> (writeManagementMutationError e, s1)
           | (Inr l, s1) \<Rightarrow> (writeManagedLinkResponse 200 l, s1))
      in if owner = [] then (http_Error ''unauthorized'' 401, s)
         else if ifMatch = [] then (http_Error ''If-Match header is required'' 428, s)
         else
           (case parseIfMatch ifMatch of
              Inl e \<Rightarrow> (http_Error ''invalid If-Match header'' 400, s)
            | Inr expectedVersion \<Rightarrow>
                (case parse_patch (rq_Body r) of
                   None \<Rightarrow> bad
                 | Some request \<Rightarrow>
                     if provided (p_Status request) + provided (p_Destination request)
                          + provided (p_ExpiresAt request) \<noteq> 1 then bad
                     else
                       (case p_Status request of
                          Some raw \<Rightarrow>
                            (case ParseLinkStatus (ToLower ul (TrimSpace raw)) of
                               Inl e \<Rightarrow> bad
                             | Inr st \<Rightarrow>
                                 answer (m_changeLinkStatus h (rq_ctx r)
                                   \<lparr>s_Code = rq_code r, s_OwnerID = owner, s_Status = st,
                                    s_ExpectedVersion = expectedVersion\<rparr> s))
                        | None \<Rightarrow>
                            (case p_Destination request of
                               Some raw \<Rightarrow>
                                 answer (m_changeLinkDestination h (rq_ctx r)
                                   \<lparr>d_Code = rq_code r, d_OwnerID = owner, d_Destination = raw,
                                    d_ExpectedVersion = expectedVersion\<rparr> s)
                             | None \<Rightarrow>
                                 (case http_parseExpiresAt (the (p_ExpiresAt request)) of
                                    None \<Rightarrow> bad
                                  | Some expires \<Rightarrow>
                                      answer (m_changeLinkExpiration h (rq_ctx r)
                                        \<lparr>e_Code = rq_code r, e_OwnerID = owner, e_ExpiresAt = expires,
                                         e_ExpectedVersion = expectedVersion\<rparr> s)))))))"

end
