(* ===== verification/Postgres.thy ===== *)
theory Postgres
  imports Analytics MemoryRepository
begin

text \<open>
  \<^verbatim>\<open>internal/link/adapters/postgres\<close> and \<^verbatim>\<open>internal/analytics/adapters/postgres\<close>: the stores in
  PostgreSQL.  The server and its client are not part of the program: a call of the pool is a
  parameter, with what is documented of it as the assumptions of a locale.  The statements are the
  program's: each is a function on the tables, in the schema of \<^verbatim>\<open>migrations/postgres/0001_init.sql\<close>.
\<close>

section \<open>The tables\<close>

record link_row =
  row_destination_url :: string
  row_owner_id :: string
  row_status :: string
  row_created_at :: time
  row_updated_at :: time
  row_expires_at :: "time option"
  row_version :: int

record database =
  db_links :: "string \<Rightarrow> link_row option"
  db_keys :: "string \<times> string \<Rightarrow> (string \<times> time) option"
  db_events :: "redirect_event list"

datatype row = LinkRow string link_row | TextRow string | BoolRow bool

text \<open>The checks of table \<open>links\<close>.\<close>

definition checks_ok :: "link_row \<Rightarrow> bool" where
  "checks_ok r \<longleftrightarrow>
     row_status r \<in> {''active'', ''disabled'', ''deleted''}
     \<and> (case row_expires_at r of None \<Rightarrow> True | Some t \<Rightarrow> row_created_at r < t)
     \<and> 1 \<le> row_version r"

section \<open>The client\<close>

definition sql_error :: "string \<Rightarrow> err" where
  "sql_error sqlstate = Foreign (''SQLSTATE '' @ sqlstate)"

definition uniqueViolationCode :: string where
  "uniqueViolationCode = ''23505''"

definition ErrNoRows :: err where
  "ErrNoRows = Foreign ''no rows in result set''"

text \<open>\<open>Exec\<close> runs a statement and returns the number of rows it touched; \<open>QueryRow\<close> a query.\<close>

record ('c, 's) pg_pool =
  Exec :: "'c \<Rightarrow> (database \<Rightarrow> (err + nat) \<times> database) \<Rightarrow> 's \<Rightarrow> (err + nat) \<times> 's"
  QueryRow :: "'c \<Rightarrow> (database \<Rightarrow> row option) \<Rightarrow> 's \<Rightarrow> (err + row) \<times> 's"

text \<open>A \<open>timestamptz\<close> holds microseconds, a \<open>bigint\<close> 63 bits and a sign.\<close>

definition pg_time :: "time \<Rightarrow> time" where
  "pg_time t = t - t mod 1000"

definition pg_bigint :: "u64 \<Rightarrow> err + int" where
  "pg_bigint v =
     (if 2 ^ 63 \<le> uint v then Inl (Foreign ''greater than maximum value for int64'') else Inr (uint v))"

section \<open>The repository\<close>

definition isUniqueViolation :: "err \<Rightarrow> bool" where
  "isUniqueViolation e \<longleftrightarrow> errors_is e (sql_error uniqueViolationCode)"

definition insert_link :: "string \<Rightarrow> link_row \<Rightarrow> database \<Rightarrow> (err + nat) \<times> database" where
  "insert_link c r d =
     (if \<not> checks_ok r then (Inl (sql_error ''23514''), d)
      else if db_links d c \<noteq> None then (Inl (sql_error uniqueViolationCode), d)
      else (Inr 1, d\<lparr>db_links := (db_links d)(c \<mapsto> r)\<rparr>))"

definition pg_Insert :: "('c, 's) pg_pool \<Rightarrow> 'c \<Rightarrow> link \<Rightarrow> 's \<Rightarrow> err option \<times> 's" where
  "pg_Insert pool ctx l s =
     (case pg_bigint (version l) of
        Inl e \<Rightarrow> (Some e, s)
      | Inr v \<Rightarrow>
          (case Exec pool ctx
                  (insert_link (code l)
                     \<lparr>row_destination_url = dest_String (destination l), row_owner_id = ownerID l,
                      row_status = status_String (status l), row_created_at = pg_time (createdAt l),
                      row_updated_at = pg_time (updatedAt l),
                      row_expires_at = map_option pg_time (ExpiresAt l), row_version = v\<rparr>) s of
             (Inl e, s1) \<Rightarrow> (Some (if isUniqueViolation e then Ports ErrLinkAlreadyExists else e), s1)
           | (Inr _, s1) \<Rightarrow> (None, s1)))"

text \<open>A row as a link, its expiry copied to address \<open>a\<close>.\<close>

definition scanLink :: "(string \<Rightarrow> string) \<Rightarrow> nat \<Rightarrow> string \<Rightarrow> link_row \<Rightarrow> err + link" where
  "scanLink ul a c r =
     (case NewDestinationURL ul (row_destination_url r) of
        Inl e \<Rightarrow> Inl e
      | Inr d \<Rightarrow>
          (case ParseLinkStatus (row_status r) of
             Inl e \<Rightarrow> Inl e
           | Inr st \<Rightarrow>
               if row_version r < 0 then Inl (Domain ErrZeroVersion)
               else RehydrateLink a c d (row_owner_id r) st (row_created_at r) (row_updated_at r)
                      (row_expires_at r) (word_of_int (row_version r))))"

definition select_link :: "string \<Rightarrow> database \<Rightarrow> row option" where
  "select_link c d = map_option (LinkRow c) (db_links d c)"

definition pg_FindByCode ::
    "(string \<Rightarrow> string) \<Rightarrow> 's allocator \<Rightarrow> ('c, 's) pg_pool \<Rightarrow> 'c \<Rightarrow> string \<Rightarrow> 's \<Rightarrow> (err + link) \<times> 's" where
  "pg_FindByCode ul alloc pool ctx c s =
     (case QueryRow pool ctx (select_link c) s of
        (Inl e, s1) \<Rightarrow>
          (Inl (if errors_is e ErrNoRows then Ports ErrLinkNotFound else e), s1)
      | (Inr (LinkRow c' r), s1) \<Rightarrow> (case alloc s1 of (a, s2) \<Rightarrow> (scanLink ul a c' r, s2))
      | (Inr _, s1) \<Rightarrow> (Inl (Foreign ''scan''), s1))"

definition update_link ::
    "string \<Rightarrow> string \<Rightarrow> time \<Rightarrow> time option \<Rightarrow> int \<Rightarrow> string \<Rightarrow> int \<Rightarrow> database
     \<Rightarrow> (err + nat) \<times> database" where
  "update_link dst st updated expires v c expected d =
     (case db_links d c of
        None \<Rightarrow> (Inr 0, d)
      | Some r \<Rightarrow>
          if row_version r \<noteq> expected then (Inr 0, d)
          else
            let r' = r\<lparr>row_destination_url := dst, row_status := st, row_updated_at := updated,
                       row_expires_at := expires, row_version := v\<rparr>
            in if \<not> checks_ok r' then (Inl (sql_error ''23514''), d)
               else (Inr 1, d\<lparr>db_links := (db_links d)(c \<mapsto> r')\<rparr>))"

definition linkExists :: "('c, 's) pg_pool \<Rightarrow> 'c \<Rightarrow> string \<Rightarrow> 's \<Rightarrow> (err + bool) \<times> 's" where
  "linkExists pool ctx c s =
     (case QueryRow pool ctx (\<lambda>d. Some (BoolRow (db_links d c \<noteq> None))) s of
        (Inl e, s1) \<Rightarrow> (Inl e, s1)
      | (Inr (BoolRow b), s1) \<Rightarrow> (Inr b, s1)
      | (Inr _, s1) \<Rightarrow> (Inl (Foreign ''scan''), s1))"

definition pg_Update :: "('c, 's) pg_pool \<Rightarrow> 'c \<Rightarrow> link \<Rightarrow> u64 \<Rightarrow> 's \<Rightarrow> err option \<times> 's" where
  "pg_Update pool ctx l expectedVersion s =
     (case (pg_bigint (version l), pg_bigint expectedVersion) of
        (Inr v, Inr expected) \<Rightarrow>
          (case Exec pool ctx
                  (update_link (dest_String (destination l)) (status_String (status l))
                     (pg_time (updatedAt l)) (map_option pg_time (ExpiresAt l)) v (code l) expected) s of
             (Inl e, s1) \<Rightarrow> (Some e, s1)
           | (Inr n, s1) \<Rightarrow>
               if n = 1 then (None, s1)
               else
                 (case linkExists pool ctx (code l) s1 of
                    (Inl e, s2) \<Rightarrow> (Some e, s2)
                  | (Inr exists, s2) \<Rightarrow>
                      if \<not> exists then (Some (Ports ErrLinkNotFound), s2)
                      else (Some (Ports ErrVersionConflict), s2)))
      | (Inl e, _) \<Rightarrow> (Some e, s)
      | (_, Inl e) \<Rightarrow> (Some e, s))"

definition pg_repository ::
    "(string \<Rightarrow> string) \<Rightarrow> 's allocator \<Rightarrow> ('c, 's) pg_pool \<Rightarrow> ('c, 's) link_repository" where
  "pg_repository ul alloc pool =
     \<lparr>Insert = pg_Insert pool, FindByCode = pg_FindByCode ul alloc pool, Update = pg_Update pool\<rparr>"

section \<open>The idempotency store\<close>

definition select_key :: "string \<Rightarrow> string \<Rightarrow> database \<Rightarrow> row option" where
  "select_key owner key d = map_option (\<lambda>(c, _). TextRow c) (db_keys d (owner, key))"

definition pg_Get ::
    "(string \<Rightarrow> string) \<Rightarrow> 's allocator \<Rightarrow> ('c, 's) pg_pool \<Rightarrow> 'c \<Rightarrow> string \<Rightarrow> string \<Rightarrow> 's
     \<Rightarrow> (err + link) \<times> 's" where
  "pg_Get ul alloc pool ctx owner key s =
     (case QueryRow pool ctx (select_key owner key) s of
        (Inl e, s1) \<Rightarrow>
          (Inl (if errors_is e ErrNoRows then Ports ErrIdempotencyKeyNotFound else e), s1)
      | (Inr (TextRow c), s1) \<Rightarrow> pg_FindByCode ul alloc pool ctx c s1
      | (Inr _, s1) \<Rightarrow> (Inl (Foreign ''scan''), s1))"

definition insert_key :: "string \<Rightarrow> string \<Rightarrow> string \<Rightarrow> time \<Rightarrow> database \<Rightarrow> (err + nat) \<times> database" where
  "insert_key owner key c created d =
     (if db_keys d (owner, key) \<noteq> None then (Inr 0, d)
      else if db_links d c = None then (Inl (sql_error ''23503''), d)
      else (Inr 1, d\<lparr>db_keys := (db_keys d)((owner, key) \<mapsto> (c, created))\<rparr>))"

definition pg_Save ::
    "('c, 's) pg_pool \<Rightarrow> 'c \<Rightarrow> string \<Rightarrow> string \<Rightarrow> link \<Rightarrow> 's \<Rightarrow> err option \<times> 's" where
  "pg_Save pool ctx owner key l s =
     (case Exec pool ctx (insert_key owner key (code l) (pg_time (createdAt l))) s of
        (Inl e, s1) \<Rightarrow> (Some e, s1)
      | (Inr n, s1) \<Rightarrow>
          if n = 1 then (None, s1)
          else
            (case QueryRow pool ctx (select_key owner key) s1 of
               (Inl e, s2) \<Rightarrow> (Some e, s2)
             | (Inr (TextRow existingCode), s2) \<Rightarrow>
                 if existingCode \<noteq> code l then (Some (Ports ErrIdempotencyKeyConflict), s2)
                 else (None, s2)
             | (Inr _, s2) \<Rightarrow> (Some (Foreign ''scan''), s2)))"

definition pg_idempotency_store ::
    "(string \<Rightarrow> string) \<Rightarrow> 's allocator \<Rightarrow> ('c, 's) pg_pool \<Rightarrow> ('c, 's) idempotency_store" where
  "pg_idempotency_store ul alloc pool = \<lparr>IdemGet = pg_Get ul alloc pool, IdemSave = pg_Save pool\<rparr>"

section \<open>The recorder of redirect events\<close>

definition insert_event :: "redirect_event \<Rightarrow> database \<Rightarrow> (err + nat) \<times> database" where
  "insert_event e d =
     (if db_links d (ev_Code e) = None then (Inl (sql_error ''23503''), d)
      else (Inr 1, d\<lparr>db_events := db_events d @ [e\<lparr>ev_OccurredAt := pg_time (ev_OccurredAt e)\<rparr>]\<rparr>))"

definition pg_Record :: "('c, 's) pg_pool \<Rightarrow> ('c, 's) redirect_event_recorder" where
  "pg_Record pool ctx event s =
     (case Exec pool ctx (insert_event event) s of
        (Inl e, s1) \<Rightarrow> (Some e, s1)
      | (Inr _, s1) \<Rightarrow> (None, s1))"

section \<open>The contract of a pool\<close>

text \<open>
  A call runs its statement as one atomic step and returns its result; or it returns another error
  (of the context, the connection or the encoding), and then the statement has run or not.
\<close>

locale postgres_pool =
  fixes pool :: "('c, 's) pg_pool"
    and db :: "'s \<Rightarrow> database"
    and other :: "err \<Rightarrow> bool"
  assumes other_sharp:
      "other e \<Longrightarrow> \<not> errors_is e (Ports p)" "other e \<Longrightarrow> \<not> isUniqueViolation e"
      "other e \<Longrightarrow> \<not> errors_is e ErrNoRows"
    and Exec_step:
      "Exec pool c f s = (q, s') \<Longrightarrow>
         q = fst (f (db s)) \<and> db s' = snd (f (db s))
         \<or> (\<exists>e. q = Inl e \<and> other e \<and> (db s' = db s \<or> db s' = snd (f (db s))))"
    and QueryRow_step:
      "QueryRow pool c g s = (r, s') \<Longrightarrow>
         db s' = db s \<and>
         (r = (case g (db s) of Some x \<Rightarrow> Inr x | None \<Rightarrow> Inl ErrNoRows) \<or> (\<exists>e. r = Inl e \<and> other e))"

section \<open>Rows as links\<close>

definition row_of :: "link \<Rightarrow> link_row" where
  "row_of l =
     \<lparr>row_destination_url = dest_String (destination l), row_owner_id = ownerID l,
      row_status = status_String (status l), row_created_at = pg_time (createdAt l),
      row_updated_at = pg_time (updatedAt l), row_expires_at = map_option pg_time (ExpiresAt l),
      row_version = uint (version l)\<rparr>"

text \<open>The links whose rows say all there is: whole microseconds, a version of 63 bits, and a
  destination that is what its text is validated to.\<close>

definition storable :: "(string \<Rightarrow> string) \<Rightarrow> link \<Rightarrow> bool" where
  "storable ul l \<longleftrightarrow>
     link_ok l \<and> pg_time (createdAt l) = createdAt l \<and> pg_time (updatedAt l) = updatedAt l
     \<and> map_option pg_time (ExpiresAt l) = ExpiresAt l \<and> uint (version l) < 2 ^ 63
     \<and> NewDestinationURL ul (dest_String (destination l)) = Inr (destination l)"

definition represents :: "(string \<Rightarrow> string) \<Rightarrow> database \<Rightarrow> memory_repository \<Rightarrow> bool" where
  "represents ul d m \<longleftrightarrow>
     (\<forall>k. db_links d k = map_option row_of (links m k)
        \<and> (\<forall>l. links m k = Some l \<longrightarrow> storable ul l \<and> code l = k))"

text \<open>A link with its expiry copied to another address.\<close>

definition at_address :: "nat \<Rightarrow> link \<Rightarrow> link" where
  "at_address a l = l\<lparr>expiresAt := map_option (\<lambda>r. TimeRef a (deref r)) (expiresAt l)\<rparr>"

lemma checks_row_of:
  assumes "storable ul l"
  shows "checks_ok (row_of l)"
proof -
  have ok: "link_ok l" and t: "pg_time (createdAt l) = createdAt l" "map_option pg_time (ExpiresAt l) = ExpiresAt l"
    using assms by (auto simp: storable_def)
  from ok have "status_String (status l) \<in> {''active'', ''disabled'', ''deleted''}"
    by (cases "status l") (auto simp: link_ok_def)
  moreover from ok have "0 < uint (version l)"
    by (metis link_ok_def uint_0_iff uint_ge_0 order_le_less)
  moreover from ok have "\<forall>x. ExpiresAt l = Some x \<longrightarrow> createdAt l < x"
    by (auto simp: link_ok_def ExpiresAt_def)
  ultimately show ?thesis
    by (auto simp: checks_ok_def row_of_def t split: option.split)
qed

lemma scanLink_row_of:
  assumes "storable ul l"
  shows "scanLink ul a (code l) (row_of l) = Inr (at_address a l)"
proof -
  have ok: "link_ok l" "NewDestinationURL ul (dest_String (destination l)) = Inr (destination l)"
    using assms by (auto simp: storable_def)
  have "status_IsValid (status l)" using ok(1) by (simp add: link_ok_def)
  moreover have "RehydrateLink a (code l) (destination l) (ownerID l) (status l) (pg_time (createdAt l))
      (pg_time (updatedAt l)) (map_option pg_time (ExpiresAt l)) (version l) = Inr (at_address a l)"
    using RehydrateLink_ok [OF ok(1)] assms by (simp add: storable_def at_address_def)
  ultimately show ?thesis using ok(2) by (simp add: scanLink_def row_of_def)
qed

lemma storable_bigint: "storable ul l \<Longrightarrow> pg_bigint (version l) = Inr (uint (version l))"
  by (simp add: storable_def pg_bigint_def)

lemma represents_put:
  assumes "represents ul d m" "storable ul l"
  shows "represents ul (d\<lparr>db_links := (db_links d)(code l \<mapsto> row_of l)\<rparr>) (m\<lparr>links := (links m)(code l \<mapsto> l)\<rparr>)"
  using assms by (auto simp: represents_def)

section \<open>The repository simulates the one in memory\<close>

context postgres_pool
begin

text \<open>The result and state of the memory repository, or another error with the step taken or not.\<close>

definition follows where
  "follows ul m q s' q0 m' \<longleftrightarrow>
     q = q0 \<and> represents ul (db s') m'
     \<or> (\<exists>e. q = Some e \<and> other e \<and> (represents ul (db s') m \<or> represents ul (db s') m'))"

lemma Insert_simulates:
  assumes "represents ul (db s) m" "storable ul l" "pg_Insert pool c l s = (q, s')"
    "mem_Insert None l m = (q0, m')"
  shows "follows ul m q s' q0 m'"
proof -
  let ?f = "insert_link (code l) (row_of l)"
  have f: "?f (db s) = (case links m (code l) of
      None \<Rightarrow> (Inr 1, (db s)\<lparr>db_links := (db_links (db s))(code l \<mapsto> row_of l)\<rparr>)
    | Some _ \<Rightarrow> (Inl (sql_error uniqueViolationCode), db s))"
    using assms(1) checks_row_of [OF assms(2)]
    by (auto simp: insert_link_def represents_def split: option.split)
  obtain p s1 where p: "Exec pool c ?f s = (p, s1)" by fastforce
  with assms(3) have q: "q = (case p of Inl e \<Rightarrow> Some (if isUniqueViolation e then Ports ErrLinkAlreadyExists else e)
      | Inr _ \<Rightarrow> None)" "s' = s1"
    by (auto simp: pg_Insert_def storable_bigint [OF assms(2)] row_of_def split: sum.splits)
  have m': "(q0, m') = (case links m (code l) of
      None \<Rightarrow> (None, m\<lparr>links := (links m)(code l \<mapsto> l)\<rparr>)
    | Some _ \<Rightarrow> (Some (Ports ErrLinkAlreadyExists), m))"
    using assms(4) by (auto simp: mem_Insert_def split: option.splits)
  have rep: "represents ul (snd (?f (db s))) m'"
    using represents_put [OF assms(1,2)] assms(1) m' by (auto simp: f split: option.splits)
  from Exec_step [OF p] show ?thesis
  proof (elim disjE conjE exE)
    assume "p = fst (?f (db s))" "db s1 = snd (?f (db s))"
    moreover have "isUniqueViolation (sql_error uniqueViolationCode)" by (simp add: isUniqueViolation_def)
    ultimately show ?thesis using rep m' by (auto simp: follows_def q f split: option.splits)
  next
    fix e
    assume "p = Inl e" "other e" "db s1 = db s"
    then show ?thesis using assms(1) other_sharp(2) by (simp add: follows_def q)
  next
    fix e
    assume "p = Inl e" "other e" "db s1 = snd (?f (db s))"
    then show ?thesis using rep other_sharp(2) by (simp add: follows_def q)
  qed
qed

lemma links_step_pg:
  assumes "represents ul d m"
  shows "db_links d k = map_option row_of (links m k)"
    "links m k = Some l \<Longrightarrow> storable ul l \<and> code l = k"
  using assms by (auto simp: represents_def)

lemma FindByCode_simulates:
  assumes "represents ul (db s) m" "\<forall>s. db (snd (alloc s)) = db s"
    "pg_FindByCode ul alloc pool c k s = (r, s')"
  shows "db s' = db s \<and>
    ((case links m k of
        None \<Rightarrow> r = Inl (Ports ErrLinkNotFound)
      | Some l \<Rightarrow> \<exists>a. r = Inr (at_address a l))
     \<or> (\<exists>e. r = Inl e \<and> other e))"
proof -
  obtain p s1 where p: "QueryRow pool c (select_link k) s = (p, s1)" by fastforce
  obtain a s2 where a: "alloc s1 = (a, s2)" by fastforce
  have s2: "db s2 = db s1" using assms(2) a by (metis snd_conv)
  note s1 = QueryRow_step [OF p]
  show ?thesis
  proof (cases "\<exists>e. p = Inl e \<and> other e")
    case True
    with assms(3) p s1 other_sharp(3) show ?thesis by (auto simp: pg_FindByCode_def)
  next
    case False
    with s1 have r: "p = (case select_link k (db s) of Some x \<Rightarrow> Inr x | None \<Rightarrow> Inl ErrNoRows)" by auto
    show ?thesis
    proof (cases "links m k")
      case None
      with r links_step_pg(1) [OF assms(1)] have "p = Inl ErrNoRows" by (simp add: select_link_def)
      with assms(3) p s1 None show ?thesis by (auto simp: pg_FindByCode_def)
    next
      case (Some l)
      with r links_step_pg [OF assms(1)] have "p = Inr (LinkRow (code l) (row_of l))" "storable ul l"
        by (auto simp: select_link_def)
      with assms(3) p a s1 s2 Some scanLink_row_of show ?thesis by (auto simp: pg_FindByCode_def)
    qed
  qed
qed

lemma Update_simulates:
  assumes "represents ul (db s) m" "storable ul l" "uint ev < 2 ^ 63"
    "\<And>old. links m (code l) = Some old \<Longrightarrow> ownerID old = ownerID l \<and> createdAt old = createdAt l"
    "pg_Update pool c l ev s = (q, s')" "mem_Update None l ev m = (q0, m')"
  shows "follows ul m q s' q0 m'"
proof -
  let ?f = "update_link (dest_String (destination l)) (status_String (status l)) (pg_time (updatedAt l))
    (map_option pg_time (ExpiresAt l)) (uint (version l)) (code l) (uint ev)"
  have m': "(q0, m') = (case links m (code l) of
      None \<Rightarrow> (Some (Ports ErrLinkNotFound), m)
    | Some old \<Rightarrow> if version old \<noteq> ev then (Some (Ports ErrVersionConflict), m)
                 else (None, m\<lparr>links := (links m)(code l \<mapsto> l)\<rparr>))"
    using assms(6) by (auto simp: mem_Update_def split: option.splits)
  have f: "?f (db s) = (if q0 = None
      then (Inr 1, (db s)\<lparr>db_links := (db_links (db s))(code l \<mapsto> row_of l)\<rparr>) else (Inr 0, db s))"
  proof (cases "links m (code l)")
    case None
    then show ?thesis using links_step_pg(1) [OF assms(1)] m' by (simp add: update_link_def)
  next
    case (Some old)
    then have "(row_of old)\<lparr>row_destination_url := dest_String (destination l), row_status := status_String (status l),
        row_updated_at := pg_time (updatedAt l), row_expires_at := map_option pg_time (ExpiresAt l),
        row_version := uint (version l)\<rparr> = row_of l"
      using assms(4) by (simp add: row_of_def)
    then show ?thesis
      using Some checks_row_of [OF assms(2)] links_step_pg(1) [OF assms(1), of "code l"] m'
      by (cases "version old = ev") (simp_all add: update_link_def row_of_def word_uint_eq_iff)
  qed
  have rep: "represents ul (snd (?f (db s))) m'"
    using represents_put [OF assms(1,2)] assms(1) m' by (auto simp: f split: option.splits if_splits)
  obtain p s1 where p: "Exec pool c ?f s = (p, s1)" by fastforce
  have ev: "pg_bigint ev = Inr (uint ev)" using assms(3) by (simp add: pg_bigint_def)
  note q = assms(5) [unfolded pg_Update_def storable_bigint [OF assms(2)] ev, simplified, unfolded p, simplified]
  show ?thesis
  proof (cases "\<exists>e. p = Inl e \<and> other e")
    case True
    then obtain e where e: "p = Inl e" "other e" by blast
    with q have "q = Some e" "s' = s1" by simp_all
    moreover have "db s1 = db s \<or> db s1 = snd (?f (db s))" using Exec_step [OF p] by auto
    ultimately show ?thesis using e(2) rep assms(1) unfolding follows_def by metis
  next
    case False
    with Exec_step [OF p] have s1: "p = fst (?f (db s))" "db s1 = snd (?f (db s))" by auto
    show ?thesis
    proof (cases q0)
      case None
      with q s1 f rep show ?thesis by (auto simp: follows_def)
    next
      case (Some e)
      obtain x s2 where x: "linkExists pool c (code l) s1 = (x, s2)" by fastforce
      have same: "m' = m" "db s1 = db s" "db s2 = db s1"
        using m' Some s1(2) f QueryRow_step x
        by (auto simp: linkExists_def split: option.splits if_splits prod.splits sum.splits row.splits)
      have "x = Inr (links m (code l) \<noteq> None) \<or> (\<exists>e. x = Inl e \<and> other e)"
        using x QueryRow_step [of c "\<lambda>d. Some (BoolRow (db_links d (code l) \<noteq> None))" s1]
          links_step_pg(1) [OF assms(1)] same(2)
        by (auto simp: linkExists_def split: prod.splits sum.splits row.splits)
      with q s1(1) f Some x same assms(1) m' show ?thesis
        by (auto simp: follows_def split: option.splits if_splits)
    qed
  qed
qed

text \<open>A key stands for a code: its link is read when the key is, and a saved key is never replaced.\<close>

lemma Save_keeps_keys:
  assumes "pg_Save pool c owner key l s = (q, s')"
  shows "db_links (db s') = db_links (db s) \<and>
    (\<forall>k v. db_keys (db s) k = Some v \<longrightarrow> db_keys (db s') k = Some v) \<and>
    (q = None \<longrightarrow> (\<exists>t. db_keys (db s') (owner, key) = Some (code l, t)))"
proof -
  let ?f = "insert_key owner key (code l) (pg_time (createdAt l))"
  obtain p s1 where p: "Exec pool c ?f s = (p, s1)" by fastforce
  obtain x s2 where x: "QueryRow pool c (select_key owner key) s1 = (x, s2)" by fastforce
  have keep: "db_links d' = db_links d \<and> (\<forall>k v. db_keys d k = Some v \<longrightarrow> db_keys d' k = Some v)"
    if "d' = d \<or> d' = snd (?f d)" for d d'
    using that by (auto simp: insert_key_def)
  have k1: "db s1 = db s \<or> db s1 = snd (?f (db s))" using Exec_step [OF p] by auto
  have k2: "db s2 = db s1" using QueryRow_step [OF x] by simp
  have s': "db s' = db s1" using assms p x k2
    by (auto simp: pg_Save_def split: sum.splits if_splits row.splits)
  have "\<exists>t. db_keys (db s') (owner, key) = Some (code l, t)" if "q = None"
  proof (cases "p = Inr 1")
    case True
    with Exec_step [OF p] have "Inr 1 = fst (?f (db s))" "db s1 = snd (?f (db s))" by auto
    then have "db_keys (db s1) (owner, key) = Some (code l, pg_time (createdAt l))"
      by (simp add: insert_key_def split: if_splits)
    then show ?thesis by (simp add: s')
  next
    case False
    with assms p x that have "x = Inr (TextRow (code l))"
      by (auto simp: pg_Save_def split: sum.splits if_splits row.splits)
    with QueryRow_step [OF x] have "select_key owner key (db s1) = Some (TextRow (code l))"
      by (simp split: option.splits)
    then show ?thesis using s' by (cases "db_keys (db s1) (owner, key)") (auto simp: select_key_def)
  qed
  with keep [OF k1] s' show ?thesis by simp
qed

end

end
