(* ===== verification/Server.thy ===== *)
theory Server
  imports Config Health LinkHttp Postgres Resolver RedisCache
begin

text \<open>
  \<^verbatim>\<open>cmd/linkd/main.go\<close>: the composition root.  From the environment it builds the storage, the
  resolver and the handlers, and routes the requests to them.  What the operating system, the
  drivers and the Go run time provide is one record of parameters, the \<open>platform\<close>.
\<close>

section \<open>What the program is built on\<close>

text \<open>A pool of PostgreSQL connections, and a client of Redis.\<close>

record 's pool_handle =
  pl_pool :: "(ctx, 's) pg_pool"
  pl_Ping :: "(ctx, 's) Checker"
  pl_Close :: "'s \<Rightarrow> 's"

record ('d, 's) redis_handle =
  rc_client :: "(ctx, 'd, 's) redis_client"
  rc_Ping :: "(ctx, 's) Checker"
  rc_Close :: "'s \<Rightarrow> 's"

text \<open>
  \<open>pf_new_memory\<close> allocates the three adapters in memory and returns their ports,
  \<open>pf_new_metrics\<close> allocates a recorder and returns its two interfaces and the pointer to it.
\<close>

record ('o, 'd, 's) platform =
  pf_timeout :: "ctx \<Rightarrow> duration \<Rightarrow> ctx"
  pf_TimeNow :: "'s clock"
  pf_Now :: "'s clock"
  pf_alloc :: "'s allocator"
  pf_Generate :: "(ctx, 's) code_generator"
  pf_new_memory :: "'s \<Rightarrow> ((ctx, 's) link_repository \<times> (ctx, 's) idempotency_store
      \<times> (ctx, 's) redirect_event_recorder) \<times> 's"
  pf_new_metrics :: "'s \<Rightarrow> ('s RedirectCacheMetrics \<times> 's MetricsRecorder \<times> ('s \<Rightarrow> Recorder option)) \<times> 's"
  pf_pgxpool_New :: "ctx \<Rightarrow> string \<Rightarrow> 's \<Rightarrow> (err + 's pool_handle) \<times> 's"
  pf_redis_ParseURL :: "string \<Rightarrow> err + 'o"
  pf_redis_NewClient :: "'o \<Rightarrow> ('d, 's) redis_handle"
  pf_redis_commands :: "'d redis_commands"

text \<open>\<^verbatim>\<open>internal/storage/postgres/db.go\<close>.\<close>

definition OpenPool :: "('o, 'd, 's) platform \<Rightarrow> ctx \<Rightarrow> string \<Rightarrow> 's \<Rightarrow> (err + 's pool_handle) \<times> 's" where
  "OpenPool pf ctx databaseURL = pf_pgxpool_New pf ctx databaseURL"

section \<open>Storage\<close>

record 's storageDependencies =
  sd_repository :: "(ctx, 's) link_repository"
  sd_idempotencyStore :: "(ctx, 's) idempotency_store"
  sd_analyticsRecorder :: "(ctx, 's) redirect_event_recorder"
  sd_readinessChecker :: "(ctx, 's) Checker"
  sd_diagnostics :: "'s ComponentCheck list"
  sd_cleanup :: "'s \<Rightarrow> 's"

definition buildStorage ::
    "(string \<Rightarrow> string) \<Rightarrow> ('o, 'd, 's) platform \<Rightarrow> ctx \<Rightarrow> Config \<Rightarrow> 's
     \<Rightarrow> (err + 's storageDependencies) \<times> 's" where
  "buildStorage ul pf ctx cfg s =
     (if cfg_Storage cfg = StorageMemory then
        (let memoryChecker = (\<lambda>_ s. (None, s))
         in case pf_new_memory pf s of
              ((repository, store, recorder), s1) \<Rightarrow>
                (Inr \<lparr>sd_repository = repository, sd_idempotencyStore = store, sd_analyticsRecorder = recorder,
                      sd_readinessChecker = memoryChecker,
                      sd_diagnostics =
                        [\<lparr>k_Name = ''memory'', k_Required = True, k_Checker = Some memoryChecker\<rparr>],
                      sd_cleanup = (\<lambda>s. s)\<rparr>, s1))
      else if cfg_Storage cfg = StoragePostgres then
        (case OpenPool pf ctx (cfg_DatabaseURL cfg) s of
           (Inl e, s1) \<Rightarrow> (Inl (Wrap ''open postgres pool'' e), s1)
         | (Inr pool, s1) \<Rightarrow>
             (case pl_Ping pool ctx s1 of
                (Some e, s2) \<Rightarrow> (Inl (Wrap ''ping postgres'' e), pl_Close pool s2)
              | (None, s2) \<Rightarrow>
                  (Inr \<lparr>sd_repository = pg_repository ul (pf_alloc pf) (pl_pool pool),
                        sd_idempotencyStore = pg_idempotency_store ul (pf_alloc pf) (pl_pool pool),
                        sd_analyticsRecorder = pg_Record (pl_pool pool),
                        sd_readinessChecker = pl_Ping pool,
                        sd_diagnostics =
                          [\<lparr>k_Name = ''postgres'', k_Required = True, k_Checker = Some (pl_Ping pool)\<rparr>],
                        sd_cleanup = pl_Close pool\<rparr>, s2)))
      else (Inl (Plain ''unsupported storage mode''), s))"

section \<open>The resolver\<close>

record 's resolverDependencies =
  rd_resolver :: "(ctx, 's) link_resolver"
  rd_repository :: "(ctx, 's) link_repository"
  rd_diagnostics :: "'s ComponentCheck list"
  rd_cleanup :: "'s \<Rightarrow> 's"

definition cache_config :: "Config \<Rightarrow> RedirectCacheConfig" where
  "cache_config cfg =
     \<lparr>OperationTimeout = cfg_CacheOperationTimeout cfg, ActiveTTL = cfg_CacheActiveTTL cfg,
      InactiveTTL = cfg_CacheInactiveTTL cfg\<rparr>"

definition buildLinkResolver ::
    "(string \<Rightarrow> string) \<Rightarrow> ('o, 'd, 's) platform \<Rightarrow> Config \<Rightarrow> (ctx, 's) link_repository \<Rightarrow> 's clock
     \<Rightarrow> 's RedirectCacheMetrics \<Rightarrow> 's \<Rightarrow> (err + 's resolverDependencies) \<times> 's" where
  "buildLinkResolver ul pf cfg repository clk metricsRecorder s =
     (let source = RepositoryResolver_Resolve repository
      in if cfg_Cache cfg = CacheNone then
           (Inr \<lparr>rd_resolver = source, rd_repository = repository, rd_diagnostics = [], rd_cleanup = (\<lambda>s. s)\<rparr>, s)
         else if cfg_Cache cfg = CacheRedis then
           (case pf_redis_ParseURL pf (cfg_RedisURL cfg) of
              Inl e \<Rightarrow> (Inl (Wrap ''parse Redis URL'' e), s)
            | Inr options \<Rightarrow>
                let client = pf_redis_NewClient pf options;
                    cache = RedisCache ul (pf_redis_commands pf) (rc_client client);
                    cacheConfig = cache_config cfg
                in (case NewCacheAsideResolver cache source clk cacheConfig
                           [WithRedirectCacheMetrics metricsRecorder] of
                      Inl e \<Rightarrow> (Inl (Wrap ''create cache aside resolver'' e), rc_Close client s)
                    | Inr resolver \<Rightarrow>
                        (case NewRedirectCacheRefresher cache clk cacheConfig of
                           Inl e \<Rightarrow> (Inl (Wrap ''create redirect cache refresher'' e), rc_Close client s)
                         | Inr refresher \<Rightarrow>
                             (Inr \<lparr>rd_resolver = CacheAside_Resolve (pf_timeout pf) (pf_TimeNow pf) resolver,
                                   rd_repository =
                                     CacheRefreshingRepository repository (Refresh (pf_timeout pf) refresher),
                                   rd_diagnostics =
                                     [\<lparr>k_Name = ''redis'', k_Required = False, k_Checker = Some (rc_Ping client)\<rparr>],
                                   rd_cleanup = rc_Close client\<rparr>, s))))
         else (Inl (Plain ''unsupported cache mode''), s))"

section \<open>The handlers\<close>

record 's server =
  srv_Addr :: string
  srv_link :: "'s Handler"
  srv_management :: "'s ManagementHandler"
  srv_health :: "'s HealthHandler"
  srv_metrics :: "'s MetricsHandler"
  srv_cleanup :: "'s \<Rightarrow> 's"

text \<open>\<open>run\<close>, up to the server that is started; deferred clean-ups of the parts already built run when a
  later part cannot be built.\<close>

definition start_run ::
    "(string \<Rightarrow> string) \<Rightarrow> ('o, 'd, 's) platform \<Rightarrow> (string \<Rightarrow> string) \<Rightarrow> ctx \<Rightarrow> 's \<Rightarrow> (err + 's server) \<times> 's" where
  "start_run ul pf getenv ctx s =
     (case Load ul getenv of
        Inl e \<Rightarrow> (Inl (Wrap ''load config'' e), s)
      | Inr cfg \<Rightarrow>
          (case buildStorage ul pf ctx cfg s of
             (Inl e, s1) \<Rightarrow> (Inl (Wrap ''build storage'' e), s1)
           | (Inr storage, s1) \<Rightarrow>
               (case pf_new_metrics pf s1 of
                  ((cacheMetrics, httpMetrics, recorder), s2) \<Rightarrow>
                  (case buildLinkResolver ul pf cfg (sd_repository storage) (pf_Now pf) cacheMetrics s2 of
                     (Inl e, s3) \<Rightarrow> (Inl (Wrap ''build link resolver'' e), sd_cleanup storage s3)
                   | (Inr resolverDependencies, s3) \<Rightarrow>
                       let repository = rd_repository resolverDependencies;
                           createGeneratedLink =
                             CreateGeneratedLink ul repository (pf_Generate pf) (pf_Now pf) (pf_alloc pf)
                               (Some (sd_idempotencyStore storage));
                           redirectLink = RedirectLink (rd_resolver resolverDependencies) (pf_Now pf);
                           linkHandler =
                             NewHandler createGeneratedLink redirectLink (cfg_BaseURL cfg)
                               [WithAnalytics (sd_analyticsRecorder storage) (pf_Now pf), WithMetrics httpMetrics];
                           managementHandler =
                             NewManagementHandler (GetManagedLink repository)
                               (ChangeLinkStatus repository (pf_Now pf))
                               (ChangeLinkDestination ul repository (pf_Now pf))
                               (ChangeLinkExpiration repository (pf_Now pf) (pf_alloc pf));
                           diagnostics = sd_diagnostics storage @ rd_diagnostics resolverDependencies;
                           healthHandler =
                             NewHealthHandler (Some (sd_readinessChecker storage)) diagnostics
                               (cfg_DiagnosticsToken cfg)
                       in (Inr \<lparr>srv_Addr = cfg_Addr cfg, srv_link = linkHandler,
                                srv_management = managementHandler, srv_health = healthHandler,
                                srv_metrics = NewMetricsHandler recorder (cfg_DiagnosticsToken cfg),
                                srv_cleanup = sd_cleanup storage \<circ> rd_cleanup resolverDependencies\<rparr>, s3)))))"

section \<open>Routing\<close>

text \<open>\<open>http.ServeMux\<close>: an unclean path is redirected; a clean one is matched segment by segment, each
  unescaped; the empty segment of a trailing slash matches no wildcard, and neither does an escaped
  slash alone, which the mux takes for one.\<close>

fun segments :: "string \<Rightarrow> string list" where
  "segments [] = [[]]"
| "segments (c # s) =
     (if c = CHR ''/'' then [] # segments s
      else (case segments s of [] \<Rightarrow> [[c]] | x # xs \<Rightarrow> (c # x) # xs))"

fun clean_segments :: "string list \<Rightarrow> string list \<Rightarrow> string list" where
  "clean_segments acc [] = rev acc"
| "clean_segments acc (x # xs) =
     (if x = [] \<or> x = ''.'' then clean_segments acc xs
      else if x = ''..'' then clean_segments (tl acc) xs
      else clean_segments (x # acc) xs)"

definition cleanPath :: "string \<Rightarrow> string" where
  "cleanPath p =
     (if p = [] then ''/''
      else
        let p = (if hd p \<noteq> CHR ''/'' then CHR ''/'' # p else p);
            np = concat (map (\<lambda>x. CHR ''/'' # x) (clean_segments [] (segments (tl p))))
        in if np = [] then ''/'' else if last p = CHR ''/'' then np @ ''/'' else np)"

datatype route =
    RouteMoved string
  | RouteLiveness
  | RouteReadiness
  | RouteDiagnostics
  | RouteMetrics
  | RouteGetLink string
  | RoutePatchLink string
  | RouteLink

definition pathUnescape :: "string \<Rightarrow> string" where
  "pathUnescape s = (case unescape s encodePath of Inl _ \<Rightarrow> s | Inr t \<Rightarrow> t)"

text \<open>The patterns; \<open>GET\<close> stands for \<open>HEAD\<close> too.\<close>

definition match_route :: "string \<Rightarrow> string list \<Rightarrow> route" where
  "match_route method segs =
     (let get = method = ''GET'' \<or> method = ''HEAD''
      in if get \<and> segs = [''healthz''] then RouteLiveness
         else if get \<and> segs = [''readyz''] then RouteReadiness
         else if get \<and> segs = [''internal'', ''diagnostics''] then RouteDiagnostics
         else if get \<and> segs = [''internal'', ''metrics''] then RouteMetrics
         else if length segs = 3 \<and> take 2 segs = [''v1'', ''links''] \<and> last segs \<notin> {[], ''/''} \<and> get
         then RouteGetLink (last segs)
         else if length segs = 3 \<and> take 2 segs = [''v1'', ''links''] \<and> last segs \<notin> {[], ''/''} \<and> method = ''PATCH''
         then RoutePatchLink (last segs)
         else RouteLink)"

definition ServeMux :: "string \<Rightarrow> string \<Rightarrow> route" where
  "ServeMux method escapedPath =
     (if cleanPath escapedPath \<noteq> escapedPath then RouteMoved (cleanPath escapedPath)
      else match_route method (map pathUnescape (segments (tl escapedPath))))"

datatype answer =
    MovedPermanently string
  | LinkAnswer "link_json http_response"
  | HealthAnswer "health_json http_response"
  | MetricsAnswer "metrics_json http_response"

text \<open>One request to the server.\<close>

definition handle ::
    "(string \<Rightarrow> string) \<Rightarrow> (string \<Rightarrow> string) \<Rightarrow> ('o, 'd, 's) platform \<Rightarrow> (err \<Rightarrow> string)
     \<Rightarrow> 's server \<Rightarrow> http_request \<Rightarrow> 's \<Rightarrow> answer \<times> 's" where
  "handle ul sha256 pf error_text srv r s =
     (case ServeMux (rq_Method r) (rq_EscapedPath r) of
        RouteMoved p \<Rightarrow> (MovedPermanently p, s)
      | RouteLiveness \<Rightarrow> (HealthAnswer Liveness, s)
      | RouteReadiness \<Rightarrow> apfst HealthAnswer (Readiness (pf_timeout pf) (srv_health srv) r s)
      | RouteDiagnostics \<Rightarrow>
          apfst HealthAnswer
            (Diagnostics sha256 (pf_timeout pf) error_text (pf_TimeNow pf) (srv_health srv) r s)
      | RouteMetrics \<Rightarrow>
          apfst MetricsAnswer (Metrics_ServeHTTP sha256 (pf_TimeNow pf) (srv_metrics srv) r s)
      | RouteGetLink c \<Rightarrow>
          apfst LinkAnswer (ManagementHandler_Get (srv_management srv) (r\<lparr>rq_code := c\<rparr>) s)
      | RoutePatchLink c \<Rightarrow>
          apfst LinkAnswer (ManagementHandler_Patch ul (srv_management srv) (r\<lparr>rq_code := c\<rparr>) s)
      | RouteLink \<Rightarrow> apfst LinkAnswer (Handler_ServeHTTP (pf_TimeNow pf) (srv_link srv) r s))"

section \<open>The end of the program\<close>

text \<open>The server stops by itself, or a signal starts the shutdown: its error, that of the forced close,
  and the error the server then reports.\<close>

datatype run_end =
    ServerStopped "err option"
  | ShutdownSignal "err option" "err option" "err option"

definition ErrServerClosed :: err where
  "ErrServerClosed = Foreign ''http: Server closed''"

definition serverErrors :: "err option \<Rightarrow> err option" where
  "serverErrors q =
     (case q of None \<Rightarrow> None | Some e \<Rightarrow> if errors_is e ErrServerClosed then None else Some e)"

definition finish_run :: "run_end \<Rightarrow> err option" where
  "finish_run x =
     (case x of
        ServerStopped q \<Rightarrow>
          (case serverErrors q of
             Some e \<Rightarrow> Some (Wrap ''listen and serve'' e)
           | None \<Rightarrow> None)
      | ShutdownSignal shutdown close q \<Rightarrow>
          (case shutdown of
             Some e \<Rightarrow>
               (case close of
                  Some e' \<Rightarrow> Some (Join [Wrap ''shutdown server'' e, Wrap ''force close server'' e'])
                | None \<Rightarrow> Some (Wrap ''shutdown server'' e))
           | None \<Rightarrow>
               (case serverErrors q of
                  Some e \<Rightarrow> Some (Wrap ''server stopped during shutdown'' e)
                | None \<Rightarrow> None)))"

lemma ServeMux_samples:
  "ServeMux ''GET'' ''/healthz'' = RouteLiveness" "ServeMux ''POST'' ''/v1/links'' = RouteLink"
  "ServeMux ''PATCH'' ''/v1/links/abc'' = RoutePatchLink ''abc''"
  "ServeMux ''GET'' ''/v1/links/'' = RouteLink" "ServeMux ''GET'' ''/a/../b//c/'' = RouteMoved ''/b/c/''"
  "ServeMux ''GET'' ''/v1/links/%2F'' = RouteLink"
  "ServeMux ''HEAD'' ''/v1/links/a%2Fb'' = RouteGetLink ''a/b''"
  by code_simp+

end
