(* ===== verification/HttpServer.thy ===== *)
theory HttpServer
  imports Server Service
begin

text \<open>
  What an HTTP request to the server of \<^verbatim>\<open>cmd/linkd/main.go\<close> does, in terms of the use cases, over any
  storage: the request to a use case it stands for, the answer made of what the use case returns, and
  the contract of the parts of a server under which the one leads to the other.
\<close>

section \<open>Requests and answers\<close>

text \<open>The request to a use case that an HTTP request stands for, if it is well-formed.\<close>

definition get_request :: "string \<Rightarrow> http_request \<Rightarrow> request option" where
  "get_request c r =
     (let owner = TrimSpace (header_get r ''X-Owner-ID'')
      in if owner = [] then None else Some (ReqGet (rq_ctx r) \<lparr>g_Code = c, g_OwnerID = owner\<rparr>))"

definition patch_change ::
    "(string \<Rightarrow> string) \<Rightarrow> string \<Rightarrow> string \<Rightarrow> u64 \<Rightarrow> ctx \<Rightarrow> patchLinkHTTPRequest \<Rightarrow> request option" where
  "patch_change ul c owner v x p =
     (if provided (p_Status p) + provided (p_Destination p) + provided (p_ExpiresAt p) \<noteq> 1 then None
      else case p_Status p of
        Some raw \<Rightarrow>
          (case ParseLinkStatus (ToLower ul (TrimSpace raw)) of
             Inl e \<Rightarrow> None
           | Inr st \<Rightarrow>
               Some (ReqStatus x \<lparr>s_Code = c, s_OwnerID = owner, s_Status = st, s_ExpectedVersion = v\<rparr>))
      | None \<Rightarrow>
          (case p_Destination p of
             Some raw \<Rightarrow>
               Some (ReqDestination x
                 \<lparr>d_Code = c, d_OwnerID = owner, d_Destination = raw, d_ExpectedVersion = v\<rparr>)
           | None \<Rightarrow>
               map_option (\<lambda>t. ReqExpiration x
                   \<lparr>e_Code = c, e_OwnerID = owner, e_ExpiresAt = t, e_ExpectedVersion = v\<rparr>)
                 (http_parseExpiresAt (the (p_ExpiresAt p)))))"

definition patch_request :: "(string \<Rightarrow> string) \<Rightarrow> string \<Rightarrow> http_request \<Rightarrow> request option" where
  "patch_request ul c r =
     (let owner = TrimSpace (header_get r ''X-Owner-ID'');
          ifMatch = TrimSpace (header_get r ''If-Match'')
      in if owner = [] \<or> ifMatch = [] then None
         else
           (case parseIfMatch ifMatch of
              Inl e \<Rightarrow> None
            | Inr v \<Rightarrow> Option.bind (parse_patch (rq_Body r)) (patch_change ul c owner v (rq_ctx r))))"

definition link_request :: "http_request \<Rightarrow> request option" where
  "link_request r =
     (if rq_Method r = ''POST'' \<and> rq_Path r = ''/v1/links'' then
        map_option (\<lambda>(dest, owner, expires). ReqCreate (rq_ctx r)
            \<lparr>c_Destination = dest, c_OwnerID = owner, c_ExpiresAt = expires,
             c_IdempotencyKey = header_get r ''Idempotency-Key''\<rparr>)
          (createLinkHTTPRequest (rq_Body r))
      else if rq_Method r = ''GET'' \<and> isCodePath (rq_Path r)
      then Some (ReqRedirect (rq_ctx r) (TrimPrefix (rq_Path r) ''/''))
      else None)"

fun as_request :: "(string \<Rightarrow> string) \<Rightarrow> route \<Rightarrow> http_request \<Rightarrow> request option" where
  "as_request ul (RouteGetLink c) r = get_request c r"
| "as_request ul (RoutePatchLink c) r = patch_request ul c r"
| "as_request ul RouteLink r = link_request r"
| "as_request ul _ r = None"

text \<open>The answer to a request, from what the use case returns.\<close>

fun answer_to :: "Config \<Rightarrow> request \<Rightarrow> response \<Rightarrow> link_json http_response" where
  "answer_to cfg (ReqCreate c q) (LinkResponse (Inr l)) =
     writeJSON 201 (CreatedLink (code l) (cfg_BaseURL cfg @ ''/'' @ code l) (dest_String (destination l)))"
| "answer_to cfg (ReqCreate c q) (LinkResponse (Inl e)) = writeCreateError e"
| "answer_to cfg (ReqGet c q) (LinkResponse (Inl e)) =
     (if errors_is e (Ports ErrLinkNotFound) \<or> errors_is e (App ErrLinkAccessDenied)
      then http_NotFound else http_Error ''internal server error'' 500)"
| "answer_to cfg q (LinkResponse (Inr l)) = writeManagedLinkResponse 200 l"
| "answer_to cfg q (LinkResponse (Inl e)) = writeManagementMutationError e"
| "answer_to cfg q (RedirectResponse (Inr target)) = http_Redirect target"
| "answer_to cfg q (RedirectResponse (Inl e)) = writeRedirectErr e"

text \<open>A change of the management interface, up to its request.\<close>

lemma Patch_request:
  "ManagementHandler_Patch ul h (r\<lparr>rq_code := c\<rparr>) s =
    (case patch_request ul c r of
       Some (ReqStatus x q) \<Rightarrow>
         (case m_changeLinkStatus h x q s of
            (Inl e, s1) \<Rightarrow> (writeManagementMutationError e, s1)
          | (Inr l, s1) \<Rightarrow> (writeManagedLinkResponse 200 l, s1))
     | Some (ReqDestination x q) \<Rightarrow>
         (case m_changeLinkDestination h x q s of
            (Inl e, s1) \<Rightarrow> (writeManagementMutationError e, s1)
          | (Inr l, s1) \<Rightarrow> (writeManagedLinkResponse 200 l, s1))
     | Some (ReqExpiration x q) \<Rightarrow>
         (case m_changeLinkExpiration h x q s of
            (Inl e, s1) \<Rightarrow> (writeManagementMutationError e, s1)
          | (Inr l, s1) \<Rightarrow> (writeManagedLinkResponse 200 l, s1))
     | _ \<Rightarrow>
         (if TrimSpace (header_get r ''X-Owner-ID'') = [] then http_Error ''unauthorized'' 401
          else if TrimSpace (header_get r ''If-Match'') = [] then http_Error ''If-Match header is required'' 428
          else (case parseIfMatch (TrimSpace (header_get r ''If-Match'')) of
                  Inl e \<Rightarrow> http_Error ''invalid If-Match header'' 400
                | Inr v \<Rightarrow> http_Error ''bad request'' 400), s))"
proof -
  have h: "header_get (r\<lparr>rq_code := c\<rparr>) n = header_get r n" for n by (simp add: header_get_def)
  show ?thesis
    unfolding ManagementHandler_Patch_def patch_request_def patch_change_def Let_def h
    by (simp split: option.split sum.split)
qed

lemma patch_request_kind:
  assumes "patch_request ul c r = Some q"
  shows "(\<exists>y. q = ReqStatus (rq_ctx r) y \<and> s_Code y = c \<and> s_OwnerID y = TrimSpace (header_get r ''X-Owner-ID'')
        \<and> parseIfMatch (TrimSpace (header_get r ''If-Match'')) = Inr (s_ExpectedVersion y))
    \<or> (\<exists>y. q = ReqDestination (rq_ctx r) y \<and> d_Code y = c \<and> d_OwnerID y = TrimSpace (header_get r ''X-Owner-ID'')
        \<and> parseIfMatch (TrimSpace (header_get r ''If-Match'')) = Inr (d_ExpectedVersion y))
    \<or> (\<exists>y. q = ReqExpiration (rq_ctx r) y \<and> e_Code y = c \<and> e_OwnerID y = TrimSpace (header_get r ''X-Owner-ID'')
        \<and> parseIfMatch (TrimSpace (header_get r ''If-Match'')) = Inr (e_ExpectedVersion y))"
  using assms
  by (auto simp: patch_request_def patch_change_def Let_def bind_eq_Some_conv
      split: if_splits option.splits sum.splits)

text \<open>No \<open>If-Match\<close> header names the last version a \<open>uint64\<close> can hold.\<close>

definition below_last_match :: "http_request \<Rightarrow> bool" where
  "below_last_match r \<longleftrightarrow> parseIfMatch (TrimSpace (header_get r ''If-Match'')) \<noteq> Inr (- 1)"

lemma as_request_below:
  "as_request ul rt r = Some q \<Longrightarrow> below_last_match r \<Longrightarrow> below_last_version q"
  by (cases rt) (auto simp: below_last_match_def get_request_def link_request_def Let_def
      dest!: patch_request_kind split: if_splits)

section \<open>The parts of a server\<close>

text \<open>
  The handlers of \<open>srv\<close> run the use cases \<open>use_case\<close>.  A \<open>quiet\<close> step (the clock, the metrics, the events)
  touches neither links nor keys nor the cache; a \<open>faded\<close> one (a check of the health handler) may at
  most lose cached entries.
\<close>

locale http_server =
  fixes srv :: "'s server"
    and pf :: "('o, 'd, 's) platform"
    and cfg :: Config
    and use_case :: "request \<Rightarrow> 's \<Rightarrow> response \<times> 's"
    and quiet :: "'s \<Rightarrow> 's \<Rightarrow> bool"
    and faded :: "'s \<Rightarrow> 's \<Rightarrow> bool"
  assumes creates:
      "h_createGeneratedLink (srv_link srv) c q s = (r, s') \<Longrightarrow> use_case (ReqCreate c q) s = (LinkResponse r, s')"
    and redirects:
      "h_redirectLink (srv_link srv) c k s = (t, s') \<Longrightarrow> use_case (ReqRedirect c k) s = (RedirectResponse t, s')"
    and gets:
      "m_getManagedLink (srv_management srv) c g s = (r, s') \<Longrightarrow> use_case (ReqGet c g) s = (LinkResponse r, s')"
    and status_changes:
      "m_changeLinkStatus (srv_management srv) c x s = (r, s') \<Longrightarrow>
         use_case (ReqStatus c x) s = (LinkResponse r, s')"
    and destination_changes:
      "m_changeLinkDestination (srv_management srv) c y s = (r, s') \<Longrightarrow>
         use_case (ReqDestination c y) s = (LinkResponse r, s')"
    and expiration_changes:
      "m_changeLinkExpiration (srv_management srv) c z s = (r, s') \<Longrightarrow>
         use_case (ReqExpiration c z) s = (LinkResponse r, s')"
    and public_URL: "h_baseURL (srv_link srv) = cfg_BaseURL cfg"
    and quiet_same: "quiet s s"
    and quiet_step: "quiet s s1 \<Longrightarrow> quiet s1 s2 \<Longrightarrow> quiet s s2"
    and faded_step: "faded s s1 \<Longrightarrow> faded s1 s2 \<Longrightarrow> faded s s2"
    and quiet_fades: "quiet s s1 \<Longrightarrow> faded s s1"
    and TimeNow_quiet: "pf_TimeNow pf s = (t', s') \<Longrightarrow> quiet s s'"
    and clock_quiet: "h_clock (srv_link srv) = Some Now \<Longrightarrow> Now s = (t', s') \<Longrightarrow> quiet s s'"
    and events_quiet:
      "h_analyticsRecorder (srv_link srv) = Some record_event \<Longrightarrow> record_event c e s = (p, s') \<Longrightarrow> quiet s s'"
    and metrics_quiet:
      "h_metrics (srv_link srv) = Some m \<Longrightarrow> quiet s (hm_RecordRedirect m n d s)"
      "h_metrics (srv_link srv) = Some m \<Longrightarrow> quiet s (hm_RecordAnalytics m n d s)"
    and checks_fade:
      "check \<in> set (hh_diagnostics (srv_health srv)) \<Longrightarrow> k_Checker check = Some f \<Longrightarrow> f c s = (p, s') \<Longrightarrow>
         faded s s'"
      "hh_readiness (srv_health srv) = Some f \<Longrightarrow> f c s = (p, s') \<Longrightarrow> faded s s'"
begin

lemma faded_same: "faded s s"
  using quiet_same quiet_fades by blast

text \<open>A handler serves a request: between quiet steps, the use case.\<close>

definition serving :: "request \<Rightarrow> 's \<Rightarrow> link_json http_response \<Rightarrow> 's \<Rightarrow> bool" where
  "serving q s a s' \<longleftrightarrow>
     (\<exists>s0 x s1. quiet s s0 \<and> use_case q s0 = (x, s1) \<and> quiet s1 s' \<and> a = answer_to cfg q x)"

lemma servingI: "use_case q s = (x, s') \<Longrightarrow> a = answer_to cfg q x \<Longrightarrow> serving q s a s'"
  unfolding serving_def using quiet_same by blast

lemma metrics_steps:
  "quiet s (recordRedirectMetric (srv_link srv) n d s)" "quiet s (recordAnalyticsMetric (srv_link srv) n d s)"
  using quiet_same metrics_quiet
  by (auto simp: recordRedirectMetric_def recordAnalyticsMetric_def split: option.split)

lemma event_step: "quiet s (recordRedirectEvent (pf_TimeNow pf) (srv_link srv) r c s)"
proof -
  have *: "quiet s s1 \<Longrightarrow> quiet s (recordAnalyticsMetric (srv_link srv) n d s1)" for s1 n d
    using metrics_steps(2) quiet_step by blast
  show ?thesis
    using quiet_same
    by (auto simp: recordRedirectEvent_def split: option.split sum.split prod.split
        intro!: * dest!: clock_quiet events_quiet TimeNow_quiet intro: quiet_step)
qed

lemma create_serving:
  assumes "handleCreateLink (srv_link srv) r s = (a, s')"
    and "createLinkHTTPRequest (rq_Body r) = Some (dest, owner, expires)"
  shows "serving (ReqCreate (rq_ctx r) \<lparr>c_Destination = dest, c_OwnerID = owner, c_ExpiresAt = expires,
             c_IdempotencyKey = header_get r ''Idempotency-Key''\<rparr>) s a s'"
proof -
  let ?q = "\<lparr>c_Destination = dest, c_OwnerID = owner, c_ExpiresAt = expires,
             c_IdempotencyKey = header_get r ''Idempotency-Key''\<rparr>"
  obtain x s1 where x: "h_createGeneratedLink (srv_link srv) (rq_ctx r) ?q s = (x, s1)" by fastforce
  with assms have "s' = s1" "a = answer_to cfg (ReqCreate (rq_ctx r) ?q) (LinkResponse x)"
    by (cases x; simp add: handleCreateLink_def public_URL)+
  with creates [OF x] show ?thesis by (intro servingI [where x = "LinkResponse x"]) simp_all
qed

lemma redirect_serving:
  assumes "handleRedirect (pf_TimeNow pf) (srv_link srv) r s = (a, s')"
  shows "serving (ReqRedirect (rq_ctx r) (TrimPrefix (rq_Path r) ''/'')) s a s'"
proof -
  let ?k = "TrimPrefix (rq_Path r) ''/''"
  obtain t s0 where n: "pf_TimeNow pf s = (t, s0)" by fastforce
  obtain x s1 where x: "h_redirectLink (srv_link srv) (rq_ctx r) ?k s0 = (x, s1)" by fastforce
  define s2 where "s2 = (case x of Inl _ \<Rightarrow> s1
    | Inr _ \<Rightarrow> recordRedirectEvent (pf_TimeNow pf) (srv_link srv) r ?k s1)"
  have q2: "quiet s1 s2" using event_step quiet_same by (simp add: s2_def split: sum.split)
  obtain t' s3 where n': "pf_TimeNow pf s2 = (t', s3)" by fastforce
  from assms n x n' have "\<exists>nm d. s' = recordRedirectMetric (srv_link srv) nm d s3"
    and a: "a = answer_to cfg (ReqRedirect (rq_ctx r) ?k) (RedirectResponse x)"
    by (cases x; auto simp: handleRedirect_def s2_def)+
  then have "quiet s1 s'"
    using q2 TimeNow_quiet [OF n'] metrics_steps(1) quiet_step by blast
  with redirects [OF x] TimeNow_quiet [OF n] a show ?thesis unfolding serving_def by blast
qed

lemma get_serving:
  assumes "ManagementHandler_Get (srv_management srv) (r\<lparr>rq_code := c\<rparr>) s = (a, s')" "get_request c r = Some q"
  shows "serving q s a s'"
proof -
  obtain x s1 where x: "m_getManagedLink (srv_management srv) (rq_ctx r)
      \<lparr>g_Code = c, g_OwnerID = TrimSpace (header_get r ''X-Owner-ID'')\<rparr> s = (x, s1)" by fastforce
  have h: "header_get (r\<lparr>rq_code := c\<rparr>) n = header_get r n" for n by (simp add: header_get_def)
  show ?thesis
    by (rule servingI [where x = "LinkResponse x"])
      (use assms x gets [OF x] in \<open>cases x; auto simp: get_request_def ManagementHandler_Get_def h
         Let_def split: if_splits\<close>)+
qed

lemma patch_serving:
  assumes "ManagementHandler_Patch ul (srv_management srv) (r\<lparr>rq_code := c\<rparr>) s = (a, s')"
    and "patch_request ul c r = Some q"
  shows "serving q s a s'"
proof -
  from patch_request_kind [OF assms(2)] consider
    (status) y where "q = ReqStatus (rq_ctx r) y"
    | (destination) y where "q = ReqDestination (rq_ctx r) y"
    | (expiration) y where "q = ReqExpiration (rq_ctx r) y" by blast
  then show ?thesis
  proof cases
    case status
    obtain x s1 where x: "m_changeLinkStatus (srv_management srv) (rq_ctx r) y s = (x, s1)" by fastforce
    with assms status status_changes [OF x] show ?thesis
      by (intro servingI [where x = "LinkResponse x"]; cases x) (auto simp: Patch_request)
  next
    case destination
    obtain x s1 where x: "m_changeLinkDestination (srv_management srv) (rq_ctx r) y s = (x, s1)" by fastforce
    with assms destination destination_changes [OF x] show ?thesis
      by (intro servingI [where x = "LinkResponse x"]; cases x) (auto simp: Patch_request)
  next
    case expiration
    obtain x s1 where x: "m_changeLinkExpiration (srv_management srv) (rq_ctx r) y s = (x, s1)" by fastforce
    with assms expiration expiration_changes [OF x] show ?thesis
      by (intro servingI [where x = "LinkResponse x"]; cases x) (auto simp: Patch_request)
  qed
qed

text \<open>The checks of the diagnostics.\<close>

lemma diagnostics_fade:
  assumes "set checks \<subseteq> set (hh_diagnostics (srv_health srv))"
    and "diagnostics_loop timeout et (pf_TimeNow pf) c checks m overall sc s = (m', o', sc', s')"
  shows "faded s s'"
  using assms
proof (induction checks arbitrary: m overall sc s)
  case Nil
  then show ?case using faded_same by simp
next
  case (Cons check checks)
  obtain x s1 where x: "runComponentCheck timeout et (pf_TimeNow pf) c check s = (x, s1)" by fastforce
  have "faded s s1"
  proof -
    obtain t s2 where t: "pf_TimeNow pf s = (t, s2)" by fastforce
    define s3 where "s3 = (case k_Checker check of None \<Rightarrow> s2 | Some f \<Rightarrow> snd (f (timeout c readinessTimeout) s2))"
    have "faded s2 s3"
      using Cons.prems(1) checks_fade(1) [of check] faded_same
      by (auto simp: s3_def split: option.split) (metis prod.collapse)
    moreover obtain t' s4 where t': "pf_TimeNow pf s3 = (t', s4)" by fastforce
    moreover have "s1 = s4"
    proof (cases "k_Checker check")
      case None
      with x t t' show ?thesis by (simp add: runComponentCheck_def s3_def Let_def)
    next
      case (Some f)
      obtain p s5 where "f (timeout c readinessTimeout) s2 = (p, s5)" by fastforce
      with Some x t t' show ?thesis by (cases p) (simp_all add: runComponentCheck_def s3_def Let_def)
    qed
    ultimately show ?thesis
      using quiet_fades [OF TimeNow_quiet [OF t]] quiet_fades [OF TimeNow_quiet [OF t']] faded_step by blast
  qed
  moreover obtain m1 o1 sc1 where "diagnostics_loop timeout et (pf_TimeNow pf) c checks m1 o1 sc1 s1 = (m', o', sc', s')"
    using Cons.prems(2) x by (simp add: Let_def split: if_splits)
  then have "faded s1 s'" by (rule Cons.IH [rotated]) (use Cons.prems(1) in simp)
  ultimately show ?case by (rule faded_step)
qed

lemma health_fades:
  "Readiness timeout (srv_health srv) r s = (x, s') \<Longrightarrow> faded s s'"
  "Diagnostics sha256 timeout et (pf_TimeNow pf) (srv_health srv) r s = (x, s') \<Longrightarrow> faded s s'"
  "Metrics_ServeHTTP sha256 (pf_TimeNow pf) (srv_metrics srv) r s = (y, s') \<Longrightarrow> faded s s'"
proof -
  show "Readiness timeout (srv_health srv) r s = (x, s') \<Longrightarrow> faded s s'"
    using faded_same by (auto simp: Readiness_def split: option.splits prod.splits dest: checks_fade(2))
  show "Metrics_ServeHTTP sha256 (pf_TimeNow pf) (srv_metrics srv) r s = (y, s') \<Longrightarrow> faded s s'"
    using faded_same
    by (auto simp: Metrics_ServeHTTP_def split: if_splits prod.splits intro: quiet_fades dest!: TimeNow_quiet)
  show "Diagnostics sha256 timeout et (pf_TimeNow pf) (srv_health srv) r s = (x, s') \<Longrightarrow> faded s s'"
    using faded_same diagnostics_fade [OF subset_refl] by (auto simp: Diagnostics_def split: if_splits prod.splits)
qed

text \<open>Every request is one to a use case, or at most fades.\<close>

lemma handle_serving:
  assumes "handle ul sha256 pf et srv r s = (a, s')"
    and "as_request ul (ServeMux (rq_Method r) (rq_EscapedPath r)) r = Some q"
  shows "\<exists>x. a = LinkAnswer x \<and> serving q s x s'"
proof (cases "ServeMux (rq_Method r) (rq_EscapedPath r)")
  case (RouteGetLink c)
  with assms get_serving show ?thesis by (auto simp: handle_def apfst_def map_prod_def split: prod.splits)
next
  case (RoutePatchLink c)
  with assms patch_serving show ?thesis by (auto simp: handle_def apfst_def map_prod_def split: prod.splits)
next
  case RouteLink
  with assms create_serving redirect_serving show ?thesis
    by (auto simp: handle_def Handler_ServeHTTP_def link_request_def apfst_def map_prod_def
        split: prod.splits if_splits)
qed (use assms in auto)

lemma handle_other:
  assumes "handle ul sha256 pf et srv r s = (a, s')"
    and "as_request ul (ServeMux (rq_Method r) (rq_EscapedPath r)) r = None"
  shows "faded s s'"
proof (cases "ServeMux (rq_Method r) (rq_EscapedPath r)")
  case (RouteGetLink c)
  have h: "header_get (r\<lparr>rq_code := c\<rparr>) n = header_get r n" for n by (simp add: header_get_def)
  from RouteGetLink assms faded_same show ?thesis
    by (auto simp: handle_def get_request_def ManagementHandler_Get_def h Let_def split: if_splits)
next
  case (RoutePatchLink c)
  with assms faded_same show ?thesis by (auto simp: handle_def Patch_request)
next
  case RouteLink
  with assms faded_same show ?thesis
    by (auto simp: handle_def link_request_def Handler_ServeHTTP_def handleCreateLink_def split: if_splits)
qed (use assms health_fades faded_same in \<open>auto simp: handle_def apfst_def map_prod_def split: prod.splits\<close>)

end

end
