(* ===== verification/WebService.thy ===== *)
theory WebService
  imports HttpServer
begin

text \<open>
  The server of \<^verbatim>\<open>cmd/linkd/main.go\<close> over memory storage: the handlers that its start builds from a
  configuration, and what HTTP requests to them do to the links, the cache and the events.
\<close>

section \<open>The platform of the world\<close>

definition world_events :: "(ctx, world) redirect_event_recorder" where
  "world_events c e = lift w_events (\<lambda>x w. w\<lparr>w_events := x\<rparr>) (events_Record c e)"

definition world_http_metrics :: "world MetricsRecorder" where
  "world_http_metrics =
     \<lparr>hm_RecordRedirect = (\<lambda>n d w. w\<lparr>w_metrics := RecordRedirect n d (w_metrics w)\<rparr>),
      hm_RecordAnalytics = (\<lambda>n d w. w\<lparr>w_metrics := RecordAnalytics n d (w_metrics w)\<rparr>)\<rparr>"

definition world_ping :: "(ctx, world) Checker" where
  "world_ping c w =
     (case lift w_redis put_redis (server_call c (\<lambda>d. ((), d))) w of
        (Inl e, w') \<Rightarrow> (Some e, w')
      | (Inr _, w') \<Rightarrow> (None, w'))"

definition new_memory :: "world \<Rightarrow> ((ctx, world) link_repository \<times> (ctx, world) idempotency_store
    \<times> (ctx, world) redirect_event_recorder) \<times> world" where
  "new_memory w =
     ((world_repo, world_store, world_events),
      w\<lparr>w_links := NewRepository, w_idem := NewIdempotencyStore, w_events := NewRedirectEventRecorder\<rparr>)"

definition new_metrics :: "world \<Rightarrow> (world RedirectCacheMetrics \<times> world MetricsRecorder
    \<times> (world \<Rightarrow> Recorder option)) \<times> world" where
  "new_metrics w =
     (case world_Now w of
        (t, w1) \<Rightarrow> ((world_metrics, world_http_metrics, w_metrics), w1\<lparr>w_metrics := NewRecorder t\<rparr>))"

text \<open>The parser of Redis URLs and the opening of PostgreSQL pools are left open.\<close>

definition world_platform ::
    "(string \<Rightarrow> err + 'o) \<Rightarrow> (ctx \<Rightarrow> string \<Rightarrow> world \<Rightarrow> (err + world pool_handle) \<times> world)
     \<Rightarrow> ('o, redis_data, world) platform" where
  "world_platform parse_redis open_pg =
     \<lparr>pf_timeout = world_timeout, pf_TimeNow = world_Now, pf_Now = world_Now, pf_alloc = world_alloc,
      pf_Generate = world_Generate, pf_new_memory = new_memory, pf_new_metrics = new_metrics,
      pf_pgxpool_New = open_pg, pf_redis_ParseURL = parse_redis,
      pf_redis_NewClient = (\<lambda>_. \<lparr>rc_client = world_client, rc_Ping = world_ping, rc_Close = (\<lambda>w. w)\<rparr>),
      pf_redis_commands = server_commands\<rparr>"

section \<open>The server that is started\<close>

definition cache_of :: "Config \<Rightarrow> RedirectCacheConfig option" where
  "cache_of cfg = (if cfg_Cache cfg = CacheNone then None else Some (cache_config cfg))"

definition memory_check :: "world ComponentCheck" where
  "memory_check = \<lparr>k_Name = ''memory'', k_Required = True, k_Checker = Some (\<lambda>_ w. (None, w))\<rparr>"

definition redis_check :: "world ComponentCheck" where
  "redis_check = \<lparr>k_Name = ''redis'', k_Required = False, k_Checker = Some world_ping\<rparr>"

definition link_handler :: "(string \<Rightarrow> string) \<Rightarrow> Config \<Rightarrow> world Handler" where
  "link_handler ul cfg =
     \<lparr>h_createGeneratedLink =
        CreateGeneratedLink ul (main_repo ul (cache_of cfg)) world_Generate world_Now world_alloc (Some world_store),
      h_redirectLink = RedirectLink (main_resolver ul (cache_of cfg)) world_Now,
      h_baseURL = cfg_BaseURL cfg, h_analyticsRecorder = Some world_events, h_clock = Some world_Now,
      h_metrics = Some world_http_metrics\<rparr>"

definition management_handler :: "(string \<Rightarrow> string) \<Rightarrow> Config \<Rightarrow> world ManagementHandler" where
  "management_handler ul cfg =
     \<lparr>m_getManagedLink = GetManagedLink (main_repo ul (cache_of cfg)),
      m_changeLinkStatus = ChangeLinkStatus (main_repo ul (cache_of cfg)) world_Now,
      m_changeLinkDestination = ChangeLinkDestination ul (main_repo ul (cache_of cfg)) world_Now,
      m_changeLinkExpiration = ChangeLinkExpiration (main_repo ul (cache_of cfg)) world_Now world_alloc\<rparr>"

definition linkd_server :: "(string \<Rightarrow> string) \<Rightarrow> Config \<Rightarrow> world server" where
  "linkd_server ul cfg =
     \<lparr>srv_Addr = cfg_Addr cfg, srv_link = link_handler ul cfg, srv_management = management_handler ul cfg,
      srv_health =
        \<lparr>hh_readiness = Some (\<lambda>_ w. (None, w)),
         hh_diagnostics = memory_check # (if cfg_Cache cfg = CacheNone then [] else [redis_check]),
         hh_diagnosticsToken = cfg_DiagnosticsToken cfg\<rparr>,
      srv_metrics = \<lparr>mh_recorder = w_metrics, mh_token = cfg_DiagnosticsToken cfg\<rparr>,
      srv_cleanup = (\<lambda>w. w)\<rparr>"

text \<open>The world after the start: empty stores, and a recorder started at one reading of the clock.\<close>

definition started :: "world \<Rightarrow> world" where
  "started w =
     w\<lparr>w_links := NewRepository, w_idem := NewIdempotencyStore, w_events := NewRedirectEventRecorder,
       w_reads := Suc (w_reads w), w_metrics := NewRecorder (w_clock w (w_reads w))\<rparr>"

lemma valid_cache_config: "config_valid cfg \<Longrightarrow> validateRedirectCacheConfig (cache_config cfg) = None"
  by (auto simp: config_valid_def duration_ok_def validateRedirectCacheConfig_def cache_config_def)

lemma start_run_builds:
  assumes "Load ul getenv = Inr cfg" "cfg_Storage cfg = StorageMemory"
    and "cfg_Cache cfg = CacheRedis \<Longrightarrow> parse_redis (cfg_RedisURL cfg) = Inr options"
  shows "start_run ul (world_platform parse_redis open_pg) getenv ctx w = (Inr (linkd_server ul cfg), started w)"
proof -
  have v: "config_valid cfg" using Load_ok [OF assms(1)] .
  have ids: "(\<lambda>w. w) \<circ> (\<lambda>w :: world. w) = (\<lambda>w. w)" by (simp add: fun_eq_iff)
  consider "cfg_Cache cfg = CacheNone" | "cfg_Cache cfg = CacheRedis" "cfg_Cache cfg \<noteq> CacheNone"
    using v by (auto simp: config_valid_def CacheNone_def CacheRedis_def)
  then show ?thesis
  proof cases
    case 1
    then show ?thesis
      using assms(1,2) ids
      by (simp add: start_run_def buildStorage_def buildLinkResolver_def world_platform_def new_memory_def
          new_metrics_def world_Now_def linkd_server_def link_handler_def management_handler_def started_def
          NewHandler_def WithAnalytics_def WithMetrics_def NewManagementHandler_def NewHealthHandler_def
          NewMetricsHandler_def memory_check_def cache_of_def main_repo_def main_resolver_def Let_def)
  next
    case 2
    then show ?thesis
      using assms ids valid_cache_config [OF v]
      by (simp add: start_run_def buildStorage_def buildLinkResolver_def world_platform_def new_memory_def
          new_metrics_def world_Now_def linkd_server_def link_handler_def management_handler_def started_def
          NewHandler_def WithAnalytics_def WithMetrics_def NewManagementHandler_def NewHealthHandler_def
          NewMetricsHandler_def memory_check_def redis_check_def cache_of_def main_repo_def main_resolver_def
          Let_def world_resolver_New world_refresher_New world_cache_def [symmetric] refreshing_repo_def)
  qed
qed

section \<open>What a request does, in terms of the use cases\<close>

text \<open>The clock, the metrics and the events do not touch the stores.\<close>

definition quiet :: "world \<Rightarrow> world \<Rightarrow> bool" where
  "quiet w w' \<longleftrightarrow> w_links w' = w_links w \<and> w_redis w' = w_redis w \<and> w_idem w' = w_idem w"

lemma quiet_refl [simp]: "quiet w w"
  and quiet_trans: "quiet w w1 \<Longrightarrow> quiet w1 w2 \<Longrightarrow> quiet w w2"
  by (simp_all add: quiet_def)

lemma quiet_Now: "world_Now w = (t, w') \<Longrightarrow> quiet w w'"
  by (auto simp: world_Now_def quiet_def)

lemma quiet_frame:
  assumes "quiet w w'"
  shows "stored w' = stored w" "saved_key w' = saved_key w" "ready ul cache w' = ready ul cache w"
proof -
  show s: "stored w' = stored w" "saved_key w' = saved_key w"
    using assms by (simp_all add: quiet_def stored_def saved_key_def)
  have "world_inv w' = world_inv w" "cached_for ul w' = cached_for ul w"
    using assms by (simp_all add: quiet_def world_inv_def cached_for_eq)
  then show "ready ul cache w' = ready ul cache w"
    using s(1) by (simp add: ready_def coherent_world_def reflects_link_def)
qed

text \<open>A handler serves a request: between readings of the clock, the use case.\<close>

definition serves ::
    "(string \<Rightarrow> string) \<Rightarrow> Config \<Rightarrow> request \<Rightarrow> world \<Rightarrow> link_json http_response \<Rightarrow> world \<Rightarrow> bool" where
  "serves ul cfg q w a w' \<longleftrightarrow>
     (\<exists>w0 x w1. quiet w w0 \<and> serve ul (cache_of cfg) q w0 = (x, w1) \<and> quiet w1 w' \<and> a = answer_to cfg q x)"

section \<open>Every request\<close>

text \<open>The checks of the diagnostics may let time pass on the Redis server, so that entries expire there;
  they change nothing else.\<close>

definition faded :: "(string \<Rightarrow> string) \<Rightarrow> world \<Rightarrow> world \<Rightarrow> bool" where
  "faded ul w w' \<longleftrightarrow>
     w_links w' = w_links w \<and> w_idem w' = w_idem w
     \<and> (\<forall>k. cached_for ul w' k = cached_for ul w k \<or> cached_for ul w' k = None)"

lemma faded_refl [simp]: "faded ul w w"
  by (simp add: faded_def)

lemma faded_trans: "faded ul w w1 \<Longrightarrow> faded ul w1 w2 \<Longrightarrow> faded ul w w2"
  unfolding faded_def by metis

lemma quiet_faded: "quiet w w' \<Longrightarrow> faded ul w w'"
  by (simp add: quiet_def faded_def cached_for_eq)

lemma faded_frame:
  assumes "faded ul w w'"
  shows "stored w' = stored w" "saved_key w' = saved_key w" "ready ul cache w \<Longrightarrow> ready ul cache w'"
proof -
  show s: "stored w' = stored w" "saved_key w' = saved_key w"
    using assms by (simp_all add: faded_def stored_def saved_key_def)
  have "world_inv w' = world_inv w" using assms by (simp add: faded_def world_inv_def)
  then show "ready ul cache w \<Longrightarrow> ready ul cache w'"
    using s(1) assms unfolding ready_def coherent_world_def reflects_link_def faded_def
    by (metis option.distinct(1))
qed

lemma ping_faded: "world_ping c w = (q, w') \<Longrightarrow> faded ul w w'"
proof -
  assume "world_ping c w = (q, w')"
  then obtain p s where p: "server_call c (\<lambda>d. ((), d)) (w_redis w) = (p, s)" "w' = put_redis s w"
    by (auto simp: world_ping_def lift_def split: prod.splits sum.splits)
  from server_call_effect [OF p(1)] have
    f: "server_hash (rs_data s) k = server_hash (rs_data (w_redis w)) k \<or> server_hash (rs_data s) k = Map.empty" for k
    by auto
  have "cached_for ul w' k = cached_for ul w k \<or> cached_for ul w' k = None" for k
    using world_redis.cached_in_fade [OF f, of ul k] unfolding cached_for_eq p(2) put_simps .
  then show ?thesis unfolding faded_def p(2) put_simps by blast
qed

lemma world_parts_quiet:
  "hm_RecordRedirect world_http_metrics n d w = w' \<Longrightarrow> quiet w w'"
  "hm_RecordAnalytics world_http_metrics n d w = w' \<Longrightarrow> quiet w w'"
  "world_events c e w = (p, w') \<Longrightarrow> quiet w w'"
  by (auto simp: world_http_metrics_def quiet_def world_events_def lift_iff)

lemma linkd_parts [simp]:
  "srv_link (linkd_server ul cfg) = link_handler ul cfg"
  "srv_management (linkd_server ul cfg) = management_handler ul cfg"
  "pf_TimeNow (world_platform p q) = world_Now"
  by (simp_all add: linkd_server_def world_platform_def)

lemma linkd_checks:
  "check \<in> set (hh_diagnostics (srv_health (linkd_server ul cfg))) \<Longrightarrow>
     k_Checker check = Some (\<lambda>_ w. (None, w)) \<or> k_Checker check = Some world_ping"
  "hh_readiness (srv_health (linkd_server ul cfg)) = Some (\<lambda>_ w. (None, w))"
  by (auto simp: linkd_server_def memory_check_def redis_check_def split: if_splits)

interpretation web: http_server "linkd_server ul cfg" "world_platform p q" cfg "serve ul (cache_of cfg)" quiet
    "faded ul" for ul cfg p q
proof (unfold_locales, goal_cases)
  case (17 check f c s p' s')
  then show ?case using linkd_checks(1) [OF 17(1)] ping_faded by auto
next
  case (18 f c s p' s')
  then show ?case using linkd_checks(2) by auto
qed (auto simp: link_handler_def management_handler_def intro: quiet_trans faded_trans quiet_faded quiet_Now
      world_parts_quiet)

lemma serves_eq: "serves ul cfg q w a w' = web.serving cfg ul q w a w'"
  by (simp add: serves_def web.serving_def)

text \<open>The server as it handles requests; \<open>sha256\<close> and the texts of errors stay parameters.\<close>

definition linkd ::
    "(string \<Rightarrow> string) \<Rightarrow> (string \<Rightarrow> string) \<Rightarrow> (err \<Rightarrow> string) \<Rightarrow> Config \<Rightarrow> http_request \<Rightarrow> world \<Rightarrow> answer \<times> world" where
  "linkd ul sha256 et cfg =
     handle ul sha256 (world_platform (\<lambda>u. Inr u) (\<lambda>_ _ w. (Inl (Plain ''''), w))) et (linkd_server ul cfg)"

lemma linkd_serves:
  assumes "linkd ul sha256 et cfg r w = (a, w')" "as_request ul (ServeMux (rq_Method r) (rq_EscapedPath r)) r = Some q"
  shows "\<exists>x. a = LinkAnswer x \<and> serves ul cfg q w x w'"
  using web.handle_serving [OF assms(1) [unfolded linkd_def] assms(2)] by (simp add: serves_eq)

lemma linkd_other:
  assumes "linkd ul sha256 et cfg r w = (a, w')" "as_request ul (ServeMux (rq_Method r) (rq_EscapedPath r)) r = None"
  shows "faded ul w w'"
  by (rule web.handle_other [OF assms(1) [unfolded linkd_def] assms(2)])

lemma serves_ready:
  assumes "serves ul cfg q w a w'" "ready ul (cache_of cfg) w" "below_last_version q"
  shows "ready ul (cache_of cfg) w' \<and> links_step (stored w) (stored w')"
proof -
  obtain w0 x w1 where s: "quiet w w0" "serve ul (cache_of cfg) q w0 = (x, w1)" "quiet w1 w'"
    using assms(1) unfolding serves_def by blast
  have "ready ul (cache_of cfg) w0" using quiet_frame(3) [OF s(1)] assms(2) by simp
  from serve_ready [OF s(2) this assms(3)] show ?thesis
    using quiet_frame [OF s(1)] quiet_frame [OF s(3)] by simp
qed

lemma linkd_step:
  assumes "linkd ul sha256 et cfg r w = (a, w')" "ready ul (cache_of cfg) w" "below_last_match r"
  shows "ready ul (cache_of cfg) w' \<and> links_step (stored w) (stored w')"
proof (cases "as_request ul (ServeMux (rq_Method r) (rq_EscapedPath r)) r")
  case None
  from faded_frame [OF linkd_other [OF assms(1) this]] assms(2) show ?thesis by simp
next
  case (Some q)
  with linkd_serves [OF assms(1) this] serves_ready as_request_below [OF this assms(3)] assms(2) show ?thesis
    by blast
qed

text \<open>A sequence of requests.\<close>

fun linkd_all ::
    "(string \<Rightarrow> string) \<Rightarrow> (string \<Rightarrow> string) \<Rightarrow> (err \<Rightarrow> string) \<Rightarrow> Config \<Rightarrow> http_request list \<Rightarrow> world
     \<Rightarrow> answer list \<times> world" where
  "linkd_all ul sha256 et cfg [] w = ([], w)"
| "linkd_all ul sha256 et cfg (r # rs) w =
     (case linkd ul sha256 et cfg r w of (a, w1) \<Rightarrow>
        (case linkd_all ul sha256 et cfg rs w1 of (as, w2) \<Rightarrow> (a # as, w2)))"

lemma linkd_all_step:
  "linkd_all ul sha256 et cfg rs w = (as, w') \<Longrightarrow> ready ul (cache_of cfg) w \<Longrightarrow> \<forall>r \<in> set rs. below_last_match r \<Longrightarrow>
     ready ul (cache_of cfg) w' \<and> links_step\<^sup>*\<^sup>* (stored w) (stored w')"
proof (induction rs arbitrary: w as)
  case (Cons r rs)
  obtain a w1 where r: "linkd ul sha256 et cfg r w = (a, w1)" by fastforce
  obtain as1 w2 where "linkd_all ul sha256 et cfg rs w1 = (as1, w2)" by fastforce
  with Cons r linkd_step [OF r] show ?case by (auto intro: converse_rtranclp_into_rtranclp)
qed simp

end
