(* ===== verification/WebFacts.thy ===== *)
theory WebFacts
  imports WebService
begin

text \<open>What the answers of the server say, and do not say.\<close>

section \<open>The state at the start\<close>

text \<open>The stores start empty, so nothing that the cache still holds reflects a link.\<close>

lemma started_ready:
  "ready ul cache (started w) \<longleftrightarrow> cache = None \<or> (\<forall>k. cached_for ul w k = None)"
proof -
  have "cached_for ul (started w) = cached_for ul w" by (simp add: cached_for_eq started_def)
  moreover have "world_inv (started w)" "stored (started w) k = None" for k
    by (simp_all add: world_inv_def stored_def started_def NewRepository_def mem_inv_def)
  ultimately show ?thesis
    by (auto simp: ready_def coherent_world_def reflects_link_def)
qed

lemma started_empty: "stored (started w) = Map.empty" "saved_key (started w) u = Map.empty"
  by (simp_all add: stored_def saved_key_def started_def NewRepository_def NewIdempotencyStore_def mem_saved_def fun_eq_iff)

section \<open>Foreign and missing links\<close>

definition hidden :: "world \<Rightarrow> string \<Rightarrow> string \<Rightarrow> bool" where
  "hidden w k owner \<longleftrightarrow> (\<forall>l. stored w k = Some l \<longrightarrow> ownerID l \<noteq> owner)"

lemma Find_main:
  "FindByCode (main_repo ul cache) c k w =
     (case ctx_Err c of
        Some e \<Rightarrow> (Inl e, w)
      | None \<Rightarrow> ((case stored w k of None \<Rightarrow> Inl (Ports ErrLinkNotFound) | Some l \<Rightarrow> Inr l), w))"
  by (cases cache)
    (simp_all add: main_repo_def refreshing_repo_def CacheRefreshingRepository_def world_repo_def
      lift_repository_def lift_def memory_link_repository_def mem_FindByCode_def stored_def put_links_def
      split: option.split)

text \<open>The errors a request meets before its link is looked up.\<close>

definition early :: "request \<Rightarrow> err option" where
  "early q =
     (case named_link q of
        None \<Rightarrow> None
      | Some (k, u) \<Rightarrow>
          if u = [] then Some (App ErrLinkAccessDenied)
          else if expected_version q = Some 0 then Some (App ErrInvalidExpectedVersion)
          else
            (case q of
               ReqGet c y \<Rightarrow> ctx_Err c | ReqStatus c y \<Rightarrow> ctx_Err c | ReqDestination c y \<Rightarrow> ctx_Err c
             | ReqExpiration c y \<Rightarrow> ctx_Err c | _ \<Rightarrow> None))"

lemma serve_hidden:
  assumes "named_link q = Some (k, u)" "hidden w k u"
  shows "snd (serve ul cache q w) = w \<and>
    (case early q of
       Some e \<Rightarrow> fst (serve ul cache q w) = LinkResponse (Inl e)
     | None \<Rightarrow> fst (serve ul cache q w) = LinkResponse (Inl (Ports ErrLinkNotFound))
         \<or> fst (serve ul cache q w) = LinkResponse (Inl (App ErrLinkAccessDenied)))"
proof (cases q)
  case (ReqGet c y)
  with assms show ?thesis
    by (auto simp: early_def GetManagedLink_def Find_main hidden_def Let_def split: option.splits)
next
  case (ReqStatus c y)
  with assms show ?thesis
    by (auto simp: early_def ChangeLinkStatus_def Find_main hidden_def Let_def split: option.splits)
next
  case (ReqDestination c y)
  with assms show ?thesis
    by (auto simp: early_def ChangeLinkDestination_def Find_main hidden_def Let_def split: option.splits)
next
  case (ReqExpiration c y)
  with assms show ?thesis
    by (auto simp: early_def ChangeLinkExpiration_def Find_main hidden_def Let_def split: option.splits)
qed (use assms in auto)

lemma answer_denied:
  assumes "named_link q = Some (k, u)"
  shows "answer_to cfg q (LinkResponse (Inl (Ports ErrLinkNotFound))) = http_NotFound"
    "answer_to cfg q (LinkResponse (Inl (App ErrLinkAccessDenied))) = http_NotFound"
  using assms by (cases q; simp add: writeManagementMutationError_def)+

lemma hidden_answers:
  assumes "named_link q = Some (k, u)" "hidden w1 k u" "hidden w2 k u"
  shows "answer_to cfg q (fst (serve ul cache q w1)) = answer_to cfg q (fst (serve ul cache q w2))"
proof (cases "early q")
  case None
  then show ?thesis
    using serve_hidden [OF assms(1,2), of ul cache] serve_hidden [OF assms(1,3), of ul cache] answer_denied [OF assms(1)]
    by (elim conjE disjE) auto
next
  case (Some e)
  then show ?thesis
    using serve_hidden [OF assms(1,2), of ul cache] serve_hidden [OF assms(1,3), of ul cache] by simp
qed

section \<open>Versions and entity tags\<close>

lemma parseIfMatch_quoted:
  "parseIfMatch ([CHR 0x22] @ FormatUint v @ [CHR 0x22]) =
     (if v = 0 then Inl (App ErrInvalidExpectedVersion) else Inr v)"
proof -
  have "FormatUint v \<noteq> []" by (simp add: FormatUint_def)
  then have "\<not> length ([CHR 0x22] @ FormatUint v @ [CHR 0x22]) < 3"
    by (cases "FormatUint v") auto
  then show ?thesis by (simp add: parseIfMatch_def)
qed

lemma parseIfMatch_not_zero: "parseIfMatch s \<noteq> Inr 0"
  by (auto simp: parseIfMatch_def split: sum.splits if_splits)

lemma mutation_error_status: "rp_Status (writeManagementMutationError e) \<noteq> 200"
  by (simp add: writeManagementMutationError_def http_NotFound_def http_Error_def)

section \<open>The management routes\<close>

definition managed_route :: "http_request \<Rightarrow> string option" where
  "managed_route r =
     (case ServeMux (rq_Method r) (rq_EscapedPath r) of
        RouteGetLink c \<Rightarrow> Some c | RoutePatchLink c \<Rightarrow> Some c | _ \<Rightarrow> None)"

lemma get_request_named:
  "get_request c r = Some q \<Longrightarrow> named_link q = Some (TrimSpace c, TrimSpace (header_get r ''X-Owner-ID''))"
  by (auto simp: get_request_def Let_def split: if_splits)

lemma patch_request_named:
  assumes "patch_request ul c r = Some q"
  shows "named_link q = Some (TrimSpace c, TrimSpace (header_get r ''X-Owner-ID''))"
    "\<exists>v. expected_version q = Some v \<and> parseIfMatch (TrimSpace (header_get r ''If-Match'')) = Inr v"
  using patch_request_kind [OF assms] by auto

lemma malformed_answers:
  assumes "managed_route r = Some c" "as_request ul (ServeMux (rq_Method r) (rq_EscapedPath r)) r = None"
  shows "fst (linkd ul sha256 et cfg r w1) = fst (linkd ul sha256 et cfg r w2)
    \<and> snd (linkd ul sha256 et cfg r w1) = w1"
proof -
  have h: "header_get (r\<lparr>rq_code := c\<rparr>) n = header_get r n" for n by (simp add: header_get_def)
  have "ServeMux (rq_Method r) (rq_EscapedPath r) \<in> {RouteGetLink c, RoutePatchLink c}"
    using assms(1) by (auto simp: managed_route_def split: route.splits)
  with assms(2) show ?thesis
    by (auto simp: linkd_def handle_def Patch_request ManagementHandler_Get_def get_request_def h Let_def
        split: if_splits)
qed

lemma managed_request:
  assumes "managed_route r = Some c" "as_request ul (ServeMux (rq_Method r) (rq_EscapedPath r)) r = Some q"
  shows "named_link q = Some (TrimSpace c, TrimSpace (header_get r ''X-Owner-ID''))"
proof -
  have "ServeMux (rq_Method r) (rq_EscapedPath r) \<in> {RouteGetLink c, RoutePatchLink c}"
    using assms(1) by (auto simp: managed_route_def split: route.splits)
  with assms(2) get_request_named patch_request_named(1) show ?thesis by auto
qed

lemma serves_answer:
  assumes "linkd ul sha256 et cfg r w = (a, w')" "as_request ul (ServeMux (rq_Method r) (rq_EscapedPath r)) r = Some q"
  obtains w0 w1 where "quiet w w0" "quiet w1 w'" "w1 = snd (serve ul (cache_of cfg) q w0)"
    "a = LinkAnswer (answer_to cfg q (fst (serve ul (cache_of cfg) q w0)))"
  using linkd_serves [OF assms] unfolding serves_def by (metis fst_conv snd_conv)

lemma linkd_hides:
  assumes "managed_route r = Some c"
    and "hidden w1 (TrimSpace c) (TrimSpace (header_get r ''X-Owner-ID''))"
    and "hidden w2 (TrimSpace c) (TrimSpace (header_get r ''X-Owner-ID''))"
  shows "fst (linkd ul sha256 et cfg r w1) = fst (linkd ul sha256 et cfg r w2)
    \<and> stored (snd (linkd ul sha256 et cfg r w1)) = stored w1"
proof (cases "as_request ul (ServeMux (rq_Method r) (rq_EscapedPath r)) r")
  case None
  with malformed_answers [OF assms(1) None] show ?thesis by simp
next
  case (Some q)
  note n = managed_request [OF assms(1) Some]
  obtain a1 v1 a2 v2 where l: "linkd ul sha256 et cfg r w1 = (a1, v1)" "linkd ul sha256 et cfg r w2 = (a2, v2)"
    by fastforce
  obtain u1 t1 where 1: "quiet w1 u1" "quiet t1 v1" "t1 = snd (serve ul (cache_of cfg) q u1)"
    "a1 = LinkAnswer (answer_to cfg q (fst (serve ul (cache_of cfg) q u1)))"
    by (rule serves_answer [OF l(1) Some])
  obtain u2 t2 where 2: "quiet w2 u2" "quiet t2 v2" "t2 = snd (serve ul (cache_of cfg) q u2)"
    "a2 = LinkAnswer (answer_to cfg q (fst (serve ul (cache_of cfg) q u2)))"
    by (rule serves_answer [OF l(2) Some])
  have h: "hidden u1 (TrimSpace c) (TrimSpace (header_get r ''X-Owner-ID''))"
    "hidden u2 (TrimSpace c) (TrimSpace (header_get r ''X-Owner-ID''))"
    using assms(2,3) quiet_frame(1) [OF 1(1)] quiet_frame(1) [OF 2(1)] by (simp_all add: hidden_def)
  have "t1 = u1" using serve_hidden [OF n h(1)] 1(3) by simp
  then show ?thesis
    using hidden_answers [OF n h, of cfg ul "cache_of cfg"] 1(4) 2(4) l quiet_frame(1) [OF 1(1)]
      quiet_frame(1) [OF 1(2)] by simp
qed

lemma named_response: "named_link q = Some (k, u) \<Longrightarrow> \<exists>x. fst (serve ul cache q w) = LinkResponse x"
  by (cases q) (simp_all split: prod.split)

text \<open>A change over HTTP.\<close>

lemma linkd_change:
  assumes "linkd ul sha256 et cfg r w = (a, w')" "ServeMux (rq_Method r) (rq_EscapedPath r) = RoutePatchLink c"
    and "ready ul (cache_of cfg) w" "below_last_match r"
  shows "(\<exists>l l' v. a = LinkAnswer (writeManagedLinkResponse 200 l')
      \<and> parseIfMatch (TrimSpace (header_get r ''If-Match'')) = Inr v
      \<and> stored w (TrimSpace c) = Some l \<and> ownerID l = TrimSpace (header_get r ''X-Owner-ID'') \<and> version l = v
      \<and> link_step l l' \<and> stored w' = (stored w)(TrimSpace c \<mapsto> l'))
    \<or> (\<exists>x. a = LinkAnswer x \<and> rp_Status x \<noteq> 200 \<and> stored w' = stored w)"
proof (cases "patch_request ul c r")
  case None
  with assms(1,2) show ?thesis
    by (auto simp: linkd_def handle_def Patch_request http_Error_def split: sum.splits)
next
  case (Some q)
  then have "as_request ul (ServeMux (rq_Method r) (rq_EscapedPath r)) r = Some q" using assms(2) by simp
  note answer = serves_answer [OF assms(1) this] and n = patch_request_named [OF Some]
  obtain v where v: "expected_version q = Some v" "parseIfMatch (TrimSpace (header_get r ''If-Match'')) = Inr v"
    using n(2) by blast
  obtain w0 w1 where s: "quiet w w0" "quiet w1 w'" "w1 = snd (serve ul (cache_of cfg) q w0)"
    "a = LinkAnswer (answer_to cfg q (fst (serve ul (cache_of cfg) q w0)))"
    by (rule answer)
  obtain x where x: "fst (serve ul (cache_of cfg) q w0) = LinkResponse x"
    using named_response [OF n(1)] by metis
  then have sv: "serve ul (cache_of cfg) q w0 = (LinkResponse x, w1)" using s(3) by (simp add: prod_eq_iff)
  have inv: "world_inv w0" and below: "below_last_version q"
    using assms(3,4) quiet_frame(3) [OF s(1), of ul "cache_of cfg"] as_request_below [of ul "RoutePatchLink c" r q] Some
    by (auto simp: ready_def)
  have st: "stored w0 = stored w" "stored w' = stored w1" using quiet_frame(1) s(1,2) by auto
  have an: "answer_to cfg q (LinkResponse (Inr l)) = writeManagedLinkResponse 200 l"
    "answer_to cfg q (LinkResponse (Inl e)) = writeManagementMutationError e" for l e
    using patch_request_kind [OF Some] by auto
  show ?thesis
  proof (cases x)
    case (Inl e)
    with serve_refused [OF _ n(1) inv below] sv st an(2) s(4) x mutation_error_status show ?thesis by fastforce
  next
    case (Inr l')
    with serve_granted [OF _ n(1) inv below] sv v st an(1) s(4) x show ?thesis by fastforce
  qed
qed

section \<open>Generated codes are paths\<close>

lemma create_loop_code:
  "create_loop repo gen Now alloc ctx request d attempt t0 l s = (Inr l', s') \<Longrightarrow> attempt < maxCodeGenerationAttempts \<Longrightarrow>
     \<exists>s1 c s2 a t. gen ctx s1 = (Inr c, s2) \<and> NewLink a c d (c_OwnerID request) t (c_ExpiresAt request) = Inr l'"
proof (induction "maxCodeGenerationAttempts - attempt" arbitrary: attempt t0 l s rule: less_induct)
  case less
  obtain g s1 where g: "gen ctx s = (g, s1)" by fastforce
  obtain t1 s2 where n: "(if attempt = 0 then Now s1 else (t0, s1)) = (t1, s2)" by fastforce
  obtain a s3 where a: "(case c_ExpiresAt request of None \<Rightarrow> (0, s2) | Some _ \<Rightarrow> alloc s2) = (a, s3)"
    by fastforce
  note unfold = less.prems create_loop.simps [of repo gen Now alloc ctx request d attempt t0 l s] g n a
  from unfold obtain c where c: "g = Inr c" by (cases g) auto
  from unfold c obtain l1 where l1: "NewLink a c d (c_OwnerID request) t1 (c_ExpiresAt request) = Inr l1"
    by (cases "NewLink a c d (c_OwnerID request) t1 (c_ExpiresAt request)") auto
  obtain q s4 where i: "Insert repo ctx l1 s3 = (q, s4)" by fastforce
  show ?case
  proof (cases q)
    case None
    with unfold c l1 i have "l' = l1" by simp
    with l1 g c show ?thesis by blast
  next
    case (Some e)
    with unfold c l1 i have "create_loop repo gen Now alloc ctx request d (Suc attempt) t1 l1 s4 = (Inr l', s')"
      and "Suc attempt < maxCodeGenerationAttempts"
      by (auto split: if_splits)
    with less.hyps [of "Suc attempt" t1 l1 s4] less.prems(2) show ?thesis by simp
  qed
qed

text \<open>A request whose idempotency key is not saved yet, or that has none.\<close>

definition fresh_key :: "world \<Rightarrow> string \<Rightarrow> string \<Rightarrow> bool" where
  "fresh_key w u k \<longleftrightarrow> k = [] \<or> saved_key w u k = None"

lemma created_code:
  assumes "serve ul cache (ReqCreate c q) w = (LinkResponse (Inr l), w')" "world_inv w"
    and "fresh_key w (c_OwnerID q) (c_IdempotencyKey q)"
  shows "code_wf defaultCodeLength (code l)"
proof -
  have "CreateGeneratedLink ul (main_repo ul cache) world_Generate world_Now world_alloc (Some world_store) c q w
      = (Inr l, w')"
    using assms(1) by (auto split: prod.splits)
  moreover have "\<not> (\<exists>x s. IdemGet world_store c (c_OwnerID q) (c_IdempotencyKey q) w = (Inr x, s))"
    if "c_IdempotencyKey q \<noteq> []"
    using that assms(3) idempotency_contract.Get_ok [OF world_store_contract assms(2)] by (fastforce simp: fresh_key_def)
  ultimately obtain d s1 s where
    "create_loop (main_repo ul cache) world_Generate world_Now world_alloc c q d 0 0 zero_link s1 = (Inr l, s)"
    by (cases "c_IdempotencyKey q = []")
      (auto simp: CreateGeneratedLink_def Let_def split: sum.splits prod.splits if_splits option.splits)
  from create_loop_code [OF this] obtain s1 k s2 a t where
    "world_Generate c s1 = (Inr k, s2)" "NewLink a k d (c_OwnerID q) t (c_ExpiresAt q) = Inr l"
    by (auto simp: maxCodeGenerationAttempts_def)
  then have "code_wf defaultCodeLength k" "code l = TrimSpace k"
    using world_Generate_ok by (auto simp: NewLink_def Let_def split: if_splits option.splits)
  with code_wf_trimmed show ?thesis by simp
qed

lemma alphabet_plain:
  "c \<in> set base62Alphabet \<Longrightarrow> c \<noteq> CHR ''/'' \<and> c \<noteq> CHR ''%'' \<and> c \<noteq> CHR ''.''"
  by (auto simp: base62Alphabet_def)

lemma unescape_alphabet: "set k \<subseteq> set base62Alphabet \<Longrightarrow> unescape k encodePath = Inr k"
  using alphabet_plain by (induction k) auto

lemma segments_plain: "CHR ''/'' \<notin> set k \<Longrightarrow> segments k = [k]"
  by (induction k) auto

text \<open>No code is the path of another route, nor an unclean path.\<close>

lemma code_route:
  assumes "code_wf defaultCodeLength k"
  shows "ServeMux ''GET'' (''/'' @ k) = RouteLink" "isCodePath (''/'' @ k)" "TrimPrefix (''/'' @ k) ''/'' = k"
proof -
  have k: "length k = 8" "set k \<subseteq> set base62Alphabet" using assms by (auto simp: code_wf_def defaultCodeLength_def)
  have ns: "CHR ''/'' \<notin> set k" using k(2) alphabet_plain by blast
  have ne: "k \<noteq> []" "k \<noteq> ''.''" "k \<noteq> ''..''" "k \<noteq> ''healthz''" "k \<noteq> ''readyz''" using k(1) by auto
  then have last: "last (CHR ''/'' # k) \<noteq> CHR ''/''" using ns by (metis last.simps last_in_set)
  have "cleanPath (''/'' @ k) = ''/'' @ k"
    using ne last by (simp add: cleanPath_def segments_plain [OF ns] Let_def)
  moreover have "pathUnescape k = k" by (simp add: pathUnescape_def unescape_alphabet [OF k(2)])
  ultimately show "ServeMux ''GET'' (''/'' @ k) = RouteLink"
    using ne by (simp add: ServeMux_def segments_plain [OF ns] match_route_def)
  show "TrimPrefix (''/'' @ k) ''/'' = k" by (rule TrimPrefix_append)
  with ns ne show "isCodePath (''/'' @ k)"
    by (simp add: isCodePath_def HasPrefix_def)
qed

section \<open>Created links\<close>

lemma created_answer:
  assumes "linkd ul sha256 et cfg r w = (LinkAnswer a, w')" "rp_Body a = Json (CreatedLink c s d)"
  obtains q l w0 w1 where "link_request r = Some (ReqCreate (rq_ctx r) q)" "quiet w w0"
    "serve ul (cache_of cfg) (ReqCreate (rq_ctx r) q) w0 = (LinkResponse (Inr l), w1)" "quiet w1 w'"
    "c = code l" "s = cfg_BaseURL cfg @ ''/'' @ c" "d = dest_String (destination l)"
proof (cases "as_request ul (ServeMux (rq_Method r) (rq_EscapedPath r)) r")
  case None
  have h: "header_get (r\<lparr>rq_code := c\<rparr>) n = header_get r n" for c n by (simp add: header_get_def)
  have False
    using assms None
    by (cases "ServeMux (rq_Method r) (rq_EscapedPath r)")
      (auto simp: linkd_def handle_def Patch_request get_request_def ManagementHandler_Get_def h Let_def
        link_request_def Handler_ServeHTTP_def handleCreateLink_def http_Error_def http_NotFound_def
        apfst_def map_prod_def split: if_splits sum.splits prod.splits)
  then show ?thesis ..
next
  case (Some q)
  obtain w0 w1 where s: "quiet w w0" "quiet w1 w'" "w1 = snd (serve ul (cache_of cfg) q w0)"
    "a = answer_to cfg q (fst (serve ul (cache_of cfg) q w0))"
    by (rule serves_answer [OF assms(1) Some]) auto
  have body: "rp_Body (answer_to cfg q x) = Json (CreatedLink c s d) \<Longrightarrow>
      \<exists>y p l. q = ReqCreate y p \<and> x = LinkResponse (Inr l) \<and> c = code l \<and> s = cfg_BaseURL cfg @ ''/'' @ c
        \<and> d = dest_String (destination l)" for x
    by (cases "(cfg, q, x)" rule: answer_to.cases)
      (auto simp: writeCreateError_def writeManagedLinkResponse_def writeManagementMutationError_def
        writeRedirectErr_def http_Redirect_def http_Error_def http_NotFound_def writeJSON_def split: if_splits)
  from body [of "fst (serve ul (cache_of cfg) q w0)"] assms(2) s(4) obtain y p l where
    q: "q = ReqCreate y p" "fst (serve ul (cache_of cfg) q w0) = LinkResponse (Inr l)" "c = code l"
    "s = cfg_BaseURL cfg @ ''/'' @ c" "d = dest_String (destination l)" by auto
  have "link_request r = Some q \<and> y = rq_ctx r"
    using Some q(1)
    by (cases "ServeMux (rq_Method r) (rq_EscapedPath r)")
      (auto simp: get_request_def link_request_def Let_def dest: patch_request_kind split: if_splits)
  with that [of p w0 l w1] s q show ?thesis by (simp add: prod_eq_iff)
qed

text \<open>The request for a code is the redirect of the use case.\<close>

lemma linkd_redirects:
  assumes "fst (serve ul (cache_of cfg) (ReqRedirect None k) (w\<lparr>w_reads := Suc (w_reads w)\<rparr>)) = RedirectResponse (Inr u)"
    and "code_wf defaultCodeLength k"
    and "rq_Method r = ''GET''" "rq_Path r = ''/'' @ k" "rq_EscapedPath r = ''/'' @ k" "rq_ctx r = None"
  shows "fst (linkd ul sha256 et cfg r w) = LinkAnswer (http_Redirect u)"
proof -
  note route = code_route [OF assms(2)]
  let ?w0 = "w\<lparr>w_reads := Suc (w_reads w)\<rparr>"
  have n: "world_Now w = (w_clock w (w_reads w), ?w0)" by (simp add: world_Now_def)
  obtain w1 where x: "RedirectLink (main_resolver ul (cache_of cfg)) world_Now None k ?w0 = (Inr u, w1)"
    using assms(1) by (auto split: prod.splits)
  have "fst (handleRedirect world_Now (link_handler ul cfg) r w) = http_Redirect u"
    using x assms(4,6) route(3) by (simp add: handleRedirect_def n link_handler_def [of ul cfg] split: prod.split)
  then show ?thesis
    using assms(3-5) route(1,2) by (simp add: linkd_def handle_def Handler_ServeHTTP_def)
qed

text \<open>A creation does not touch the cache.\<close>

lemma create_redis:
  assumes "serve ul cache (ReqCreate c q) w = (r, w')"
  shows "w_redis w' = w_redis w"
proof -
  obtain x where "CreateGeneratedLink ul (main_repo ul cache) world_Generate world_Now world_alloc (Some world_store) c q w
      = (x, w')"
    using assms by (auto split: prod.splits)
  then show ?thesis
  proof (rule create_keeps [where I = "\<lambda>s. w_redis s = w_redis w"])
    have "Insert (main_repo ul cache) = Insert world_repo"
      by (cases cache) (simp_all add: main_repo_def refreshing_repo_def CacheRefreshingRepository_def)
    then show "w_redis s = w_redis w \<Longrightarrow> Insert (main_repo ul cache) c l s = (p, s') \<Longrightarrow> w_redis s' = w_redis w"
      for l s p s' using world_repo_frame(1) by metis
  qed (auto simp: world_Generate_def world_Now_def world_alloc_def split: prod.splits dest: world_store_frame)
qed

section \<open>The events\<close>

text \<open>What a redirect does before its event: further readings of the clock, the resolver, the metrics.\<close>

definition no_event :: "world \<Rightarrow> world \<Rightarrow> bool" where
  "no_event w w' \<longleftrightarrow>
     w_events w' = w_events w \<and> w_clock w' = w_clock w \<and> w_reads w \<le> w_reads w'"

lemma no_event_refl [simp]: "no_event w w"
  and no_event_trans: "no_event w w1 \<Longrightarrow> no_event w1 w2 \<Longrightarrow> no_event w w2"
  by (simp_all add: no_event_def)

lemma no_event_ports:
  "world_Now w = (t, w') \<Longrightarrow> no_event w w'"
  "FindByCode world_repo c k w = (r, w') \<Longrightarrow> no_event w w'"
  "CacheGet (world_cache ul) c k w = (g, w') \<Longrightarrow> no_event w w'"
  "PutIfNewer (world_cache ul) c m ttl w = (q, w') \<Longrightarrow> no_event w w'"
  by (auto simp: no_event_def world_Now_def world_repo_def lift_repository_def lift_iff put_links_def put_redis_def
      world_cache_def RedisCache_def RedisCache_Get_def RedisCache_PutIfNewer_def world_client_def Let_def
      split: prod.splits sum.splits if_splits)

lemma no_event_metrics_iff [simp]:
  "no_event w (recordCacheGet (world_resolver ul config) n d v) = no_event w v"
  "no_event w (recordSourceLookup (world_resolver ul config) n d v) = no_event w v"
  "no_event w (recordCachePut (world_resolver ul config) n d v) = no_event w v"
  "no_event w (recordRedirectMetric (link_handler ul cfg) n d v) = no_event w v"
  by (simp_all add: no_event_def recordCacheGet_def recordSourceLookup_def recordCachePut_def world_resolver_def
      world_metrics_def recordRedirectMetric_def link_handler_def world_http_metrics_def)

lemma recordRedirectMetric_events [simp]:
  "w_events (recordRedirectMetric (link_handler ul cfg) n d w) = w_events w"
  by (simp add: recordRedirectMetric_def link_handler_def world_http_metrics_def)

lemma no_event_source: "RepositoryResolver_Resolve world_repo c k w = (r, w') \<Longrightarrow> no_event w w'"
  by (auto simp: RepositoryResolver_Resolve_def split: prod.splits sum.splits dest: no_event_ports(2))

lemma no_event_cached:
  assumes "CacheAside_Resolve world_timeout world_Now (world_resolver ul config) c k w = (x, w')"
  shows "no_event w w'"
proof -
  let ?R = "world_resolver ul config"
  have parts: "r_cache ?R = world_cache ul" "r_source ?R = RepositoryResolver_Resolve world_repo" "r_clock ?R = world_Now"
    by (simp_all add: world_resolver_def)
  obtain t1 w1 where 1: "world_Now w = (t1, w1)" by fastforce
  obtain g w2 where 2: "CacheGet (world_cache ul) (world_timeout c (r_operationTimeout ?R)) k w1 = (g, w2)" by fastforce
  obtain t3 w3 where 3: "world_Now w2 = (t3, w3)" by fastforce
  have until3: "no_event w w3" using no_event_ports(1) [OF 1] no_event_ports(3) [OF 2] no_event_ports(1) [OF 3] by (simp add: no_event_def)
  show ?thesis
  proof (cases g)
    case (Inr m)
    with assms 1 2 3 parts have "w' = recordCacheGet ?R ''hit'' (Sub t3 t1) w3"
      by (simp add: CacheAside_Resolve_def)
    with until3 show ?thesis by simp
  next
    case (Inl e)
    let ?w3 = "recordCacheGet ?R (if errors_is e (Ports ErrRedirectCacheMiss) then ''miss'' else ''error'') (Sub t3 t1) w3"
    obtain t4 w4 where 4: "world_Now ?w3 = (t4, w4)" by fastforce
    obtain y w5 where 5: "RepositoryResolver_Resolve world_repo c k w4 = (y, w5)" by fastforce
    obtain t6 w6 where 6: "world_Now w5 = (t6, w6)" by fastforce
    have "no_event w ?w3" using until3 by simp
    then have until6: "no_event w w6"
      using no_event_ports(1) [OF 4] no_event_source [OF 5] no_event_ports(1) [OF 6] no_event_trans by meson
    show ?thesis
    proof (cases y)
      case (Inl e')
      with assms 1 2 3 4 5 6 \<open>g = Inl e\<close> parts have "w' = recordSourceLookup ?R ''error'' (Sub t6 t4) w6"
        by (simp add: CacheAside_Resolve_def Let_def)
      with until6 show ?thesis by simp
    next
      case (Inr m)
      obtain now w7 where 7: "world_Now (recordSourceLookup ?R ''success'' (Sub t6 t4) w6) = (now, w7)" by fastforce
      have "no_event w (recordSourceLookup ?R ''success'' (Sub t6 t4) w6)" using until6 by simp
      from no_event_trans [OF this no_event_ports(1) [OF 7]] have until7: "no_event w w7" .
      obtain ttl b where ttl: "redirectCacheTTL m now (r_activeTTL ?R) (r_inactiveTTL ?R) = (ttl, b)" by fastforce
      obtain t8 w8 where 8: "world_Now w7 = (t8, w8)" by fastforce
      obtain q w9 where 9: "PutIfNewer (world_cache ul) (world_timeout c (r_operationTimeout ?R)) m ttl w8 = (q, w9)"
        by fastforce
      obtain t10 w10 where 10: "world_Now w9 = (t10, w10)" by fastforce
      have until10: "no_event w w10"
        using until7 no_event_ports(1) [OF 8] no_event_ports(4) [OF 9] no_event_ports(1) [OF 10] no_event_trans by meson
      from assms 1 2 3 4 5 6 7 8 9 10 ttl \<open>g = Inl e\<close> Inr parts have
        "w' = (if b then recordCachePut ?R (case q of Some _ \<Rightarrow> ''error'' | None \<Rightarrow> ''success'') (Sub t10 t8) w10
           else recordCachePut ?R ''skipped'' 0 w7)"
        by (cases b) (simp_all add: CacheAside_Resolve_def Let_def)
      with until7 until10 show ?thesis by (cases b) auto
    qed
  qed
qed

lemma no_event_redirect:
  assumes "RedirectLink (main_resolver ul cache) world_Now c k w = (x, w')"
  shows "no_event w w'"
proof -
  obtain m w1 where m: "main_resolver ul cache c k w = (m, w1)" by fastforce
  have "no_event w w1"
    using m no_event_source no_event_cached by (cases cache) (auto simp: main_resolver_def)
  moreover obtain t w2 where t: "world_Now w1 = (t, w2)" by fastforce
  moreover have "w' = w1 \<or> w' = w2"
    using assms m t by (cases m) (auto simp: RedirectLink_def split: if_splits)
  ultimately show ?thesis using no_event_ports(1) [OF t] no_event_trans by blast
qed

text \<open>The event of a redirect that succeeds.\<close>

definition redirect_recorded :: "http_request \<Rightarrow> string \<Rightarrow> time \<Rightarrow> redirect_event list" where
  "redirect_recorded r k t =
     (if rq_ctx r \<noteq> None \<or> TrimSpace k = [] \<or> t = 0 then []
      else [\<lparr>ev_Code = k, ev_OccurredAt = t, ev_UserAgent = header_get r ''User-Agent'',
             ev_Referer = header_get r ''Referer'', ev_IP = clientIPFromRequest r\<rparr>])"

lemma recordRedirectEvent_world:
  "w_events (recordRedirectEvent world_Now (link_handler ul cfg) r k w)
     = \<lparr>events = events (w_events w) @ redirect_recorded r k (w_clock w (w_reads w))\<rparr>"
  by (cases "rq_ctx r")
    (simp_all add: recordRedirectEvent_def recordAnalyticsMetric_def world_http_metrics_def world_events_def
      lift_def world_Now_def link_handler_def NewRedirectEvent_def events_Record_def redirect_recorded_def)

lemma handleRedirect_events:
  assumes "handleRedirect world_Now (link_handler ul cfg) r w = (a, w')"
  shows "\<exists>n. Events (w_events w') = Events (w_events w) @
    (if rp_Status a = 302 then redirect_recorded r (TrimPrefix (rq_Path r) ''/'') (w_clock w n) else [])"
proof -
  let ?k = "TrimPrefix (rq_Path r) ''/''"
  obtain t w0 where n: "world_Now w = (t, w0)" by fastforce
  obtain x w1 where x: "RedirectLink (main_resolver ul (cache_of cfg)) world_Now (rq_ctx r) ?k w0 = (x, w1)"
    by fastforce
  have until1: "no_event w w1"
    using no_event_ports(1) [OF n] no_event_redirect [OF x] no_event_trans by blast
  define w2 where "w2 = (case x of Inl _ \<Rightarrow> w1
    | Inr _ \<Rightarrow> recordRedirectEvent world_Now (link_handler ul cfg) r ?k w1)"
  obtain t' w3 where n': "world_Now w2 = (t', w3)" by fastforce
  have h: "h_redirectLink (link_handler ul cfg) = RedirectLink (main_resolver ul (cache_of cfg)) world_Now"
    by (simp add: link_handler_def)
  from assms n x n' have "\<exists>nm d. w' = recordRedirectMetric (link_handler ul cfg) nm d w3"
    and a: "a = (case x of Inl e \<Rightarrow> writeRedirectErr e | Inr u \<Rightarrow> http_Redirect u)"
    by (cases x; auto simp: handleRedirect_def h w2_def)+
  then have "w_events w' = w_events w2"
    using no_event_ports(1) [OF n'] by (auto simp: no_event_def)
  moreover have "rp_Status a = 302 \<longleftrightarrow> (\<exists>u. x = Inr u)"
    using a by (cases x) (auto simp: writeRedirectErr_def http_NotFound_def http_Error_def http_Redirect_def)
  ultimately show ?thesis
    using until1 by (cases x) (auto simp: w2_def Events_def no_event_def recordRedirectEvent_world)
qed

section \<open>The cache never stands in the way\<close>

lemma redirect_fails_open:
  assumes "coherent_world ul w" "stored w k = Some l" "cached_for ul w k = None" 
    "\<forall>n \<ge> w_reads w. CanRedirect l (w_clock w n)"
  shows "fst (serve ul (Some config) (ReqRedirect None k) w) = RedirectResponse (Inr (dest_String (destination l)))"
proof -
  let ?R = "world_resolver ul config"
  have parts: "r_cache ?R = world_cache ul" "r_source ?R = RepositoryResolver_Resolve world_repo" "r_clock ?R = world_Now"
    by (simp_all add: world_resolver_def)
  have ok: "link_ok l" using assms(1,2) stored_ok by (auto simp: coherent_world_def)
  obtain t1 w1 where 1: "world_Now w = (t1, w1)" by fastforce
  obtain g w2 where 2: "CacheGet (world_cache ul) (world_timeout None (r_operationTimeout ?R)) k w1 = (g, w2)" by fastforce
  obtain t3 w3 where 3: "world_Now w2 = (t3, w3)" by fastforce
  have "\<not> (\<exists>m. g = Inr m)"
    using redirect_cache_contract.CacheGet_ok [OF world_cache_contract] 2 assms(3) world_Now_frame(4) [OF 1, of ul]
    by (metis option.distinct(1))
  then obtain e where e: "g = Inl e" by (cases g) auto
  let ?w3 = "recordCacheGet ?R (if errors_is e (Ports ErrRedirectCacheMiss) then ''miss'' else ''error'') (Sub t3 t1) w3"
  obtain t4 w4 where 4: "world_Now ?w3 = (t4, w4)" by fastforce
  have "stored w4 = stored w"
    using world_Now_frame(1) [OF 1] world_cache_frame(1) [OF 2] world_Now_frame(1) [OF 3] world_Now_frame(1) [OF 4]
    by (simp add: stored_def recordCacheGet_def world_resolver_def world_metrics_def)
  then have 5: "RepositoryResolver_Resolve world_repo None k w4 = (Inr (mapping_of l), w4)"
    using assms(2) RedirectMappingFromLink_ok [OF ok] by (simp add: RepositoryResolver_Resolve_def Find_world)
  obtain x w' where r: "CacheAside_Resolve world_timeout world_Now ?R None k w = (x, w')" by fastforce
  have x: "x = Inr (mapping_of l)"
    using r 1 2 3 4 5 e parts
    by (auto simp: CacheAside_Resolve_def Let_def split: prod.splits if_splits)
  have "w_clock w' = w_clock w" "w_reads w \<le> w_reads w'" using no_event_cached [OF r] by (simp_all add: no_event_def)
  with r x assms(4) show ?thesis
    by (simp add: main_resolver_def RedirectLink_def world_Now_def)
qed

text \<open>With the cache or without.\<close>

lemma redirect_uncached_code:
  assumes "ready ul cache w" "stored w k = Some l" "cache \<noteq> None \<Longrightarrow> cached_for ul w k = None"
    and "\<forall>n \<ge> w_reads w. CanRedirect l (w_clock w n)"
  shows "fst (serve ul cache (ReqRedirect None k) w) = RedirectResponse (Inr (dest_String (destination l)))"
proof (cases cache)
  case None
  have "world_inv w" using assms(1) by (simp add: ready_def)
  from redirect_plain [OF this, of ul k] None assms(2,4) show ?thesis by (simp del: serve.simps)
next
  case (Some config)
  then have "coherent_world ul w" "cached_for ul w k = None" using assms(1,3) by (simp_all add: ready_def)
  from redirect_fails_open [OF this(1) assms(2) this(2) assms(4)] Some show ?thesis by (simp del: serve.simps)
qed

text \<open>A creation reads the clock and records no event.\<close>

lemma create_no_event:
  assumes "CreateGeneratedLink ul (main_repo ul cache) world_Generate world_Now world_alloc (Some world_store) c q w = (x, w')"
  shows "no_event w w'"
  using assms
proof (rule create_keeps [where I = "no_event w"])
  have "Insert (main_repo ul cache) = Insert world_repo"
    by (cases cache) (simp_all add: main_repo_def refreshing_repo_def CacheRefreshingRepository_def)
  then show "no_event w s \<Longrightarrow> Insert (main_repo ul cache) c l s = (p, s') \<Longrightarrow> no_event w s'" for l s p s'
    by (auto simp: no_event_def world_repo_def lift_repository_def lift_iff put_links_def)
qed (auto simp: no_event_def world_Generate_def world_Now_def world_alloc_def world_store_def lift_idempotency_def
    lift_iff put_idem_def split: prod.splits)

lemma linkd_create_no_event:
  assumes "linkd ul sha256 et cfg r w = (LinkAnswer a, w')" "link_request r = Some (ReqCreate c q)"
  shows "no_event w w'"
proof -
  have r: "rq_Method r = ''POST''" "rq_Path r = ''/v1/links''"
    using assms(2) by (auto simp: link_request_def split: if_splits)
  then have "ServeMux (rq_Method r) (rq_EscapedPath r) = RouteLink"
    using assms(1) by (auto simp: linkd_def handle_def ServeMux_def match_route_def split: if_splits)
  then have "handleCreateLink (link_handler ul cfg) r w = (a, w')"
    using assms(1) r by (auto simp: linkd_def handle_def Handler_ServeHTTP_def apfst_def map_prod_def split: prod.splits)
  then show ?thesis
    by (auto simp: handleCreateLink_def link_handler_def split: option.splits prod.splits sum.splits
        dest: create_no_event)
qed

lemma unstored_uncached:
  assumes "ready ul cache w" "cache \<noteq> None" "stored w k = None"
  shows "cached_for ul w k = None"
proof (cases "cached_for ul w k")
  case (Some m)
  moreover have "coherent_world ul w" using assms(1,2) by (auto simp: ready_def)
  ultimately have "reflects_link ul w k m" by (simp add: coherent_world_def)
  with assms(3) show ?thesis by (simp add: reflects_link_def)
qed

end
