(* ===== verification/Sample.thy ===== *)
theory Sample
  imports Concurrency WebFacts
begin

text \<open>The run of the program that the witnesses of the root theory evaluate.\<close>

section \<open>A sample run\<close>

text \<open>A clock that ticks, a source of random bytes, a Redis server
  whose network delivers every call.  Bob creates a link, whose code is \<open>77777777\<close>, and disables it.\<close>

definition sample_world :: world where
  "sample_world = initial_world (\<lambda>n. int n + 1000) (replicate 16 7) (\<lambda>_. 1) (\<lambda>_. Delivered)"

definition sample_config :: RedirectCacheConfig where
  "sample_config = \<lparr>OperationTimeout = Second, ActiveTTL = 60 * Second, InactiveTTL = Second\<rparr>"

definition sample_create :: CreateGeneratedLinkRequest where
  "sample_create = \<lparr>c_Destination = ''https://example.com/a'', c_OwnerID = ''bob'', c_ExpiresAt = None,
     c_IdempotencyKey = ''k''\<rparr>"

definition sample_disable :: "string \<Rightarrow> u64 \<Rightarrow> ChangeLinkStatusRequest" where
  "sample_disable owner v = \<lparr>s_Code = ''77777777'', s_OwnerID = owner, s_Status = Disabled,
     s_ExpectedVersion = v\<rparr>"

definition sample_created :: link where
  "sample_created = \<lparr>code = ''77777777'', destination = \<lparr>dest_value = ''https://example.com/a''\<rparr>,
     ownerID = ''bob'', status = Active, createdAt = 1000, updatedAt = 1000, expiresAt = None,
     version = 1\<rparr>"

definition after :: "RedirectCacheConfig option \<Rightarrow> request list \<Rightarrow> world" where
  "after cache qs = snd (serve_all id cache qs sample_world)"

lemma initial_ready_sample [simp]: "ready ul cache sample_world"
  by (simp add: sample_world_def)

lemma after_ready: "\<forall>q \<in> set qs. below_last_version q \<Longrightarrow> ready id cache (after cache qs)"
  unfolding after_def using serve_all_ready [of id cache qs sample_world] by (metis initial_ready_sample prod.collapse)

lemma fst_run: "fst p = r \<Longrightarrow> p = (r, snd p)"
  by auto

text \<open>A created link in the store, and a change of it to \<open>sample_disabled\<close> under way.\<close>

definition sample_disabled :: link where
  "sample_disabled = sample_created\<lparr>status := Disabled, updatedAt := 2000, version := 2\<rparr>"

definition sample_stored :: world where
  "sample_stored = snd (Insert world_repo None sample_created sample_world)"

section \<open>Requests to the server\<close>

text \<open>A text of JSON is built from its quoted strings.\<close>

definition quoted :: "string \<Rightarrow> string" where
  "quoted s = [CHR 0x22] @ s @ [CHR 0x22]"

definition http :: "string \<Rightarrow> string \<Rightarrow> (string \<times> string) list \<Rightarrow> string \<Rightarrow> http_request" where
  "http method path headers body =
     \<lparr>rq_ctx = None, rq_Method = method, rq_Path = path, rq_EscapedPath = path, rq_code = '''',
      rq_Header = headers, rq_RemoteAddr = ''10.0.0.1:80'', rq_Body = body\<rparr>"

definition sample_post :: http_request where
  "sample_post = http ''POST'' ''/v1/links'' []
     (''{'' @ quoted ''destination'' @ '':'' @ quoted ''https://example.com/a'' @ '',''
       @ quoted ''ownerId'' @ '':'' @ quoted ''bob'' @ ''}'')"

definition sample_patch :: "string \<Rightarrow> string \<Rightarrow> http_request" where
  "sample_patch owner tag = http ''PATCH'' ''/v1/links/77777777'' [(''X-Owner-Id'', owner), (''If-Match'', quoted tag)]
     (''{'' @ quoted ''status'' @ '':'' @ quoted ''disabled'' @ ''}'')"

definition served :: "http_request \<Rightarrow> world \<Rightarrow> answer \<times> world" where
  "served = linkd id id (\<lambda>_. '''') default_config"

text \<open>The world after Bob's link has been created over HTTP.\<close>

definition posted :: world where
  "posted = snd (served sample_post sample_world)"

fun link_answer :: "answer \<Rightarrow> link_json http_response option" where
  "link_answer (LinkAnswer a) = Some a"
| "link_answer _ = None"

lemma link_answer_Some: "link_answer x = Some a \<longleftrightarrow> x = LinkAnswer a"
  by (cases x) auto

lemma sample_posted:
  "served sample_post sample_world = (LinkAnswer (writeJSON 201
     (CreatedLink ''77777777'' ''http://localhost:8080/77777777'' ''https://example.com/a'')), posted)"
  "stored posted ''77777777'' = Some sample_created" "0 < w_clock posted (Suc (w_reads posted))"
proof -
  have "(case served sample_post sample_world of (a, w) \<Rightarrow>
      (link_answer a, stored w ''77777777'', 0 < w_clock w (Suc (w_reads w)))) = (Some (writeJSON 201
     (CreatedLink ''77777777'' ''http://localhost:8080/77777777'' ''https://example.com/a'')), Some sample_created, True)"
    by code_simp
  then show "served sample_post sample_world = (LinkAnswer (writeJSON 201
     (CreatedLink ''77777777'' ''http://localhost:8080/77777777'' ''https://example.com/a'')), posted)"
    "stored posted ''77777777'' = Some sample_created" "0 < w_clock posted (Suc (w_reads posted))"
    by (auto simp: link_answer_Some posted_def split: prod.splits)
qed

end
