(* ===== verification/PostgresServer.thy ===== *)
theory PostgresServer
  imports Postgres
begin

text \<open>
  A PostgreSQL server that behaves as documented, reached through a network that may lose a request
  or a reply: it meets the contract of a pool, and runs the adapters on concrete inputs.
\<close>

record pg_server =
  pg_db :: database
  pg_calls :: nat
  pg_network :: "nat \<Rightarrow> network"
  pg_heap :: nat

definition pg_call :: "ctx \<Rightarrow> (database \<Rightarrow> (err + 'a) \<times> database) \<Rightarrow> pg_server \<Rightarrow> (err + 'a) \<times> pg_server" where
  "pg_call ctx f s =
     (let s1 = s\<lparr>pg_calls := Suc (pg_calls s)\<rparr>
      in case ctx_Err ctx of
           Some e \<Rightarrow> (Inl e, s1)
         | None \<Rightarrow>
             (case pg_network s (pg_calls s) of
                RequestLost \<Rightarrow> (Inl (Foreign ''connection refused''), s1)
              | ReplyLost \<Rightarrow> (Inl (Foreign ''unexpected EOF''), s1\<lparr>pg_db := snd (f (pg_db s))\<rparr>)
              | Delivered \<Rightarrow> (fst (f (pg_db s)), s1\<lparr>pg_db := snd (f (pg_db s))\<rparr>)))"

definition pg_QueryRow :: "ctx \<Rightarrow> (database \<Rightarrow> row option) \<Rightarrow> pg_server \<Rightarrow> (err + row) \<times> pg_server" where
  "pg_QueryRow ctx g =
     pg_call ctx (\<lambda>d. (case g d of None \<Rightarrow> Inl ErrNoRows | Some x \<Rightarrow> Inr x, d))"

definition server_pool :: "(ctx, pg_server) pg_pool" where
  "server_pool = \<lparr>Exec = pg_call, QueryRow = pg_QueryRow\<rparr>"

definition pg_alloc :: "pg_server allocator" where
  "pg_alloc s = (pg_heap s, s\<lparr>pg_heap := Suc (pg_heap s)\<rparr>)"

definition transport :: "err \<Rightarrow> bool" where
  "transport e \<longleftrightarrow> e \<in> {context_err Canceled, context_err DeadlineExceeded,
     Foreign ''connection refused'', Foreign ''unexpected EOF''}"

lemma transport_sharp:
  "transport e \<Longrightarrow> \<not> errors_is e (Ports p) \<and> \<not> isUniqueViolation e \<and> \<not> errors_is e ErrNoRows"
  unfolding transport_def
  by (elim insertE emptyE) (simp_all add: isUniqueViolation_def sql_error_def uniqueViolationCode_def ErrNoRows_def)

lemma transport_simps [simp]:
  "transport (context_err x)" "transport (Foreign ''connection refused'')"
  "transport (Foreign ''unexpected EOF'')"
  by (cases x; simp add: transport_def)+

lemma pg_call_step:
  assumes "pg_call c f s = (q, s')"
  shows "q = fst (f (pg_db s)) \<and> pg_db s' = snd (f (pg_db s))
    \<or> (\<exists>e. q = Inl e \<and> transport e \<and> (pg_db s' = pg_db s \<or> pg_db s' = snd (f (pg_db s))))"
proof (cases c)
  case None
  then show ?thesis using assms
    by (cases "pg_network s (pg_calls s)") (auto simp: pg_call_def Let_def)
next
  case (Some x)
  then show ?thesis using assms by (auto simp: pg_call_def Let_def)
qed

interpretation pg: postgres_pool server_pool pg_db transport
proof (unfold_locales, goal_cases)
  case (4 c f s q s')
  then have "pg_call c f s = (q, s')" by (simp add: server_pool_def)
  then show ?case by (rule pg_call_step)
next
  case (5 c g s r s')
  then have "pg_call c (\<lambda>d. (case g d of None \<Rightarrow> Inl ErrNoRows | Some x \<Rightarrow> Inr x, d)) s = (r, s')"
    by (simp add: server_pool_def pg_QueryRow_def)
  from pg_call_step [OF this] show ?case by (auto split: option.splits)
qed (use transport_sharp in blast)+

section \<open>A server that starts empty\<close>

lemma at_address_twice [simp]: "at_address a (at_address b l) = at_address a l"
  by (simp add: at_address_def option.map_comp comp_def)

lemma pg_alloc_frame: "\<forall>s. pg_db (snd (pg_alloc s)) = pg_db s"
  by (simp add: pg_alloc_def)

definition empty_server :: "(nat \<Rightarrow> network) \<Rightarrow> pg_server" where
  "empty_server net =
     \<lparr>pg_db = \<lparr>db_links = Map.empty, db_keys = Map.empty, db_events = []\<rparr>, pg_calls = 0,
      pg_network = net, pg_heap = 0\<rparr>"

lemma empty_represents: "represents ul (pg_db (empty_server net)) NewRepository"
  by (simp add: represents_def empty_server_def NewRepository_def)

text \<open>A link whose times are whole microseconds.\<close>

definition stored_sample :: link where
  "stored_sample =
     \<lparr>code = ''abc123'', destination = \<lparr>dest_value = ''https://example.com/''\<rparr>, ownerID = ''alice'',
      status = Active, createdAt = 1000, updatedAt = 2000, expiresAt = Some (TimeRef 7 5000),
      version = 2\<rparr>"

lemma stored_sample_ok: "storable id stored_sample"
  by code_simp

text \<open>C27: saving a key never replaces the code another save has recorded, and touches no link; when it
  succeeds, the key stands for the code of the link.\<close>

theorem pg_Save_keeps_keys:
  assumes "pg_Save server_pool c owner key l s = (q, s')"
  shows "db_links (pg_db s') = db_links (pg_db s) \<and>
    (\<forall>k v. db_keys (pg_db s) k = Some v \<longrightarrow> db_keys (pg_db s') k = Some v) \<and>
    (q = None \<longrightarrow> (\<exists>t. db_keys (pg_db s') (owner, key) = Some (code l, t)))"
  using assms by (rule pg.Save_keeps_keys)

lemma pg_Save_keeps_keys_witness:
  "\<exists>t. db_keys (pg_db (snd (pg_Save server_pool None ''alice'' ''k'' stored_sample
     (snd (pg_Insert server_pool None stored_sample (empty_server (\<lambda>_. Delivered))))))) (''alice'', ''k'')
   = Some (''abc123'', t)"
proof -
  let ?s = "snd (pg_Insert server_pool None stored_sample (empty_server (\<lambda>_. Delivered)))"
  have "fst (pg_Save server_pool None ''alice'' ''k'' stored_sample ?s) = None" by code_simp
  then have "pg_Save server_pool None ''alice'' ''k'' stored_sample ?s
      = (None, snd (pg_Save server_pool None ''alice'' ''k'' stored_sample ?s))"
    by (metis prod.collapse)
  from pg_Save_keeps_keys [OF this] show ?thesis by (simp add: stored_sample_def)
qed

text \<open>A link that expires within the microsecond it is created in passes the checks of the
  program but not those of the table: its insertion fails and stores nothing.\<close>

theorem pg_expiry_too_soon:
  assumes "ExpiresAt l = Some t" "pg_time t = pg_time (createdAt l)" "pg_Insert server_pool c l s = (q, s')"
  shows "q \<noteq> None \<and> pg_db s' = pg_db s"
proof (cases "pg_bigint (version l)")
  case (Inl e)
  with assms(3) show ?thesis by (auto simp: pg_Insert_def)
next
  case (Inr v)
  define r where "r = \<lparr>row_destination_url = dest_String (destination l), row_owner_id = ownerID l,
      row_status = status_String (status l), row_created_at = pg_time (createdAt l),
      row_updated_at = pg_time (updatedAt l), row_expires_at = map_option pg_time (ExpiresAt l), row_version = v\<rparr>"
  have "\<not> checks_ok r" using assms(1,2) by (simp add: r_def checks_ok_def)
  then have f: "insert_link (code l) r d = (Inl (sql_error ''23514''), d)" for d
    by (simp add: insert_link_def)
  obtain p s1 where p: "Exec server_pool c (insert_link (code l) r) s = (p, s1)" by fastforce
  with pg.Exec_step [OF p] f have "(\<exists>e. p = Inl e)" "pg_db s1 = pg_db s" by auto
  with assms(3) Inr p show ?thesis by (auto simp: pg_Insert_def r_def [symmetric])
qed

lemma pg_expiry_too_soon_witness:
  "link_ok (stored_sample\<lparr>expiresAt := Some (TimeRef 7 1200)\<rparr>)
   \<and> fst (pg_Insert server_pool None (stored_sample\<lparr>expiresAt := Some (TimeRef 7 1200)\<rparr>) (empty_server (\<lambda>_. Delivered)))
     \<noteq> None"
proof -
  let ?l = "stored_sample\<lparr>expiresAt := Some (TimeRef 7 1200)\<rparr>"
  have "link_ok ?l" by code_simp
  moreover have "ExpiresAt ?l = Some 1200" "pg_time 1200 = pg_time (createdAt ?l)"
    by (simp_all add: ExpiresAt_def pg_time_def stored_sample_def)
  ultimately show ?thesis
    using pg_expiry_too_soon [of ?l 1200 None "empty_server (\<lambda>_. Delivered)", OF _ _ prod.collapse [symmetric]]
    by simp
qed

end
