(* ===== verification/PostgresLinks.thy ===== *)
theory PostgresLinks
  imports PostgresServer CreateLink
begin

text \<open>
  The stores in PostgreSQL meet the contracts of the ports, for links of any clock: what a row keeps
  of a link is the link in whole microseconds.  The links a table can hold are those whose destination
  is what its text is validated to, created after the first microsecond of the calendar.
  At the end, the refinement of the memory repository, call by call.
\<close>

section \<open>The links of the tables\<close>

definition pg_keep :: "link \<Rightarrow> link" where
  "pg_keep l = l\<lparr>createdAt := pg_time (createdAt l), updatedAt := pg_time (updatedAt l),
     expiresAt := map_option (\<lambda>r. TimeRef 0 (pg_time (deref r))) (expiresAt l)\<rparr>"

definition stable_dest :: "(string \<Rightarrow> string) \<Rightarrow> destination_url \<Rightarrow> bool" where
  "stable_dest ul d \<longleftrightarrow> NewDestinationURL ul (dest_String d) = Inr d"

definition pg_fit :: "(string \<Rightarrow> string) \<Rightarrow> link \<Rightarrow> bool" where
  "pg_fit ul l \<longleftrightarrow> link_ok l \<and> 1000 \<le> createdAt l \<and> stable_dest ul (destination l)"

definition row_link :: "string \<Rightarrow> link_row \<Rightarrow> link" where
  "row_link c r =
     \<lparr>code = c, destination = \<lparr>dest_value = row_destination_url r\<rparr>, ownerID = row_owner_id r,
      status = (if row_status r = ''active'' then Active else if row_status r = ''disabled'' then Disabled
        else Deleted),
      createdAt = row_created_at r, updatedAt = row_updated_at r,
      expiresAt = map_option (TimeRef 0) (row_expires_at r), version = word_of_int (row_version r)\<rparr>"

definition pg_content :: "database \<Rightarrow> string \<Rightarrow> link option" where
  "pg_content d k = map_option (row_link k) (db_links d k)"

text \<open>What the statements keep: every row is that of a storable link, and every key has its link.\<close>

definition pg_ok :: "(string \<Rightarrow> string) \<Rightarrow> database \<Rightarrow> bool" where
  "pg_ok ul d \<longleftrightarrow>
     (\<forall>k l. pg_content d k = Some l \<longrightarrow> storable ul l \<and> 1000 \<le> createdAt l \<and> db_links d k = Some (row_of l))
     \<and> (\<forall>key c t. db_keys d key = Some (c, t) \<longrightarrow> db_links d c \<noteq> None)"

lemma pg_time_idem [simp]: "pg_time (pg_time t) = pg_time t"
  by (simp add: pg_time_def)

lemma pg_time_mono: "t \<le> u \<Longrightarrow> pg_time t \<le> pg_time u"
  by (simp add: pg_time_def minus_mod_eq_mult_div zdiv_mono1)

lemma pg_time_ge: "1000 \<le> t \<Longrightarrow> 1000 \<le> pg_time t"
  using pg_time_mono [of 1000 t] by (simp add: pg_time_def)

lemma pg_keep_simps [simp]:
  "code (pg_keep l) = code l" "destination (pg_keep l) = destination l" "ownerID (pg_keep l) = ownerID l"
  "status (pg_keep l) = status l" "version (pg_keep l) = version l" "createdAt (pg_keep l) = pg_time (createdAt l)"
  "updatedAt (pg_keep l) = pg_time (updatedAt l)" "ExpiresAt (pg_keep l) = map_option pg_time (ExpiresAt l)"
  "pg_keep (pg_keep l) = pg_keep l" "at_address 0 (pg_keep l) = pg_keep l"
  by (simp_all add: pg_keep_def ExpiresAt_def at_address_def option.map_comp comp_def)

lemma row_of_keep [simp]: "row_of (pg_keep l) = row_of l"
  by (simp add: row_of_def option.map_comp comp_def)

lemma row_link_simps [simp]:
  "code (row_link c r) = c" "at_address 0 (row_link c r) = row_link c r"
  by (simp_all add: row_link_def at_address_def option.map_comp comp_def)

lemma storable_keep_id: "storable ul l \<Longrightarrow> at_address 0 l = pg_keep l"
  by (cases "expiresAt l") (auto simp: storable_def pg_keep_def at_address_def ExpiresAt_def)

lemma keep_address [simp]: "storable ul l \<Longrightarrow> pg_keep (at_address a l) = pg_keep l"
  by (simp add: pg_keep_def at_address_def option.map_comp comp_def)

lemma row_link_row_of:
  assumes "storable ul l"
  shows "row_link (code l) (row_of l) = pg_keep l"
proof -
  have "status_IsValid (status l)" "map_option pg_time (ExpiresAt l) = ExpiresAt l"
    using assms by (auto simp: storable_def link_ok_def)
  then have "row_link (code l) (row_of l) = at_address 0 l"
    using assms
    by (cases "status l")
      (simp_all add: row_link_def row_of_def at_address_def storable_def ExpiresAt_def dest_String_def option.map_comp
        comp_def)
  then show ?thesis using storable_keep_id [OF assms] by simp
qed

text \<open>A link the checks of the table let in is storable, once in microseconds.\<close>

lemma storable_keep:
  assumes "pg_fit ul l" "uint (version l) < 2 ^ 63" "checks_ok (row_of l)"
  shows "storable ul (pg_keep l)"
proof -
  have l: "link_ok l" "1000 \<le> createdAt l" "stable_dest ul (destination l)" using assms(1) by (auto simp: pg_fit_def)
  have t: "1000 \<le> pg_time (createdAt l)" "pg_time (createdAt l) \<le> pg_time (updatedAt l)"
    using pg_time_ge [OF l(2)] pg_time_mono l(1) by (auto simp: link_ok_def)
  have "link_ok (pg_keep l)"
    using l(1) t assms(3) by (auto simp: link_ok_def checks_ok_def row_of_def pg_keep_def ExpiresAt_def)
  moreover have "map_option pg_time (ExpiresAt (pg_keep l)) = ExpiresAt (pg_keep l)"
    by (simp add: option.map_comp comp_def)
  ultimately show ?thesis using l(3) assms(2) by (simp add: storable_def stable_dest_def)
qed

lemma pg_ok_link:
  assumes "pg_ok ul d" "pg_content d k = Some l"
  shows "storable ul l" "1000 \<le> createdAt l" "db_links d k = Some (row_of l)" "code l = k" "pg_keep l = l"
proof -
  show s: "storable ul l" "1000 \<le> createdAt l" "db_links d k = Some (row_of l)"
    using assms by (auto simp: pg_ok_def)
  from assms(2) show "code l = k" by (auto simp: pg_content_def)
  from assms(2) have "at_address 0 l = l" by (auto simp: pg_content_def)
  with storable_keep_id [OF s(1)] show "pg_keep l = l" by simp
qed

lemma pg_ok_represents:
  assumes "pg_ok ul d"
  shows "represents ul d \<lparr>links = pg_content d\<rparr>"
proof -
  have "db_links d k = map_option row_of (pg_content d k)" for k
    using pg_ok_link(3) [OF assms, of k] by (cases "db_links d k") (auto simp: pg_content_def)
  then show ?thesis using pg_ok_link [OF assms] by (auto simp: represents_def)
qed

text \<open>Writing the row of a link.\<close>

definition put_row :: "link \<Rightarrow> database \<Rightarrow> database" where
  "put_row l d = d\<lparr>db_links := (db_links d)(code l \<mapsto> row_of l)\<rparr>"

lemma put_row:
  assumes "pg_ok ul d" "pg_fit ul l" "uint (version l) < 2 ^ 63" "checks_ok (row_of l)"
  shows "pg_ok ul (put_row l d)" "pg_content (put_row l d) = (pg_content d)(code l \<mapsto> pg_keep l)"
    "db_keys (put_row l d) = db_keys d"
proof -
  have s: "storable ul (pg_keep l)" by (rule storable_keep [OF assms(2-4)])
  have "row_link (code l) (row_of l) = pg_keep l" using row_link_row_of [OF s] by simp
  then show c: "pg_content (put_row l d) = (pg_content d)(code l \<mapsto> pg_keep l)"
    by (simp add: put_row_def pg_content_def fun_eq_iff)
  have "1000 \<le> createdAt (pg_keep l)" using assms(2) pg_time_ge by (simp add: pg_fit_def)
  then show "pg_ok ul (put_row l d)"
    using s assms(1) unfolding pg_ok_def c by (auto simp: put_row_def)
qed (simp add: put_row_def)

lemma pg_content_None: "pg_content d k = None \<longleftrightarrow> db_links d k = None"
  by (simp add: pg_content_def)

section \<open>The repository meets its contract\<close>

lemma insert_link_row:
  "insert_link (code l) (row_of l) d =
     (if \<not> checks_ok (row_of l) then (Inl (sql_error ''23514''), d)
      else if pg_content d (code l) \<noteq> None then (Inl (sql_error uniqueViolationCode), d)
      else (Inr 1, put_row l d))"
  by (simp add: insert_link_def put_row_def pg_content_None)

context postgres_pool
begin

definition written :: "(string \<Rightarrow> string) \<Rightarrow> link \<Rightarrow> 's \<Rightarrow> 's \<Rightarrow> bool" where
  "written ul l s s' \<longleftrightarrow> pg_ok ul (db s') \<and> db_keys (db s') = db_keys (db s)
     \<and> pg_content (db s') = (pg_content (db s))(code l \<mapsto> pg_keep l)"

lemma Insert_result:
  assumes "pg_ok ul (db s)" "pg_fit ul l" "pg_Insert pool c l s = (q, s')"
  shows "case q of
      None \<Rightarrow> pg_content (db s) (code l) = None \<and> written ul l s s'
    | Some e \<Rightarrow> db s' = db s
        \<or> other e \<and> pg_content (db s) (code l) = None \<and> written ul l s s'"
proof (cases "uint (version l) < 2 ^ 63")
  case False
  with assms(3) show ?thesis by (auto simp: pg_Insert_def pg_bigint_def)
next
  case small: True
  let ?f = "insert_link (code l) (row_of l)"
  obtain p s1 where p: "Exec pool c ?f s = (p, s1)" by fastforce
  with assms(3) small have q: "s' = s1"
    "q = (case p of Inl e \<Rightarrow> Some (if isUniqueViolation e then Ports ErrLinkAlreadyExists else e) | Inr _ \<Rightarrow> None)"
    by (auto simp: pg_Insert_def pg_bigint_def row_of_def split: sum.splits)
  show ?thesis
  proof (cases "checks_ok (row_of l) \<and> pg_content (db s) (code l) = None")
    case True
    then have f: "?f (db s) = (Inr 1, put_row l (db s))" by (simp add: insert_link_row)
    have w: "written ul l s s1" if "db s1 = put_row l (db s)"
      using put_row [OF assms(1,2) small] True that by (simp add: written_def)
    from Exec_step [OF p] show ?thesis
      unfolding f q using w True other_sharp(2) by (cases p) auto
  next
    case False
    have "\<exists>e. ?f (db s) = (Inl e, db s)" using False by (cases "checks_ok (row_of l)") (auto simp: insert_link_row)
    then obtain e where f: "?f (db s) = (Inl e, db s)" ..
    from Exec_step [OF p] have "db s1 = db s" "\<exists>e. p = Inl e" unfolding f by auto
    then show ?thesis using q by auto
  qed
qed

lemma Insert_exists_result:
  assumes "pg_Insert pool c l s = (Some e, s')" "errors_is e (Ports ErrLinkAlreadyExists)"
  shows "pg_content (db s) (code l) \<noteq> None"
proof (cases "uint (version l) < 2 ^ 63")
  case False
  with assms show ?thesis by (auto simp: pg_Insert_def pg_bigint_def)
next
  case True
  let ?f = "insert_link (code l) (row_of l)"
  obtain p s1 where p: "Exec pool c ?f s = (p, s1)" by fastforce
  with assms(1) True obtain e' where e': "p = Inl e'"
    "e = (if isUniqueViolation e' then Ports ErrLinkAlreadyExists else e')"
    by (auto simp: pg_Insert_def pg_bigint_def row_of_def split: sum.splits)
  from Exec_step [OF p] have "Inl e' = fst (?f (db s)) \<or> other e'" using e'(1) by auto
  with assms(2) e'(2) other_sharp(1,2) show ?thesis
    by (auto simp: insert_link_row isUniqueViolation_def sql_error_def uniqueViolationCode_def split: if_splits)
qed

text \<open>Reading a link.\<close>

lemma Find_result:
  assumes "pg_ok ul (db s)" "\<forall>s. db (snd (alloc s)) = db s" "pg_FindByCode ul alloc pool c k s = (r, s')"
  shows "db s' = db s \<and>
    ((case pg_content (db s) k of
        None \<Rightarrow> r = Inl (Ports ErrLinkNotFound)
      | Some l \<Rightarrow> \<exists>a. r = Inr (at_address a l))
     \<or> (\<exists>e. r = Inl e \<and> other e))"
  using FindByCode_simulates [OF pg_ok_represents [OF assms(1)] assms(2,3)] by auto

text \<open>Writing over the row of a link.\<close>

lemma update_link_row:
  assumes "pg_ok ul d" "uint ev < 2 ^ 63" "uint (version l) < 2 ^ 63"
  shows "update_link (dest_String (destination l)) (status_String (status l)) (pg_time (updatedAt l))
      (map_option pg_time (ExpiresAt l)) (uint (version l)) (code l) (uint ev) d =
    (case pg_content d (code l) of
       None \<Rightarrow> (Inr 0, d)
     | Some old \<Rightarrow>
         if version old \<noteq> ev then (Inr 0, d)
         else
           let r = (row_of l)\<lparr>row_owner_id := ownerID old, row_created_at := createdAt old\<rparr>
           in if \<not> checks_ok r then (Inl (sql_error ''23514''), d)
              else (Inr 1, d\<lparr>db_links := (db_links d)(code l \<mapsto> r)\<rparr>))"
proof (cases "pg_content d (code l)")
  case None
  then have "db_links d (code l) = None" by (simp add: pg_content_None)
  with None show ?thesis by (simp add: update_link_def)
next
  case (Some old)
  note old = pg_ok_link [OF assms(1) Some]
  have "pg_time (createdAt old) = createdAt old" using old(1) by (simp add: storable_def)
  moreover have "uint (version old) = uint ev \<longleftrightarrow> version old = ev" by (simp add: word_uint_eq_iff)
  ultimately show ?thesis using Some old(3) by (simp add: update_link_def row_of_def Let_def)
qed

definition overwritten :: "(string \<Rightarrow> string) \<Rightarrow> link \<Rightarrow> u64 \<Rightarrow> 's \<Rightarrow> 's \<Rightarrow> bool" where
  "overwritten ul l ev s s' \<longleftrightarrow>
     (\<exists>old. pg_content (db s) (code l) = Some old \<and> version old = ev \<and>
        (ownerID old = ownerID l \<longrightarrow> createdAt old = pg_time (createdAt l) \<longrightarrow> written ul l s s'))"

lemma linkExists_result:
  "linkExists pool c k s = (r, s') \<Longrightarrow>
     db s' = db s \<and> (r = Inr (pg_content (db s) k \<noteq> None) \<or> (\<exists>e. r = Inl e \<and> other e))"
  using QueryRow_step [of c "\<lambda>d. Some (BoolRow (db_links d k \<noteq> None))" s]
  by (auto simp: linkExists_def pg_content_None split: prod.splits sum.splits row.splits)

lemma Update_result:
  assumes "pg_ok ul (db s)" "pg_fit ul l" "pg_Update pool c l ev s = (q, s')"
  shows "case q of
      None \<Rightarrow> overwritten ul l ev s s'
    | Some e \<Rightarrow> db s' = db s \<or> other e \<and> overwritten ul l ev s s'"
proof (cases "uint (version l) < 2 ^ 63 \<and> uint ev < 2 ^ 63")
  case False
  with assms(3) show ?thesis by (auto simp: pg_Update_def pg_bigint_def split: if_splits)
next
  case True
  let ?f = "update_link (dest_String (destination l)) (status_String (status l)) (pg_time (updatedAt l))
    (map_option pg_time (ExpiresAt l)) (uint (version l)) (code l) (uint ev)"
  obtain p s1 where p: "Exec pool c ?f s = (p, s1)" by fastforce
  obtain x s2 where x: "linkExists pool c (code l) s1 = (x, s2)" by fastforce
  note f = update_link_row [OF assms(1), of ev l]
  have b: "pg_bigint (version l) = Inr (uint (version l))" "pg_bigint ev = Inr (uint ev)"
    using True by (simp_all add: pg_bigint_def)
  note q = assms(3) [unfolded pg_Update_def b, simplified, unfolded p, simplified]
  show ?thesis
  proof (cases "\<exists>d. ?f (db s) = (Inr 1, d)")
    case taken: True
    then obtain old where old: "pg_content (db s) (code l) = Some old" "version old = ev"
      "checks_ok ((row_of l)\<lparr>row_owner_id := ownerID old, row_created_at := createdAt old\<rparr>)"
      "?f (db s) = (Inr 1, (db s)\<lparr>db_links := (db_links (db s))(code l
         \<mapsto> (row_of l)\<lparr>row_owner_id := ownerID old, row_created_at := createdAt old\<rparr>)\<rparr>)"
      using f True by (auto simp: Let_def split: option.splits if_splits)
    have w: "overwritten ul l ev s s1" if "db s1 = snd (?f (db s))"
      unfolding overwritten_def
    proof (intro exI [of _ old] conjI impI)
      assume same: "ownerID old = ownerID l" "createdAt old = pg_time (createdAt l)"
      have r: "(row_of l)\<lparr>row_owner_id := ownerID old, row_created_at := createdAt old\<rparr> = row_of l"
        using same by (simp add: row_of_def)
      then have "db s1 = put_row l (db s)" "checks_ok (row_of l)"
        using that old(3,4) by (simp_all only: r put_row_def snd_conv)
      then show "written ul l s s1"
        using put_row [OF assms(1,2)] True by (simp add: written_def)
    qed (use old in auto)
    from Exec_step [OF p] show ?thesis
    proof (elim disjE exE conjE)
      assume "p = fst (?f (db s))" "db s1 = snd (?f (db s))"
      with w q old(4) show ?thesis by auto
    next
      fix e
      assume "p = Inl e" "other e" "db s1 = db s"
      with q show ?thesis by auto
    next
      fix e
      assume "p = Inl e" "other e" "db s1 = snd (?f (db s))"
      with q w show ?thesis by auto
    qed
  next
    case False
    have "snd (?f (db s)) = db s"
      using f True False by (auto simp: Let_def split: option.splits if_splits)
    then have "db s1 = db s" using Exec_step [OF p] by auto
    moreover have "db s2 = db s1" using linkExists_result [OF x] by simp
    moreover have "fst (?f (db s)) \<noteq> Inr 1" using False by (metis prod.collapse)
    then have "p \<noteq> Inr 1" using Exec_step [OF p] by auto
    ultimately show ?thesis using q x by (cases p) (auto split: sum.splits if_splits)
  qed
qed

lemma Update_conflict_result:
  assumes "pg_ok ul (db s)" "pg_Update pool c l ev s = (Some e, s')" "errors_is e (Ports ErrVersionConflict)"
  shows "\<exists>old. pg_content (db s) (code l) = Some old \<and> version old \<noteq> ev"
proof (cases "uint (version l) < 2 ^ 63 \<and> uint ev < 2 ^ 63")
  case False
  with assms(2,3) show ?thesis by (auto simp: pg_Update_def pg_bigint_def split: if_splits)
next
  case True
  let ?f = "update_link (dest_String (destination l)) (status_String (status l)) (pg_time (updatedAt l))
    (map_option pg_time (ExpiresAt l)) (uint (version l)) (code l) (uint ev)"
  obtain p s1 where p: "Exec pool c ?f s = (p, s1)" by fastforce
  obtain x s2 where x: "linkExists pool c (code l) s1 = (x, s2)" by fastforce
  note f = update_link_row [OF assms(1), of ev l]
  have b: "pg_bigint (version l) = Inr (uint (version l))" "pg_bigint ev = Inr (uint ev)"
    using True by (simp_all add: pg_bigint_def)
  note q = assms(2) [unfolded pg_Update_def b, simplified, unfolded p, simplified]
  show ?thesis
  proof (cases p)
    case (Inl e')
    then have "e = e'" using q by simp
    moreover have "Inl e' = fst (?f (db s)) \<or> other e'" using Exec_step [OF p] Inl by auto
    ultimately show ?thesis
      using assms(3) other_sharp(1) f True
      by (auto simp: Let_def sql_error_def split: option.splits if_splits)
  next
    case (Inr n)
    have s1: "fst (?f (db s)) = Inr n" "db s1 = snd (?f (db s))" using Exec_step [OF p] Inr by auto
    have "n \<noteq> 1" using q Inr by auto
    with s1 f True have "db s1 = db s" and old: "\<forall>old. pg_content (db s) (code l) = Some old \<longrightarrow> version old \<noteq> ev"
      by (auto simp: Let_def split: option.splits if_splits)
    then have "x = Inr (pg_content (db s) (code l) \<noteq> None) \<or> (\<exists>e. x = Inl e \<and> other e)"
      using linkExists_result [OF x] by simp
    with q Inr \<open>n \<noteq> 1\<close> x assms(3) other_sharp(1) old show ?thesis
      by (auto split: if_splits)
  qed
qed

lemma fit_address:
  assumes "storable ul l" "1000 \<le> createdAt l"
  shows "pg_fit ul (at_address a l)"
proof -
  have "link_ok (at_address a l)"
    using assms(1) by (auto simp: storable_def at_address_def link_ok_def)
  then show ?thesis using assms by (simp add: pg_fit_def storable_def stable_dest_def at_address_def)
qed

lemma pg_repository_contract:
  assumes alloc: "\<forall>s. db (snd (alloc s)) = db s"
  shows "repository_contract (pg_repository ul alloc pool) (\<lambda>s. pg_content (db s)) pg_keep (\<lambda>s. pg_ok ul (db s))
    other (pg_fit ul)"
proof (unfold_locales, goal_cases)
  case (8 s k l)
  then show ?case using pg_ok_link [OF 8] by (simp add: storable_def)
next
  case (12 s l c s')
  then show ?case using Insert_result [of ul s l c None s'] by (simp add: pg_repository_def written_def)
next
  case (13 s l c e s')
  then show ?case using Insert_result [of ul s l c "Some e" s'] by (auto simp: pg_repository_def written_def)
next
  case (14 s c l e s')
  then show ?case using Insert_exists_result by (simp add: pg_repository_def)
next
  case (15 s c k r s')
  then have "pg_FindByCode ul alloc pool c k s = (r, s')" by (simp add: pg_repository_def)
  from Find_result [OF 15(1) alloc this] 15(1) show ?case by simp
next
  case (16 s c k l s')
  then have "pg_FindByCode ul alloc pool c k s = (Inr l, s')" by (simp add: pg_repository_def)
  from Find_result [OF 16(1) alloc this] obtain l0 a where l0: "pg_content (db s) k = Some l0" "l = at_address a l0"
    by (auto split: option.splits)
  note ok = pg_ok_link [OF 16(1) l0(1)]
  then show ?case using l0 fit_address [OF ok(1,2)] by simp
next
  case (17 s c k e s')
  then have "pg_FindByCode ul alloc pool c k s = (Inl e, s')" by (simp add: pg_repository_def)
  from Find_result [OF 17(1) alloc this] 17(3) other_sharp(1) show ?case by (auto split: option.splits)
next
  case (18 s l c ev s')
  then show ?case using Update_result [of ul s l c ev None s'] by (auto simp: pg_repository_def overwritten_def written_def)
next
  case (19 s l c ev e s')
  then show ?case
    using Update_result [of ul s l c ev "Some e" s']
    by (auto simp: pg_repository_def overwritten_def written_def)
next
  case (20 s c l ev e s')
  then show ?case using Update_conflict_result by (simp add: pg_repository_def)
qed (auto simp: pg_fit_def dest: other_sharp(1))

end

section \<open>The idempotency store meets its contract\<close>

text \<open>A key stands for the link its code has; it is the same for a link of that code.\<close>

definition pg_saved :: "database \<Rightarrow> string \<Rightarrow> string \<Rightarrow> link option" where
  "pg_saved d u k = (case db_keys d (u, k) of None \<Rightarrow> None | Some (c, t) \<Rightarrow> pg_content d c)"

definition pg_recorded :: "database \<Rightarrow> link \<Rightarrow> link" where
  "pg_recorded d l = (case pg_content d (code l) of None \<Rightarrow> l | Some x \<Rightarrow> x)"

definition put_key :: "string \<Rightarrow> string \<Rightarrow> string \<Rightarrow> time \<Rightarrow> database \<Rightarrow> database" where
  "put_key u k c t d = d\<lparr>db_keys := (db_keys d)((u, k) \<mapsto> (c, t))\<rparr>"

lemma pg_ok_key:
  assumes "pg_ok ul d" "db_keys d (u, k) = Some (c, t)"
  obtains l where "pg_content d c = Some l" "pg_saved d u k = Some l" "code l = c"
proof -
  have "db_links d c \<noteq> None" using assms unfolding pg_ok_def by blast
  then have "pg_content d c \<noteq> None" by (simp add: pg_content_None)
  then obtain l where l: "pg_content d c = Some l" by blast
  with that pg_ok_link(4) [OF assms(1) l] assms(2) show thesis by (simp add: pg_saved_def)
qed

lemma pg_saved_None: "pg_ok ul d \<Longrightarrow> pg_saved d u k = None \<longleftrightarrow> db_keys d (u, k) = None"
proof (cases "db_keys d (u, k)")
  case (Some ct)
  moreover obtain c t where "ct = (c, t)" by fastforce
  ultimately have k: "db_keys d (u, k) = Some (c, t)" by simp
  assume "pg_ok ul d"
  from pg_ok_key [OF this k] show ?thesis using k by auto
qed (simp add: pg_saved_def)

lemma put_key:
  assumes "pg_ok ul d" "pg_content d (code l) = Some x"
  shows "pg_ok ul (put_key u k (code l) t d)"
    "pg_content (put_key u k (code l) t d) = pg_content d"
    "pg_saved (put_key u k (code l) t d) = (pg_saved d)(u := (pg_saved d u)(k \<mapsto> pg_recorded d l))"
proof -
  show c: "pg_content (put_key u k (code l) t d) = pg_content d"
    by (simp add: put_key_def pg_content_def fun_eq_iff)
  have "db_links d (code l) \<noteq> None" using assms(2) by (auto simp: pg_content_def)
  then show "pg_ok ul (put_key u k (code l) t d)"
    using assms(1) unfolding pg_ok_def c by (auto simp: put_key_def)
  show "pg_saved (put_key u k (code l) t d) = (pg_saved d)(u := (pg_saved d u)(k \<mapsto> pg_recorded d l))"
    unfolding pg_saved_def c pg_recorded_def assms(2)
    by (intro ext) (simp add: put_key_def assms(2))
qed

context postgres_pool
begin

lemma Get_result:
  assumes "pg_ok ul (db s)" "\<forall>s. db (snd (alloc s)) = db s" "pg_Get ul alloc pool c u k s = (r, s')"
  shows "db s' = db s \<and>
    ((case pg_saved (db s) u k of
        None \<Rightarrow> r = Inl (Ports ErrIdempotencyKeyNotFound)
      | Some l \<Rightarrow> \<exists>a. r = Inr (at_address a l))
     \<or> (\<exists>e. r = Inl e \<and> other e))"
proof -
  obtain p s1 where p: "QueryRow pool c (select_key u k) s = (p, s1)" by fastforce
  note step = QueryRow_step [OF p]
  show ?thesis
  proof (cases "\<exists>e. p = Inl e \<and> other e")
    case True
    with assms(3) p step other_sharp(3) show ?thesis by (auto simp: pg_Get_def)
  next
    case answered: False
    show ?thesis
    proof (cases "db_keys (db s) (u, k)")
      case None
      with step answered have "p = Inl ErrNoRows" by (auto simp: select_key_def)
      with assms(3) p step None show ?thesis by (auto simp: pg_Get_def pg_saved_def)
    next
      case (Some ct)
      then obtain k' t where ct: "db_keys (db s) (u, k) = Some (k', t)" by (cases ct) auto
      obtain l where l: "pg_content (db s) k' = Some l" "pg_saved (db s) u k = Some l"
        by (rule pg_ok_key [OF assms(1) ct])
      from step answered ct have "p = Inr (TextRow k')" by (auto simp: select_key_def)
      with assms(3) p have f: "pg_FindByCode ul alloc pool c k' s1 = (r, s')" by (simp add: pg_Get_def)
      from step have "db s1 = db s" by simp
      with Find_result [OF _ assms(2) f] assms(1) l show ?thesis by simp
    qed
  qed
qed

definition key_written :: "(string \<Rightarrow> string) \<Rightarrow> string \<Rightarrow> string \<Rightarrow> link \<Rightarrow> 's \<Rightarrow> 's \<Rightarrow> bool" where
  "key_written ul u k l s s' \<longleftrightarrow>
     pg_saved (db s) u k = None \<and> pg_ok ul (db s') \<and> pg_content (db s') = pg_content (db s)
     \<and> pg_saved (db s') = (pg_saved (db s))(u := (pg_saved (db s) u)(k \<mapsto> pg_recorded (db s) l))"

lemma Save_result:
  assumes "pg_ok ul (db s)" "pg_Save pool c u k l s = (q, s')"
  shows "case q of
      None \<Rightarrow> key_written ul u k l s s'
        \<or> db s' = db s \<and> (\<exists>old. pg_saved (db s) u k = Some old \<and> code old = code l)
    | Some e \<Rightarrow>
        db s' = db s \<and> (errors_is e (Ports ErrIdempotencyKeyConflict) \<longrightarrow>
          (\<exists>old. pg_saved (db s) u k = Some old \<and> code old \<noteq> code l))
        \<or> other e \<and> key_written ul u k l s s'"
proof -
  let ?f = "insert_key u k (code l) (pg_time (createdAt l))"
  obtain p s1 where p: "Exec pool c ?f s = (p, s1)" by fastforce
  obtain x s2 where x: "QueryRow pool c (select_key u k) s1 = (x, s2)" by fastforce
  note step = Exec_step [OF p] and step2 = QueryRow_step [OF x]
  note q = assms(2) [unfolded pg_Save_def, unfolded p, simplified]
  show ?thesis
  proof (cases "db_keys (db s) (u, k)")
    case None
    show ?thesis
    proof (cases "pg_content (db s) (code l)")
      case None
      with \<open>db_keys (db s) (u, k) = None\<close> have f: "?f (db s) = (Inl (sql_error ''23503''), db s)"
        by (simp add: insert_key_def pg_content_None)
      then obtain e where e: "p = Inl e" "db s1 = db s" "e = sql_error ''23503'' \<or> other e"
        using step unfolding f by auto
      then have "\<not> errors_is e (Ports ErrIdempotencyKeyConflict)"
        using other_sharp(1) by (auto simp: sql_error_def)
      with q e show ?thesis by auto
    next
      case (Some y)
      then have "db_links (db s) (code l) \<noteq> None" by (auto simp: pg_content_def)
      with None have f: "?f (db s) = (Inr 1, put_key u k (code l) (pg_time (createdAt l)) (db s))"
        by (simp add: insert_key_def put_key_def)
      have w: "key_written ul u k l s s1" if "db s1 = put_key u k (code l) (pg_time (createdAt l)) (db s)"
        using put_key [OF assms(1) Some] None that by (simp add: key_written_def pg_saved_def)
      from step show ?thesis
        unfolding f using q w other_sharp(1) by auto
    qed
  next
    case (Some ct)
    then obtain c' t where ct: "db_keys (db s) (u, k) = Some (c', t)" by (cases ct) auto
    obtain old where old: "pg_saved (db s) u k = Some old" "code old = c'"
      by (rule pg_ok_key [OF assms(1) ct])
    from ct have f: "?f (db s) = (Inr 0, db s)" by (simp add: insert_key_def)
    then have p': "db s1 = db s" "p = Inr 0 \<or> (\<exists>e. p = Inl e \<and> other e)" using step unfolding f by auto
    have x': "db s2 = db s" "x = Inr (TextRow c') \<or> (\<exists>e. x = Inl e \<and> other e)"
      using step2 p'(1) ct by (auto simp: select_key_def)
    from p'(2) show ?thesis
    proof
      assume "p = Inr 0"
      with q x have "(q, s') = (case x of Inl e \<Rightarrow> (Some e, s2) | Inr (TextRow existingCode) \<Rightarrow>
          if existingCode \<noteq> code l then (Some (Ports ErrIdempotencyKeyConflict), s2) else (None, s2)
        | Inr _ \<Rightarrow> (Some (Foreign ''scan''), s2))"
        by (auto split: sum.splits row.splits)
      with x' old other_sharp(1) show ?thesis by (auto split: if_splits)
    next
      assume "\<exists>e. p = Inl e \<and> other e"
      with q p'(1) other_sharp(1) show ?thesis by auto
    qed
  qed
qed

lemma pg_store_contract:
  assumes alloc: "\<forall>s. db (snd (alloc s)) = db s"
  shows "idempotency_contract (pg_idempotency_store ul alloc pool) (\<lambda>s. pg_saved (db s)) (\<lambda>old l. code old = code l)
    (\<lambda>s. pg_recorded (db s)) (\<lambda>s. pg_ok ul (db s)) pg_keep other"
proof (unfold_locales, goal_cases)
  case (1 s c u k r s')
  then have "pg_Get ul alloc pool c u k s = (r, s')" by (simp add: pg_idempotency_store_def)
  from Get_result [OF 1(1) alloc this] show ?case by simp
next
  case (2 s c u k l s')
  then have "pg_Get ul alloc pool c u k s = (Inr l, s')" by (simp add: pg_idempotency_store_def)
  from Get_result [OF 2(1) alloc this] obtain l0 a where l0: "pg_saved (db s) u k = Some l0" "l = at_address a l0"
    by (auto split: option.splits)
  then obtain c t where "pg_content (db s) c = Some l0" by (auto simp: pg_saved_def split: option.splits)
  from pg_ok_link(1,5) [OF 2(1) this] show ?case unfolding l0(2) using l0(1) by simp
next
  case (3 s c u k e s')
  then have "pg_Get ul alloc pool c u k s = (Inl e, s')" by (simp add: pg_idempotency_store_def)
  from Get_result [OF 3(1) alloc this] 3(3) other_sharp(1) show ?case by (auto split: option.splits)
next
  case (4 s c u k l s')
  then show ?case
    using Save_result [of ul s c u k l None s'] by (auto simp: pg_idempotency_store_def key_written_def)
next
  case (5 s c u k l e s')
  then show ?case
    using Save_result [of ul s c u k l "Some e" s'] by (auto simp: pg_idempotency_store_def key_written_def)
next
  case (6 s c u k l e s')
  then show ?case
    using Save_result [of ul s c u k l "Some e" s'] other_sharp(1) by (auto simp: pg_idempotency_store_def)
qed

end

context postgres_pool
begin

text \<open>Reading does not write, whatever is in the tables.\<close>

lemma Find_db:
  assumes "\<forall>s. db (snd (alloc s)) = db s" "pg_FindByCode ul alloc pool c k s = (r, s')"
  shows "db s' = db s"
proof -
  obtain p s1 where p: "QueryRow pool c (select_link k) s = (p, s1)" by fastforce
  have "db (snd (alloc s1)) = db s1" using assms(1) by blast
  with p QueryRow_step [OF p] assms(2) show ?thesis
    by (auto simp: pg_FindByCode_def split: sum.splits row.splits prod.splits)
qed

lemma Get_db:
  assumes "\<forall>s. db (snd (alloc s)) = db s" "pg_Get ul alloc pool c u k s = (r, s')"
  shows "db s' = db s"
proof -
  obtain p s1 where p: "QueryRow pool c (select_key u k) s = (p, s1)" by fastforce
  with QueryRow_step [OF p] assms(2) Find_db [OF assms(1)] show ?thesis
    by (fastforce simp: pg_Get_def split: sum.splits row.splits)
qed

text \<open>A new link has no key.\<close>

lemma written_saved:
  assumes "pg_ok ul (db s)" "pg_content (db s) (code l) = None" "written ul l s s'"
  shows "pg_saved (db s') = pg_saved (db s)"
proof (intro ext)
  fix u k
  show "pg_saved (db s') u k = pg_saved (db s) u k"
  proof (cases "db_keys (db s) (u, k)")
    case None
    with assms(3) show ?thesis by (simp add: pg_saved_def written_def)
  next
    case (Some ct)
    then obtain c t where ct: "db_keys (db s) (u, k) = Some (c, t)" by (cases ct) auto
    obtain x where "pg_content (db s) c = Some x" by (rule pg_ok_key [OF assms(1) ct])
    with assms(2) have "c \<noteq> code l" by auto
    with ct assms(3) show ?thesis by (simp add: pg_saved_def written_def)
  qed
qed

lemma Save_db:
  assumes "pg_Save pool c u k l s = (q, s')" "pg_ok ul (db s)"
  shows "pg_ok ul (db s')"
  using Save_result [OF assms(2,1)] assms(2) by (auto simp: key_written_def split: option.splits)

end

section \<open>The two repositories\<close>

text \<open>The calls of a repository, and what they answer.\<close>

datatype repo_call = CallInsert link | CallFind string | CallUpdate link u64

datatype repo_answer = Done "err option" | Found "err + link"

fun run_call :: "('c, 's) link_repository \<Rightarrow> 'c \<Rightarrow> repo_call \<Rightarrow> 's \<Rightarrow> repo_answer \<times> 's" where
  "run_call repo c (CallInsert l) s = (case Insert repo c l s of (q, s') \<Rightarrow> (Done q, s'))"
| "run_call repo c (CallFind k) s = (case FindByCode repo c k s of (r, s') \<Rightarrow> (Found r, s'))"
| "run_call repo c (CallUpdate l ev) s = (case Update repo c l ev s of (q, s') \<Rightarrow> (Done q, s'))"

text \<open>The calls the use cases make: well-formed links of the clock's nanoseconds, whose destination is
  what its text is validated to, and updates that keep owner and creation time, as every mutation
  does.\<close>

fun call_ok :: "(string \<Rightarrow> string) \<Rightarrow> memory_repository \<Rightarrow> repo_call \<Rightarrow> bool" where
  "call_ok ul m (CallInsert l) \<longleftrightarrow> pg_fit ul l"
| "call_ok ul m (CallFind k) \<longleftrightarrow> True"
| "call_ok ul m (CallUpdate l ev) \<longleftrightarrow>
     pg_fit ul l \<and>
     (case links m (code l) of
        None \<Rightarrow> True
      | Some old \<Rightarrow> ownerID old = ownerID l \<and> createdAt old = pg_time (createdAt l))"

text \<open>The call in what a row keeps of its link.\<close>

fun kept_call :: "repo_call \<Rightarrow> repo_call" where
  "kept_call (CallInsert l) = CallInsert (pg_keep l)"
| "kept_call (CallFind k) = CallFind k"
| "kept_call (CallUpdate l ev) = CallUpdate (pg_keep l) ev"

text \<open>What a table has room for: versions of 63 bits, and an expiry in a later microsecond than the creation.\<close>

definition outlives :: "link \<Rightarrow> bool" where
  "outlives l \<longleftrightarrow> (\<forall>t. ExpiresAt l = Some t \<longrightarrow> pg_time (createdAt l) < pg_time t)"

fun has_room :: "repo_call \<Rightarrow> bool" where
  "has_room (CallInsert l) \<longleftrightarrow> uint (version l) < 2 ^ 63 \<and> outlives l"
| "has_room (CallFind k) \<longleftrightarrow> True"
| "has_room (CallUpdate l ev) \<longleftrightarrow> uint (version l) < 2 ^ 63 \<and> uint ev < 2 ^ 63 \<and> outlives l"

text \<open>Answers agree up to the address of an expiry; a call fails with an error of the context or the
  connection, and is refused with another error that is no answer of the port.\<close>

fun same_answer :: "repo_answer \<Rightarrow> repo_answer \<Rightarrow> bool" where
  "same_answer (Done q) (Done q0) \<longleftrightarrow> q = q0"
| "same_answer (Found r) (Found r0) \<longleftrightarrow> map_sum id (at_address 0) r = map_sum id (at_address 0) r0"
| "same_answer _ _ \<longleftrightarrow> False"

fun failed :: "repo_answer \<Rightarrow> bool" where
  "failed (Done q) \<longleftrightarrow> (\<exists>e. q = Some e \<and> transport e)"
| "failed (Found r) \<longleftrightarrow> (\<exists>e. r = Inl e \<and> transport e)"

fun refused :: "repo_answer \<Rightarrow> bool" where
  "refused (Done q) \<longleftrightarrow> (\<exists>e. q = Some e \<and> (\<forall>p. \<not> errors_is e (Ports p)))"
| "refused (Found r) \<longleftrightarrow> False"

text \<open>The statements carry a link as the row keeps it.\<close>

lemma pg_calls_keep:
  "pg_Insert pool c (pg_keep l) s = pg_Insert pool c l s"
  "pg_Update pool c (pg_keep l) ev s = pg_Update pool c l ev s"
  unfolding pg_Insert_def pg_Update_def pg_keep_simps option.map_comp comp_def pg_time_idem by (rule refl)+

lemma checks_row_fit: "link_ok l \<Longrightarrow> checks_ok (row_of l) \<longleftrightarrow> outlives l"
proof -
  assume l: "link_ok l"
  then have "status_String (status l) \<in> {''active'', ''disabled'', ''deleted''}"
    by (cases "status l") (auto simp: link_ok_def)
  moreover from l have "0 < uint (version l)"
    by (metis link_ok_def uint_0_iff uint_ge_0 order_le_less)
  ultimately show ?thesis by (auto simp: checks_ok_def row_of_def outlives_def split: option.split)
qed

lemma refused_insert:
  assumes "pg_fit ul l" "\<not> has_room (CallInsert l)" "pg_Insert server_pool c l s = (q, s')"
  shows "pg_db s' = pg_db s \<and> (\<exists>e. q = Some e \<and> (\<forall>p. \<not> errors_is e (Ports p)))"
proof (cases "uint (version l) < 2 ^ 63")
  case False
  with assms(3) show ?thesis by (auto simp: pg_Insert_def pg_bigint_def)
next
  case True
  with assms(1,2) have "\<not> checks_ok (row_of l)" using checks_row_fit by (simp add: pg_fit_def)
  then have f: "insert_link (code l) (row_of l) d = (Inl (sql_error ''23514''), d)" for d
    by (simp add: insert_link_def)
  obtain p s1 where p: "Exec server_pool c (insert_link (code l) (row_of l)) s = (p, s1)" by fastforce
  with pg.Exec_step [OF p] f obtain e where "pg_db s1 = pg_db s" "p = Inl e"
    "e = sql_error ''23514'' \<or> transport e"
    by auto
  moreover from this(3) have "\<not> isUniqueViolation e \<and> (\<forall>p. \<not> errors_is e (Ports p))"
    using transport_sharp by (auto simp: sql_error_def isUniqueViolation_def uniqueViolationCode_def)
  ultimately show ?thesis
    using assms(3) True p by (auto simp: pg_Insert_def pg_bigint_def row_of_def [symmetric])
qed

lemma refused_update:
  assumes "represents ul (pg_db s) m" "pg_fit ul l" "\<not> has_room (CallUpdate l ev)"
    "\<And>old. links m (code l) = Some old \<Longrightarrow> ownerID old = ownerID l \<and> createdAt old = pg_time (createdAt l)"
    "pg_Update server_pool c l ev s = (q, s')" "mem_Update None (pg_keep l) ev m = (q0, m')"
  shows "pg_db s' = pg_db s \<and> (q = q0 \<and> m' = m \<or> (\<exists>e. q = Some e \<and> (\<forall>p. \<not> errors_is e (Ports p))))"
proof (cases "uint (version l) < 2 ^ 63 \<and> uint ev < 2 ^ 63")
  case False
  with assms(5) show ?thesis by (auto simp: pg_Update_def pg_bigint_def split: if_splits)
next
  case True
  let ?f = "update_link (dest_String (destination l)) (status_String (status l)) (pg_time (updatedAt l))
    (map_option pg_time (ExpiresAt l)) (uint (version l)) (code l) (uint ev)"
  have nok: "\<not> checks_ok (row_of l)"
    using assms(2,3) True checks_row_fit by (simp add: pg_fit_def)
  have f: "?f (pg_db s) = ((case links m (code l) of
      Some old \<Rightarrow> if version old = ev then Inl (sql_error ''23514'') else Inr 0 | None \<Rightarrow> Inr 0), pg_db s)"
  proof (cases "links m (code l)")
    case None
    then show ?thesis using pg.links_step_pg(1) [OF assms(1)] by (simp add: update_link_def)
  next
    case (Some old)
    then have "(row_of old)\<lparr>row_destination_url := dest_String (destination l), row_status := status_String (status l),
        row_updated_at := pg_time (updatedAt l), row_expires_at := map_option pg_time (ExpiresAt l),
        row_version := uint (version l)\<rparr> = row_of l"
      using assms(4) by (simp add: row_of_def)
    then show ?thesis
      using Some nok pg.links_step_pg(1) [OF assms(1), of "code l"]
      by (simp add: update_link_def) (simp add: row_of_def word_uint_eq_iff)
  qed
  obtain p s1 where p: "Exec server_pool c ?f s = (p, s1)" by fastforce
  obtain x s2 where x: "linkExists server_pool c (code l) s1 = (x, s2)" by fastforce
  have b: "pg_bigint (version l) = Inr (uint (version l))" "pg_bigint ev = Inr (uint ev)"
    using True by (simp_all add: pg_bigint_def)
  note q = assms(5) [unfolded pg_Update_def b, simplified, unfolded p, simplified]
  have s1: "pg_db s1 = pg_db s" "p = fst (?f (pg_db s)) \<or> (\<exists>e. p = Inl e \<and> transport e)"
    using pg.Exec_step [OF p] f by auto
  have s2: "pg_db s2 = pg_db s1"
    "x = Inr (links m (code l) \<noteq> None) \<or> (\<exists>e. x = Inl e \<and> transport e)"
    using x pg.QueryRow_step [of c "\<lambda>d. Some (BoolRow (db_links d (code l) \<noteq> None))" s1]
      pg.links_step_pg(1) [OF assms(1)] s1(1)
    by (auto simp: linkExists_def split: prod.splits sum.splits row.splits)
  show ?thesis
  proof (cases p)
    case (Inl e)
    then have "\<forall>p. \<not> errors_is e (Ports p)"
      using s1(2) f transport_sharp by (auto simp: sql_error_def split: option.splits if_splits)
    with q Inl s1(1) show ?thesis by auto
  next
    case (Inr n)
    with s1(2) f have n: "n = 0" "\<forall>old. links m (code l) = Some old \<longrightarrow> version old \<noteq> ev"
      by (auto split: option.splits if_splits)
    then have "q0 = Some (if links m (code l) = None then Ports ErrLinkNotFound else Ports ErrVersionConflict)" "m' = m"
      using assms(6) by (auto simp: mem_Update_def split: option.splits if_splits)
    with q Inr n(1) x s1(1) s2 transport_sharp show ?thesis by (auto split: if_splits)
  qed
qed


text \<open>A link of nanoseconds: its creation is stored in whole microseconds.  At a version beyond 63 bits the
  update is refused.\<close>

definition sample_new :: link where
  "sample_new = stored_sample\<lparr>createdAt := 1500, updatedAt := 2700, expiresAt := Some (TimeRef 7 5800)\<rparr>"


end
