(* ===== verification/PgWorld.thy ===== *)
theory PgWorld
  imports PostgresLinks World
begin

text \<open>
  The program as \<^verbatim>\<open>cmd/linkd/main.go\<close> wires it over PostgreSQL: the state of \<open>World\<close> for everything
  but the links and the keys, which are in the tables of a server; and the contracts on it.
\<close>

section \<open>The state\<close>

record pg_world =
  pw_server :: pg_server
  pw_world :: world

definition put_server :: "pg_server \<Rightarrow> pg_world \<Rightarrow> pg_world" where
  "put_server x w = w\<lparr>pw_server := x\<rparr>"

definition put_world :: "world \<Rightarrow> pg_world \<Rightarrow> pg_world" where
  "put_world x w = w\<lparr>pw_world := x\<rparr>"

lemma put_pg_simps [simp]:
  "pw_server (put_server x w) = x" "pw_world (put_server x w) = pw_world w"
  "pw_server (put_world y w) = pw_server w" "pw_world (put_world y w) = y"
  by (simp_all add: put_server_def put_world_def)

definition pw_pool :: "(ctx, pg_world) pg_pool" where
  "pw_pool =
     \<lparr>Exec = (\<lambda>c f. lift pw_server put_server (pg_call c f)),
      QueryRow = (\<lambda>c g. lift pw_server put_server (pg_QueryRow c g))\<rparr>"

definition pw_Now :: "pg_world clock" where
  "pw_Now = lift pw_world put_world world_Now"

definition pw_alloc :: "pg_world allocator" where
  "pw_alloc = lift pw_world put_world world_alloc"

definition pw_Generate :: "(ctx, pg_world) code_generator" where
  "pw_Generate c = lift pw_world put_world (world_Generate c)"

definition pw_client :: "(ctx, redis_data, pg_world) redis_client" where
  "pw_client =
     \<lparr>HGetAll = (\<lambda>c k. lift pw_world put_world (HGetAll world_client c k)),
      RunScript = (\<lambda>c f. lift pw_world put_world (RunScript world_client c f))\<rparr>"

definition pw_cache :: "(string \<Rightarrow> string) \<Rightarrow> (ctx, pg_world) redirect_cache" where
  "pw_cache ul = RedisCache ul server_commands pw_client"

lemma pw_cache_lift:
  "CacheGet (pw_cache ul) c k = lift pw_world put_world (CacheGet (world_cache ul) c k)"
  "PutIfNewer (pw_cache ul) c m ttl = lift pw_world put_world (PutIfNewer (world_cache ul) c m ttl)"
proof -
  have [simp]: "put_world (pw_world w) w = w" for w by (simp add: put_world_def)
  show "CacheGet (pw_cache ul) c k = lift pw_world put_world (CacheGet (world_cache ul) c k)"
    by (rule ext)
      (simp add: pw_cache_def world_cache_def RedisCache_def RedisCache_Get_def pw_client_def lift_def Let_def
        split: prod.split sum.split)
  show "PutIfNewer (pw_cache ul) c m ttl = lift pw_world put_world (PutIfNewer (world_cache ul) c m ttl)"
    by (rule ext)
      (simp add: pw_cache_def world_cache_def RedisCache_def RedisCache_PutIfNewer_def pw_client_def lift_def
        Let_def split: prod.split sum.split)
qed

definition pw_metrics :: "pg_world RedirectCacheMetrics" where
  "pw_metrics =
     \<lparr>RecordCacheGet = (\<lambda>n d w. put_world (RecordCacheGet world_metrics n d (pw_world w)) w),
      RecordSourceLookup = (\<lambda>n d w. put_world (RecordSourceLookup world_metrics n d (pw_world w)) w),
      RecordCachePut = (\<lambda>n d w. put_world (RecordCachePut world_metrics n d (pw_world w)) w)\<rparr>"

definition pw_repo :: "(string \<Rightarrow> string) \<Rightarrow> (ctx, pg_world) link_repository" where
  "pw_repo ul = pg_repository ul pw_alloc pw_pool"

definition pw_store :: "(string \<Rightarrow> string) \<Rightarrow> (ctx, pg_world) idempotency_store" where
  "pw_store ul = pg_idempotency_store ul pw_alloc pw_pool"

definition pw_refresher ::
    "(string \<Rightarrow> string) \<Rightarrow> RedirectCacheConfig \<Rightarrow> (ctx, pg_world) RedirectCacheRefresher" where
  "pw_refresher ul config =
     \<lparr>f_cache = pw_cache ul, f_clock = pw_Now, f_operationTimeout = OperationTimeout config,
      f_activeTTL = ActiveTTL config, f_inactiveTTL = InactiveTTL config\<rparr>"

definition pw_resolver ::
    "(string \<Rightarrow> string) \<Rightarrow> RedirectCacheConfig \<Rightarrow> (ctx, pg_world) CacheAsideResolver" where
  "pw_resolver ul config =
     \<lparr>r_cache = pw_cache ul, r_source = RepositoryResolver_Resolve (pw_repo ul), r_clock = pw_Now,
      r_operationTimeout = OperationTimeout config, r_activeTTL = ActiveTTL config,
      r_inactiveTTL = InactiveTTL config, r_metrics = Some pw_metrics\<rparr>"

section \<open>What the state holds\<close>

definition pw_stored :: "pg_world \<Rightarrow> string \<Rightarrow> link option" where
  "pw_stored w = pg_content (pg_db (pw_server w))"

definition pw_saved :: "pg_world \<Rightarrow> string \<Rightarrow> string \<Rightarrow> link option" where
  "pw_saved w = pg_saved (pg_db (pw_server w))"

definition pw_recorded :: "pg_world \<Rightarrow> link \<Rightarrow> link" where
  "pw_recorded w = pg_recorded (pg_db (pw_server w))"

definition same_code :: "link \<Rightarrow> link \<Rightarrow> bool" where
  "same_code old l \<longleftrightarrow> code old = code l"

definition pw_cached :: "(string \<Rightarrow> string) \<Rightarrow> pg_world \<Rightarrow> string \<Rightarrow> redirect_mapping option" where
  "pw_cached ul w = cached_for ul (pw_world w)"

text \<open>No reading of the clock is within the first microsecond of the calendar.\<close>

definition clock_ok :: "pg_world \<Rightarrow> bool" where
  "clock_ok w \<longleftrightarrow> (\<forall>n. 1000 \<le> w_clock (pw_world w) n)"

definition pw_inv :: "(string \<Rightarrow> string) \<Rightarrow> pg_world \<Rightarrow> bool" where
  "pw_inv ul w \<longleftrightarrow> pg_ok ul (pg_db (pw_server w)) \<and> clock_ok w"

interpretation pw: postgres_pool pw_pool "\<lambda>w. pg_db (pw_server w)" transport
proof (unfold_locales, goal_cases)
  case (4 c f w q w')
  then have "Exec server_pool c f (pw_server w) = (q, pw_server w')"
    by (auto simp: pw_pool_def server_pool_def lift_iff)
  then show ?case by (rule pg.Exec_step)
next
  case (5 c g w r w')
  then have "QueryRow server_pool c g (pw_server w) = (r, pw_server w')"
    by (auto simp: pw_pool_def server_pool_def lift_iff)
  then show ?case by (rule pg.QueryRow_step)
qed (use transport_sharp in blast)+

section \<open>Each port touches its own part\<close>

lemma pool_frame:
  "Exec pw_pool c f w = (q, w') \<Longrightarrow> pw_world w' = pw_world w"
  "QueryRow pw_pool c g w = (r, w') \<Longrightarrow> pw_world w' = pw_world w"
  by (auto simp: pw_pool_def lift_iff)

lemma alloc_server: "pw_server (snd (pw_alloc w)) = pw_server w"
  by (simp add: pw_alloc_def lift_def split: prod.split)

text \<open>What a call of the tables leaves of the rest.\<close>

definition rest :: "pg_world \<Rightarrow> world" where
  "rest w = (pw_world w)\<lparr>w_heap := 0\<rparr>"

lemma rest_eq: "pw_world w' = pw_world w \<Longrightarrow> rest w' = rest w"
  by (simp add: rest_def)

lemma alloc_rest: "pw_alloc w = (a, w') \<Longrightarrow> rest w' = rest w"
  by (auto simp: rest_def pw_alloc_def lift_iff world_alloc_def)

lemma rest_clock: "rest w' = rest w \<Longrightarrow> w_clock (pw_world w') = w_clock (pw_world w)"
proof -
  assume "rest w' = rest w"
  then have "w_clock (rest w') = w_clock (rest w)" by simp
  then show ?thesis by (simp add: rest_def)
qed

lemma rest_cached: "rest w' = rest w \<Longrightarrow> pw_cached ul w' = pw_cached ul w"
proof -
  assume "rest w' = rest w"
  then have "w_redis (rest w') = w_redis (rest w)" by simp
  then show ?thesis by (simp add: rest_def pw_cached_def cached_for_eq)
qed

lemma Insert_rest: "Insert (pw_repo ul) c l w = (q, w') \<Longrightarrow> rest w' = rest w"
  by (auto simp: pw_repo_def pg_repository_def pg_Insert_def dest!: pool_frame(1) rest_eq
      split: prod.splits sum.splits)

lemma Find_rest: "FindByCode (pw_repo ul) c k w = (r, w') \<Longrightarrow> rest w' = rest w"
  by (auto simp: pw_repo_def pg_repository_def pg_FindByCode_def dest!: pool_frame(2) rest_eq alloc_rest
      split: prod.splits sum.splits row.splits option.splits if_splits)

lemma Update_rest: "Update (pw_repo ul) c l v w = (q, w') \<Longrightarrow> rest w' = rest w"
  by (auto simp: pw_repo_def pg_repository_def pg_Update_def linkExists_def
      dest!: pool_frame rest_eq split: prod.splits sum.splits row.splits if_splits)

lemma IdemGet_rest: "IdemGet (pw_store ul) c u k w = (r, w') \<Longrightarrow> rest w' = rest w"
  using Find_rest [of ul c]
  by (fastforce simp: pw_store_def pw_repo_def pg_repository_def pg_idempotency_store_def pg_Get_def
      dest!: pool_frame(2) rest_eq split: prod.splits sum.splits row.splits if_splits)

lemma IdemSave_rest: "IdemSave (pw_store ul) c u k l w = (q, w') \<Longrightarrow> rest w' = rest w"
  by (auto simp: pw_store_def pg_idempotency_store_def pg_Save_def
      dest!: pool_frame rest_eq split: prod.splits sum.splits row.splits if_splits)

section \<open>The contracts on this state\<close>

lemma pw_alloc_frame: "\<forall>w. pg_db (pw_server (snd (pw_alloc w))) = pg_db (pw_server w)"
  by (simp add: alloc_server)

lemma clock_ok_rest: "rest w' = rest w \<Longrightarrow> clock_ok w \<Longrightarrow> clock_ok w'"
  by (auto simp: clock_ok_def dest: rest_clock)

lemma pw_repo_contract:
  "repository_contract (pw_repo ul) pw_stored pg_keep (pw_inv ul) transport (pg_fit ul)"
proof -
  have "repository_contract (pw_repo ul) (\<lambda>w. pg_content (pg_db (pw_server w))) pg_keep
      (\<lambda>w. pg_ok ul (pg_db (pw_server w)) \<and> clock_ok w) transport (pg_fit ul)"
    by (rule repository_contract.with_kept
        [OF pw.pg_repository_contract [OF pw_alloc_frame, of ul, folded pw_repo_def]])
      (erule clock_ok_rest [OF Insert_rest] clock_ok_rest [OF Find_rest] clock_ok_rest [OF Update_rest],
        assumption)+
  then show ?thesis by (simp add: pw_stored_def [abs_def] pw_inv_def [abs_def])
qed

lemma pw_store_contract:
  "idempotency_contract (pw_store ul) pw_saved same_code pw_recorded (pw_inv ul) pg_keep transport"
proof -
  note c = pw.pg_store_contract [OF pw_alloc_frame, of ul]
  have "idempotency_contract (pw_store ul) pw_saved same_code pw_recorded
      (\<lambda>w. pg_ok ul (pg_db (pw_server w))) pg_keep transport"
    using c by (simp add: pw_store_def pw_saved_def [abs_def] pw_recorded_def [abs_def] same_code_def [abs_def])
  then show ?thesis by (rule idempotency_contract.restricted) (simp add: pw_inv_def)
qed

text \<open>The other ports leave the tables, and move the clock only forward.\<close>

lemma pw_Now_frame:
  assumes "pw_Now w = (t, w')"
  shows "pw_stored w' = pw_stored w" "pw_saved w' = pw_saved w" "pw_inv ul w' = pw_inv ul w"
    "pw_cached ul w' = pw_cached ul w" "pw_inv ul w \<Longrightarrow> 1000 \<le> t"
  using assms
  by (auto simp: pw_Now_def lift_iff world_Now_def pw_stored_def pw_saved_def pw_inv_def clock_ok_def
      pw_cached_def cached_for_eq)

lemma pw_alloc_frames:
  assumes "pw_alloc w = (a, w')"
  shows "pw_stored w' = pw_stored w" "pw_saved w' = pw_saved w" "pw_inv ul w' = pw_inv ul w"
    "pw_cached ul w' = pw_cached ul w"
  using assms
  by (auto simp: pw_alloc_def lift_iff world_alloc_def pw_stored_def pw_saved_def pw_inv_def clock_ok_def
      pw_cached_def cached_for_eq)

lemma pw_Generate_frame:
  assumes "pw_Generate c w = (r, w')"
  shows "pw_stored w' = pw_stored w" "pw_saved w' = pw_saved w" "pw_inv ul w' = pw_inv ul w"
    "pw_cached ul w' = pw_cached ul w"
  using assms
  by (auto simp: pw_Generate_def lift_iff world_Generate_def pw_stored_def pw_saved_def pw_inv_def
      clock_ok_def pw_cached_def cached_for_eq split: prod.splits)

lemma world_cache_clock:
  "CacheGet (world_cache ul) c k w = (g, w') \<Longrightarrow> w_clock w' = w_clock w"
  "PutIfNewer (world_cache ul) c m ttl w = (q, w') \<Longrightarrow> w_clock w' = w_clock w"
  by (auto simp: world_cache_def RedisCache_def RedisCache_Get_def RedisCache_PutIfNewer_def put_redis_def
      world_client_def Let_def lift_iff split: prod.splits sum.splits if_splits)

lemma pw_cache_frame:
  "CacheGet (pw_cache ul) c k w = (g, w') \<Longrightarrow> pw_stored w' = pw_stored w \<and> (pw_inv ul' w \<longrightarrow> pw_inv ul' w')"
  "PutIfNewer (pw_cache ul) c m ttl w = (q, w') \<Longrightarrow> pw_stored w' = pw_stored w \<and> (pw_inv ul' w \<longrightarrow> pw_inv ul' w')"
  by (auto simp: pw_cache_lift lift_iff pw_stored_def pw_inv_def clock_ok_def dest: world_cache_clock)

lemma pw_cache_contract: "redirect_cache_contract (pw_cache ul) (pw_cached ul) (as_read ul)"
proof -
  note c = world_cache_contract [of ul]
  have g: "CacheGet (pw_cache ul) c k w = (r, w') \<Longrightarrow> CacheGet (world_cache ul) c k (pw_world w) = (r, pw_world w')"
    and p: "PutIfNewer (pw_cache ul) c m ttl w = (q, w') \<Longrightarrow>
        PutIfNewer (world_cache ul) c m ttl (pw_world w) = (q, pw_world w')" for c k w r w' m ttl q
    by (auto simp: pw_cache_lift lift_iff)
  show ?thesis
  proof (unfold_locales, goal_cases)
    case (1 x k w m w')
    from redirect_cache_contract.CacheGet_ok [OF c g [OF 1]] show ?case by (simp add: pw_cached_def)
  next
    case (2 x k w r w' k')
    from redirect_cache_contract.CacheGet_frame [OF c g [OF 2]] show ?case by (simp add: pw_cached_def)
  next
    case (3 m x ttl w q w' k')
    from redirect_cache_contract.Put_frame [OF c 3(1) p [OF 3(2)]] show ?case by (simp add: pw_cached_def)
  next
    case (4 m m')
    from redirect_cache_contract.dec_version [OF c 4] show ?case .
  qed
qed

text \<open>The cache keeps the milliseconds of an expiry, so it does not see what a row drops.\<close>

lemma toUnixMilli_pg_time [simp]: "toUnixMilli (pg_time t) = toUnixMilli t"
proof -
  have ms: "x div Millisecond = x div 1000 div 1000" for x
    using zdiv_zmult2_eq [of 1000 x 1000] by (simp add: Millisecond_eq)
  define e where "e = unixEpoch div 1000"
  have e: "unixEpoch = e * 1000" by (simp add: e_def unixEpoch_def Second_def Millisecond_eq)
  have "(pg_time t - unixEpoch) div 1000 = (t - unixEpoch) div 1000"
    using div_mult_self2 [of 1000 "t - t mod 1000" "- e"] div_mult_self2 [of 1000 t "- e"]
    by (simp add: e pg_time_def minus_mod_eq_mult_div mult.commute)
  then show ?thesis by (simp only: toUnixMilli_def ms)
qed

lemma as_read_pg_keep: "as_read ul (mapping_of (pg_keep l)) = as_read ul (mapping_of l)"
proof -
  have "encode_expiresAt (map_option pg_time t) = encode_expiresAt t" for t
    by (simp add: encode_expiresAt_def split: option.split)
  then show ?thesis by (simp add: as_read_def mapping_of_def encoded_def)
qed

lemma pw_metrics_frame:
  "pw_stored (RecordCacheGet pw_metrics n d w) = pw_stored w"
  "pw_stored (RecordSourceLookup pw_metrics n d w) = pw_stored w"
  "pw_stored (RecordCachePut pw_metrics n d w) = pw_stored w"
  "pw_cached ul (RecordCacheGet pw_metrics n d w) = pw_cached ul w"
  "pw_cached ul (RecordSourceLookup pw_metrics n d w) = pw_cached ul w"
  "pw_cached ul (RecordCachePut pw_metrics n d w) = pw_cached ul w"
  "pw_inv ul w \<Longrightarrow> pw_inv ul (RecordCacheGet pw_metrics n d w)"
  "pw_inv ul w \<Longrightarrow> pw_inv ul (RecordSourceLookup pw_metrics n d w)"
  "pw_inv ul w \<Longrightarrow> pw_inv ul (RecordCachePut pw_metrics n d w)"
  by (simp_all add: pw_metrics_def world_metrics_def pw_stored_def pw_cached_def cached_for_eq pw_inv_def
      clock_ok_def)

lemma pw_Now_cached:
  "pw_Now w = (t, w') \<Longrightarrow> pw_stored w' = pw_stored w \<and> (pw_inv ul w \<longrightarrow> pw_inv ul w')
     \<and> (\<forall>k. pw_cached ul w' k = pw_cached ul w k \<or> pw_cached ul w' k = None)"
  by (simp add: pw_Now_frame)

interpretation pw_cached: refreshed_links "pw_repo ul" pw_stored pg_keep "pw_inv ul" transport "pg_fit ul"
    "pw_cache ul" "pw_cached ul" "as_read ul" pw_Now pw_Now world_timeout pw_metrics
    pw_alloc "pw_refresher ul config" for ul config
proof -
  have c: "cached_links (pw_repo ul) pw_stored pg_keep (pw_inv ul) transport (pg_fit ul) (pw_cache ul) (pw_cached ul)
      (as_read ul) pw_Now pw_Now pw_metrics"
    by (intro cached_links.intro cached_links_axioms.intro pw_repo_contract pw_cache_contract as_read_pg_keep
        pw_metrics_frame)
      (erule pw_cache_frame pw_Now_cached Insert_rest [THEN rest_cached] Find_rest [THEN rest_cached]
        Update_rest [THEN rest_cached] pw_metrics_frame)+
  show "refreshed_links (pw_repo ul) pw_stored pg_keep (pw_inv ul) transport (pg_fit ul) (pw_cache ul)
      (pw_cached ul) (as_read ul) pw_Now pw_Now pw_metrics pw_alloc (pw_refresher ul config)"
    by (intro refreshed_links.intro c refreshed_links_axioms.intro)
      (simp_all add: pw_alloc_frames cached_links.wired_refresher_def [OF c] pw_refresher_def)
qed

section \<open>The two wirings\<close>

definition pw_main_repo ::
    "(string \<Rightarrow> string) \<Rightarrow> RedirectCacheConfig option \<Rightarrow> (ctx, pg_world) link_repository" where
  "pw_main_repo ul cache =
     (case cache of None \<Rightarrow> pw_repo ul
      | Some config \<Rightarrow> CacheRefreshingRepository (pw_repo ul) (Refresh world_timeout (pw_refresher ul config)))"

definition pw_main_resolver ::
    "(string \<Rightarrow> string) \<Rightarrow> RedirectCacheConfig option \<Rightarrow> (ctx, pg_world) link_resolver" where
  "pw_main_resolver ul cache =
     (case cache of
        None \<Rightarrow> RepositoryResolver_Resolve (pw_repo ul)
      | Some config \<Rightarrow> CacheAside_Resolve world_timeout pw_Now (pw_resolver ul config))"

lemma pw_main_repo_simps [simp]:
  "Insert (pw_main_repo ul cache) = Insert (pw_repo ul)"
  "FindByCode (pw_main_repo ul cache) = FindByCode (pw_repo ul)"
  by (simp_all add: pw_main_repo_def CacheRefreshingRepository_def split: option.split)

lemma pw_resolver_wired: "pw_cached.wired ul (pw_resolver ul config)"
  by (simp add: pw_cached.wired_def pw_resolver_def)

interpretation pw_managed: managed_links "pw_main_repo ul cache" pw_stored pg_keep "pw_inv ul" transport
    "pg_fit ul" pw_Now pw_alloc for ul cache
proof (cases cache)
  case None
  have "managed_links (pw_repo ul) pw_stored pg_keep (pw_inv ul) transport (pg_fit ul) pw_Now pw_alloc"
    by (intro managed_links.intro managed_links_axioms.intro pw_repo_contract)
      (simp_all add: pw_Now_frame pw_alloc_frames)
  with None show "managed_links (pw_main_repo ul cache) pw_stored pg_keep (pw_inv ul) transport (pg_fit ul)
      pw_Now pw_alloc"
    by (simp add: pw_main_repo_def)
next
  case (Some config)
  with pw_cached.refreshed.managed_links_axioms [of ul config]
  show "managed_links (pw_main_repo ul cache) pw_stored pg_keep (pw_inv ul) transport (pg_fit ul) pw_Now pw_alloc"
    by (simp add: pw_main_repo_def)
qed

lemma pw_Insert_saved:
  assumes "pw_inv ul w" "pg_fit ul l" "Insert (pw_repo ul) c l w = (q, w')"
  shows "pw_saved w' = pw_saved w"
proof -
  have ok: "pg_ok ul (pg_db (pw_server w))" using assms(1) by (simp add: pw_inv_def)
  have "pg_Insert pw_pool c l w = (q, w')" using assms(3) by (simp add: pw_repo_def pg_repository_def)
  from pw.Insert_result [OF ok assms(2) this] pw.written_saved [OF ok, of l w'] show ?thesis
    by (auto simp: pw_saved_def split: option.splits)
qed

lemma pw_Get_content:
  assumes "IdemGet (pw_store ul) c u k w = (r, w')"
  shows "pw_stored w' = pw_stored w \<and> (pw_inv ul' w \<longrightarrow> pw_inv ul' w')"
proof -
  have "pg_Get ul pw_alloc pw_pool c u k w = (r, w')"
    using assms by (simp add: pw_store_def pg_idempotency_store_def)
  from pw.Get_db [OF pw_alloc_frame this] clock_ok_rest [OF IdemGet_rest [OF assms]] show ?thesis
    by (simp add: pw_stored_def pw_inv_def)
qed

lemma pw_Save_content:
  assumes "IdemSave (pw_store ul) c u k l w = (q, w')"
  shows "pw_stored w' = pw_stored w \<and> (pw_inv ul' w \<longrightarrow> pw_inv ul' w')"
proof -
  have s: "pg_Save pw_pool c u k l w = (q, w')"
    using assms by (simp add: pw_store_def pg_idempotency_store_def)
  from pw.Save_keeps_keys [OF s] have "pw_stored w' = pw_stored w"
    by (simp add: pw_stored_def pg_content_def fun_eq_iff)
  with pw.Save_db [OF s] clock_ok_rest [OF IdemSave_rest [OF assms]] show ?thesis
    by (simp add: pw_inv_def)
qed

lemma pw_fit_new:
  "pw_inv ul w \<Longrightarrow> pw_Now w = (t, w') \<Longrightarrow> link_ok l \<Longrightarrow> createdAt l = t \<Longrightarrow> stable_dest ul (destination l) \<Longrightarrow>
     pg_fit ul l"
  using pw_Now_frame(5) by (simp add: pg_fit_def)

interpretation pw_create: create_links "pw_main_repo ul cache" pw_stored pg_keep "pw_inv ul" transport
    "pg_fit ul" pw_Now pw_alloc "pw_store ul" pw_saved same_code pw_recorded pw_Generate "stable_dest ul"
    for ul cache
  by (intro create_links.intro create_links_axioms.intro pw_managed.managed_links_axioms pw_store_contract
      pw_Get_content pw_Save_content)
    (simp_all add: pw_Now_frame pw_alloc_frames pw_Generate_frame pw_Insert_saved pw_fit_new)

end
