(* ===== verification/PgService.thy ===== *)
theory PgService
  imports PgWorld Service
begin

text \<open>
  Sequences of requests to the use cases over PostgreSQL, with the Redis cache and without: what
  \<open>Service\<close> shows over memory storage, up to what the rows keep of a link, and with calls whose outcome
  the program does not learn; and that a saved key keeps its code whatever requests follow.
\<close>

section \<open>Requests\<close>

fun pg_serve ::
    "(string \<Rightarrow> string) \<Rightarrow> RedirectCacheConfig option \<Rightarrow> request \<Rightarrow> pg_world \<Rightarrow> response \<times> pg_world" where
  "pg_serve ul cache (ReqCreate c q) w =
     (case CreateGeneratedLink ul (pw_main_repo ul cache) pw_Generate pw_Now pw_alloc
             (Some (pw_store ul)) c q w of (r, w') \<Rightarrow> (LinkResponse r, w'))"
| "pg_serve ul cache (ReqGet c q) w =
     (case GetManagedLink (pw_main_repo ul cache) c q w of (r, w') \<Rightarrow> (LinkResponse r, w'))"
| "pg_serve ul cache (ReqStatus c q) w =
     (case ChangeLinkStatus (pw_main_repo ul cache) pw_Now c q w of (r, w') \<Rightarrow> (LinkResponse r, w'))"
| "pg_serve ul cache (ReqDestination c q) w =
     (case ChangeLinkDestination ul (pw_main_repo ul cache) pw_Now c q w of
        (r, w') \<Rightarrow> (LinkResponse r, w'))"
| "pg_serve ul cache (ReqExpiration c q) w =
     (case ChangeLinkExpiration (pw_main_repo ul cache) pw_Now pw_alloc c q w of
        (r, w') \<Rightarrow> (LinkResponse r, w'))"
| "pg_serve ul cache (ReqRedirect c k) w =
     (case RedirectLink (pw_main_resolver ul cache) pw_Now c k w of
        (r, w') \<Rightarrow> (RedirectResponse r, w'))"

fun pg_serve_all ::
    "(string \<Rightarrow> string) \<Rightarrow> RedirectCacheConfig option \<Rightarrow> request list \<Rightarrow> pg_world
     \<Rightarrow> response list \<times> pg_world" where
  "pg_serve_all ul cache [] w = ([], w)"
| "pg_serve_all ul cache (q # qs) w =
     (case pg_serve ul cache q w of (r, w1) \<Rightarrow>
        (case pg_serve_all ul cache qs w1 of (rs, w2) \<Rightarrow> (r # rs, w2)))"

text \<open>The destinations whose text is validated to themselves.\<close>

definition stable_raw :: "(string \<Rightarrow> string) \<Rightarrow> string \<Rightarrow> bool" where
  "stable_raw ul raw = (case NewDestinationURL ul raw of Inl _ \<Rightarrow> True | Inr d \<Rightarrow> stable_dest ul d)"

fun pg_request :: "(string \<Rightarrow> string) \<Rightarrow> request \<Rightarrow> bool" where
  "pg_request ul (ReqCreate c q) = stable_raw ul (c_Destination q)"
| "pg_request ul (ReqDestination c q) = (stable_raw ul (d_Destination q) \<and> d_ExpectedVersion q \<noteq> - 1)"
| "pg_request ul q = below_last_version q"

lemma fit_stable:
  "stable_raw ul raw \<Longrightarrow> pw_managed.fit_raw ul ul raw"
  "stable_raw ul raw \<Longrightarrow> pw_create.good_raw ul ul raw"
  by (auto simp: stable_raw_def pw_managed.fit_raw_def pw_managed.fit_dest_def pw_create.good_raw_def pg_fit_def)

section \<open>What one request does to the links\<close>

text \<open>A mutation of a link, as the rows before and after it show it.\<close>

definition pg_link_step :: "link \<Rightarrow> link \<Rightarrow> bool" where
  "pg_link_step l l' \<longleftrightarrow> (\<exists>l0 x l1. l = pg_keep l0 \<and> apply_op x l0 = (None, l1) \<and> l' = pg_keep l1)"

definition pg_links_step :: "(string \<Rightarrow> link option) \<Rightarrow> (string \<Rightarrow> link option) \<Rightarrow> bool" where
  "pg_links_step f g \<longleftrightarrow>
     f = g
     \<or> (\<exists>l. version l = 1 \<and> f (code l) = None \<and> g = f(code l \<mapsto> l))
     \<or> (\<exists>k l l'. f k = Some l \<and> pg_link_step l l' \<and> g = f(k \<mapsto> l'))"

text \<open>What a change may have done, given its result.\<close>

definition pg_changed ::
    "string \<Rightarrow> string \<Rightarrow> u64 \<Rightarrow> pg_world \<Rightarrow> err + link \<Rightarrow> pg_world \<Rightarrow> bool" where
  "pg_changed k u v w r w' \<longleftrightarrow>
     (\<exists>l x l'. pw_stored w k = Some (pg_keep l) \<and> ownerID l = u \<and> version l = v \<and>
        apply_op x l = (None, l') \<and> pw_stored w' = (pw_stored w)(k \<mapsto> pg_keep l') \<and>
        (case r of Inr l'' \<Rightarrow> l'' = l' | Inl e \<Rightarrow> transport e))"

lemma pg_guarded_change:
  assumes "guarded_change (pw_main_repo ul cache) c k u v m w = (r, w')" "pw_inv ul w"
    "pw_managed.change_sound ul m" "v \<noteq> - 1"
  shows "pw_inv ul w' \<and>
    (isl r \<and> pw_stored w' = pw_stored w \<or> pg_changed (TrimSpace k) (TrimSpace u) v w r w')"
proof (cases r)
  case (Inl e)
  with pw_managed.guarded_change_err [OF _ assms(2-4)] assms(1) show ?thesis
    unfolding pg_changed_def by fastforce
next
  case (Inr l')
  with assms(1) have g: "guarded_change (pw_main_repo ul cache) c k u v m w = (Inr l', w')" by simp
  obtain l x where "pw_stored w (TrimSpace k) = Some (pg_keep l)" "apply_op x l = (None, l')"
    "ownerID l = TrimSpace u" "version l = v"
    "pw_stored w' = (pw_stored w)(TrimSpace k \<mapsto> pg_keep l')" "pw_inv ul w'"
    using pw_managed.guarded_change_ok [OF g assms(2-4)] by metis
  with Inr show ?thesis unfolding pg_changed_def by auto
qed

lemma pg_serve_change:
  assumes "pg_serve ul cache q w = (LinkResponse r, w')" "named_link q = Some (k, u)"
    "expected_version q = Some v" "pw_inv ul w" "pg_request ul q"
  shows "pw_inv ul w' \<and> (isl r \<and> pw_stored w' = pw_stored w \<or> pg_changed k u v w r w')"
proof (cases q)
  case (ReqStatus c x)
  with assms(1) have "guarded_change (pw_main_repo ul cache) c (s_Code x) (s_OwnerID x) (s_ExpectedVersion x)
      (status_change pw_Now (s_Status x)) w = (r, w')"
    by (simp add: ChangeLinkStatus_guarded split: prod.splits)
  from pg_guarded_change [OF this assms(4) pw_managed.status_change_sound] assms(2,3,5) ReqStatus
  show ?thesis by simp
next
  case (ReqDestination c x)
  with assms(1) have "guarded_change (pw_main_repo ul cache) c (d_Code x) (d_OwnerID x) (d_ExpectedVersion x)
      (destination_change ul pw_Now (d_Destination x)) w = (r, w')"
    by (simp add: ChangeLinkDestination_guarded split: prod.splits)
  from pg_guarded_change [OF this assms(4) pw_managed.destination_change_sound [OF fit_stable(1)]]
    assms(2,3,5) ReqDestination
  show ?thesis by simp
next
  case (ReqExpiration c x)
  with assms(1) have "guarded_change (pw_main_repo ul cache) c (e_Code x) (e_OwnerID x) (e_ExpectedVersion x)
      (expiration_change pw_Now pw_alloc (e_ExpiresAt x)) w = (r, w')"
    by (simp add: ChangeLinkExpiration_guarded split: prod.splits)
  from pg_guarded_change [OF this assms(4) pw_managed.expiration_change_sound] assms(2,3,5) ReqExpiration
  show ?thesis by simp
qed (use assms in auto)

lemma pg_get:
  assumes "GetManagedLink (pw_main_repo ul cache) c q w = (r, w')" "pw_inv ul w"
  shows "pw_inv ul w' \<and> pw_stored w' = pw_stored w \<and>
    (\<forall>l. r = Inr l \<longrightarrow> pw_stored w (TrimSpace (g_Code q)) = Some (pg_keep l) \<and> ownerID l = TrimSpace (g_OwnerID q))"
proof (cases "TrimSpace (g_OwnerID q) = []")
  case True
  with assms show ?thesis by (auto simp: GetManagedLink_def)
next
  case False
  obtain p w1 where f: "FindByCode (pw_main_repo ul cache) c (TrimSpace (g_Code q)) w = (p, w1)" by fastforce
  note frame = pw_managed.Find_frame [OF assms(2) f]
  show ?thesis
  proof (cases p)
    case (Inl e)
    with assms(1) f False frame show ?thesis by (auto simp: GetManagedLink_def Let_def)
  next
    case (Inr l)
    from pw_managed.Find_ok [OF assms(2) f [unfolded Inr]] assms(1) f False frame Inr show ?thesis
      by (auto simp: GetManagedLink_def Let_def split: if_splits)
  qed
qed

text \<open>Creation: one new link at most, and the cache is not touched.\<close>

lemma pg_create_links:
  assumes "CreateGeneratedLink ul (pw_main_repo ul cache) pw_Generate pw_Now pw_alloc
      (Some (pw_store ul)) c q w = (r, w')" "pw_inv ul w" "stable_raw ul (c_Destination q)"
  shows "pw_inv ul w' \<and> (pw_stored w' = pw_stored w \<or>
    (\<exists>l. version l = 1 \<and> pw_stored w (code l) = None \<and> pw_stored w' = (pw_stored w)(code l \<mapsto> pg_keep l)))"
proof (cases r)
  case (Inl e)
  with pw_create.create_err [OF _ assms(2) fit_stable(2) [OF assms(3)]] assms(1) show ?thesis
    by (fastforce simp: pw_create.added_def pw_create.fresh_link_def)
next
  case (Inr l)
  with pw_create.create_ok [OF _ assms(2) fit_stable(2) [OF assms(3)]] assms(1) show ?thesis
    by (fastforce simp: pw_create.added_def pw_create.fresh_link_def)
qed

lemma pg_create_cached:
  assumes "CreateGeneratedLink ul (pw_main_repo ul cache) pw_Generate pw_Now pw_alloc
      (Some (pw_store ul)) c q w = (r, w')"
  shows "pw_cached ul w' = pw_cached ul w"
  using assms refl
proof (rule create_keeps [where I = "\<lambda>s. pw_cached ul s = pw_cached ul w"])
qed (auto simp: pw_Now_frame pw_alloc_frames pw_Generate_frame
      dest: Insert_rest [THEN rest_cached [where ul = ul]] IdemGet_rest [THEN rest_cached [where ul = ul]]
        IdemSave_rest [THEN rest_cached [where ul = ul]])

section \<open>Coherence of the cache\<close>

definition pg_coherent :: "(string \<Rightarrow> string) \<Rightarrow> pg_world \<Rightarrow> bool" where
  "pg_coherent ul w \<longleftrightarrow> pw_inv ul w \<and>
     (\<forall>k m. pw_cached ul w k = Some m \<longrightarrow>
        (\<exists>l. pw_stored w k = Some l \<and> m_version m \<le> version l \<and>
           (m_version m = version l \<longrightarrow> as_read ul (mapping_of l) = Some m)))"

lemma pg_coherent_eq: "pg_coherent ul w = pw_cached.coherent ul w"
  by (simp add: pg_coherent_def pw_cached.coherent_def pw_cached.reflects_def)

lemma pg_create_coherent:
  assumes "CreateGeneratedLink ul (pw_main_repo ul cache) pw_Generate pw_Now pw_alloc
      (Some (pw_store ul)) c q w = (r, w')" "pg_coherent ul w" "stable_raw ul (c_Destination q)"
  shows "pg_coherent ul w'"
  using pg_create_links [OF assms(1) _ assms(3)] pg_create_cached [OF assms(1)] assms(2)
  unfolding pg_coherent_def by (metis fun_upd_other option.distinct(1))

lemma pg_get_coherent:
  assumes "GetManagedLink (pw_main_repo ul cache) c q w = (r, w')" "pg_coherent ul w"
  shows "pg_coherent ul w'"
proof -
  have "pw_cached ul w' = pw_cached ul w"
    using assms(1)
    by (auto simp: GetManagedLink_def Let_def dest!: Find_rest [THEN rest_cached]
        split: prod.splits sum.splits if_splits)
  with pg_get [OF assms(1)] assms(2) show ?thesis by (simp add: pg_coherent_def)
qed

lemma pg_redirect_coherent:
  assumes "RedirectLink (pw_main_resolver ul (Some config)) pw_Now c k w = (r, w')" "pg_coherent ul w"
  shows "pg_coherent ul w' \<and> pw_stored w' = pw_stored w"
proof -
  obtain m w1 where m: "CacheAside_Resolve world_timeout pw_Now (pw_resolver ul config) c k w = (m, w1)"
    by fastforce
  then have c1: "pg_coherent ul w1" "pw_stored w1 = pw_stored w"
    using pw_cached.resolve_coherent [OF m pw_resolver_wired] assms(2) by (simp_all add: pg_coherent_eq)
  obtain t w2 where n: "pw_Now w1 = (t, w2)" by fastforce
  have "pg_coherent ul w2" "pw_stored w2 = pw_stored w"
    using c1 pw_Now_frame [OF n] by (simp_all add: pg_coherent_def)
  with assms(1) m n c1 show ?thesis
    by (cases m) (auto simp: RedirectLink_def pw_main_resolver_def split: if_splits)
qed

lemma pg_redirect_links:
  assumes "RedirectLink (pw_main_resolver ul cache) pw_Now c k w = (r, w')" "pw_inv ul w"
    "cache \<noteq> None \<Longrightarrow> pg_coherent ul w"
  shows "pw_inv ul w' \<and> pw_stored w' = pw_stored w"
proof (cases cache)
  case None
  obtain p w1 where f: "FindByCode (pw_repo ul) c k w = (p, w1)" by fastforce
  then have "pw_inv ul w1" "pw_stored w1 = pw_stored w"
    using pw_managed.Find_frame [of ul w None c k p w1] assms(2) by simp_all
  moreover obtain t w2 where n: "pw_Now w1 = (t, w2)" by fastforce
  ultimately have "pw_inv ul w2" "pw_stored w2 = pw_stored w" using pw_Now_frame [OF n] by simp_all
  with assms(1) None f n \<open>pw_inv ul w1\<close> \<open>pw_stored w1 = pw_stored w\<close> show ?thesis
    by (auto simp: RedirectLink_def pw_main_resolver_def RepositoryResolver_Resolve_def
        split: sum.splits if_splits prod.splits)
next
  case (Some config)
  with pg_redirect_coherent assms show ?thesis by (fastforce simp: pg_coherent_def)
qed

lemma pg_change_coherent:
  assumes "pg_serve ul (Some config) q w = (r, w')" "expected_version q = Some v" "pg_coherent ul w"
    "pg_request ul q"
  shows "pg_coherent ul w'"
proof (cases q)
  case (ReqStatus c x)
  with assms pw_cached.changes_coherent(1) [of ul w config] show ?thesis
    by (auto simp: pw_main_repo_def pg_coherent_eq split: prod.splits)
next
  case (ReqDestination c x)
  with assms pw_cached.changes_coherent(2) [of ul w ul config] fit_stable(1) show ?thesis
    by (auto simp: pw_main_repo_def pg_coherent_eq split: prod.splits)
next
  case (ReqExpiration c x)
  with assms pw_cached.changes_coherent(3) [of ul w config] show ?thesis
    by (auto simp: pw_main_repo_def pg_coherent_eq split: prod.splits)
qed (use assms in auto)

section \<open>Sequences of requests\<close>

definition pg_ready :: "(string \<Rightarrow> string) \<Rightarrow> RedirectCacheConfig option \<Rightarrow> pg_world \<Rightarrow> bool" where
  "pg_ready ul cache w \<longleftrightarrow> pw_inv ul w \<and> (cache \<noteq> None \<longrightarrow> pg_coherent ul w)"

lemma pg_links_step_refl [simp]: "pg_links_step f f"
  by (simp add: pg_links_step_def)

lemma pg_changed_step:
  assumes "pg_changed k u v w r w'"
  shows "pg_links_step (pw_stored w) (pw_stored w')"
  using assms unfolding pg_changed_def pg_links_step_def pg_link_step_def by blast

lemma pg_created_step:
  "version l = 1 \<Longrightarrow> f (code l) = None \<Longrightarrow> pg_links_step f (f(code l \<mapsto> pg_keep l))"
  unfolding pg_links_step_def by (metis pg_keep_simps(1,5))

lemma pg_changes_ready:
  assumes "pg_serve ul cache q w = (LinkResponse r, w')" "named_link q = Some (k, u)"
    "expected_version q = Some v" "pg_ready ul cache w" "pg_request ul q"
  shows "pg_ready ul cache w' \<and> pg_links_step (pw_stored w) (pw_stored w')"
proof -
  have "pw_inv ul w' \<and> pg_links_step (pw_stored w) (pw_stored w')"
    using pg_serve_change [OF assms(1-3) _ assms(5)] assms(4) pg_changed_step
    by (auto simp: pg_ready_def)
  with pg_change_coherent [of ul _ q w "LinkResponse r" w'] assms show ?thesis
    by (cases cache) (auto simp: pg_ready_def)
qed

lemma pg_serve_ready:
  assumes "pg_serve ul cache q w = (r, w')" "pg_ready ul cache w" "pg_request ul q"
  shows "pg_ready ul cache w' \<and> pg_links_step (pw_stored w) (pw_stored w')"
proof (cases "\<exists>k u v p. r = LinkResponse p \<and> named_link q = Some (k, u) \<and> expected_version q = Some v")
  case True
  with pg_changes_ready assms show ?thesis by blast
next
  case other: False
  have inv: "pw_inv ul w" using assms(2) by (simp add: pg_ready_def)
  show ?thesis
  proof (cases q)
    case (ReqCreate c x)
    with assms obtain p where "CreateGeneratedLink ul (pw_main_repo ul cache) pw_Generate pw_Now pw_alloc
        (Some (pw_store ul)) c x w = (p, w')" "stable_raw ul (c_Destination x)"
      by (auto split: prod.splits)
    with pg_create_links [OF this(1) inv] pg_create_coherent [OF this(1)] assms(2) pg_created_step
    show ?thesis by (auto simp: pg_ready_def)
  next
    case (ReqGet c x)
    with assms obtain p where "GetManagedLink (pw_main_repo ul cache) c x w = (p, w')"
      by (auto split: prod.splits)
    with pg_get [OF this inv] pg_get_coherent [OF this] assms(2) show ?thesis
      by (auto simp: pg_ready_def)
  next
    case (ReqRedirect c k)
    with assms obtain p where p: "RedirectLink (pw_main_resolver ul cache) pw_Now c k w = (p, w')"
      by (auto split: prod.splits)
    have "pw_inv ul w' \<and> pw_stored w' = pw_stored w"
      using pg_redirect_links [OF p inv] assms(2) by (auto simp: pg_ready_def)
    moreover have "cache \<noteq> None \<Longrightarrow> pg_coherent ul w'"
      using p pg_redirect_coherent [of ul _ c k w p w'] assms(2) by (cases cache) (auto simp: pg_ready_def)
    ultimately show ?thesis by (auto simp: pg_ready_def)
  qed (use other assms(1) in \<open>auto split: prod.splits\<close>)
qed

lemma pg_serve_all_ready:
  "pg_serve_all ul cache qs w = (rs, w') \<Longrightarrow> pg_ready ul cache w \<Longrightarrow> \<forall>q \<in> set qs. pg_request ul q \<Longrightarrow>
     pg_ready ul cache w' \<and> pg_links_step\<^sup>*\<^sup>* (pw_stored w) (pw_stored w')"
proof (induction qs arbitrary: w rs)
  case (Cons q qs)
  obtain r w1 where q: "pg_serve ul cache q w = (r, w1)" by fastforce
  obtain rs1 w2 where "pg_serve_all ul cache qs w1 = (rs1, w2)" by fastforce
  with Cons q pg_serve_ready [OF q] show ?case by (auto intro: converse_rtranclp_into_rtranclp)
qed simp

lemma pg_links_step_life:
  assumes "pg_links_step f g" "f k = Some l"
  shows "\<exists>l'. g k = Some l' \<and> pg_link_step\<^sup>*\<^sup>* l l'"
  using assms unfolding pg_links_step_def by auto

lemma pg_links_steps_life:
  "pg_links_step\<^sup>*\<^sup>* f g \<Longrightarrow> f k = Some l \<Longrightarrow> \<exists>l'. g k = Some l' \<and> pg_link_step\<^sup>*\<^sup>* l l'"
proof (induction rule: rtranclp_induct)
  case (step g h)
  then obtain l1 where "g k = Some l1" "pg_link_step\<^sup>*\<^sup>* l l1" by blast
  with pg_links_step_life [OF step.hyps(2)] show ?case by (metis rtranclp_trans)
qed auto

text \<open>What all the steps of a link have in common.\<close>

lemma pg_link_step_same:
  assumes "pg_link_step l l'"
  shows "code l' = code l \<and> ownerID l' = ownerID l \<and> createdAt l' = createdAt l \<and> version l' = version l + 1
    \<and> status l \<noteq> Deleted"
  using assms unfolding pg_link_step_def by (auto dest: apply_op_ok)

text \<open>The state the program starts in, on empty tables.\<close>

definition initial_pg :: "(nat \<Rightarrow> network) \<Rightarrow> world \<Rightarrow> pg_world" where
  "initial_pg net w = \<lparr>pw_server = empty_server net, pw_world = w\<rparr>"

lemma initial_pg_ready:
  assumes "\<forall>n. 1000 \<le> w_clock w n" "\<forall>k. cached_for ul w k = None"
  shows "pg_ready ul cache (initial_pg net w)"
proof -
  have "pw_inv ul (initial_pg net w)"
    using assms(1) by (simp add: pw_inv_def clock_ok_def pg_ok_def initial_pg_def empty_server_def pg_content_def)
  then show ?thesis
    using assms(2) by (simp add: pg_ready_def pg_coherent_def pw_cached_def initial_pg_def)
qed

section \<open>Creation\<close>

lemma pg_serve_create:
  "pg_serve ul cache (ReqCreate c q) w = (LinkResponse r, w') \<longleftrightarrow>
     CreateGeneratedLink ul (pw_main_repo ul cache) pw_Generate pw_Now pw_alloc (Some (pw_store ul)) c q w = (r, w')"
  by (auto split: prod.splits)

lemma pw_recorded_eq: "pw_recorded w l = (case pw_stored w (code l) of None \<Rightarrow> l | Some x \<Rightarrow> x)"
  by (simp add: pw_recorded_def pg_recorded_def pw_stored_def)

lemma pg_create_stored:
  assumes "CreateGeneratedLink ul (pw_main_repo ul cache) pw_Generate pw_Now pw_alloc
      (Some (pw_store ul)) c q w = (Inr l, w')" "pw_inv ul w" "stable_raw ul (c_Destination q)"
    "c_IdempotencyKey q \<noteq> []"
  shows "pw_inv ul w' \<and> pw_saved w' (c_OwnerID q) (c_IdempotencyKey q) = Some (pg_keep l)"
  using pw_create.create_ok [OF assms(1,2) fit_stable(2) [OF assms(3)]] assms(4)
  by (auto simp: pw_recorded_eq pw_create.added_def)

lemma pg_create_again:
  assumes "CreateGeneratedLink ul (pw_main_repo ul cache) pw_Generate pw_Now pw_alloc
      (Some (pw_store ul)) c q w = (Inr l, w')" "pw_inv ul w" "stable_raw ul (c_Destination q)"
    "c_IdempotencyKey q \<noteq> []" "pw_saved w (c_OwnerID q) (c_IdempotencyKey q) = Some x"
  shows "pw_stored w' = pw_stored w \<and> pg_keep l = x"
  using pw_create.create_ok [OF assms(1,2) fit_stable(2) [OF assms(3)]] assms(4,5) by auto

section \<open>Keys stay\<close>

text \<open>No request takes a key away or gives it another code.\<close>

definition pw_keys :: "pg_world \<Rightarrow> (string \<times> string) \<Rightarrow> (string \<times> time) option" where
  "pw_keys w = db_keys (pg_db (pw_server w))"

lemma pw_keys_frame:
  "FindByCode (pw_repo ul) c k w = (r, w') \<Longrightarrow> pw_keys w' = pw_keys w"
  "Insert (pw_repo ul) c l w = (q, w') \<Longrightarrow> pw_keys w' = pw_keys w"
  "Update (pw_repo ul) c l v w = (q, w') \<Longrightarrow> pw_keys w' = pw_keys w"
  "IdemGet (pw_store ul) c u k w = (r, w') \<Longrightarrow> pw_keys w' = pw_keys w"
proof -
  have exec: "pw_keys w1 = pw_keys w" if "Exec pw_pool c f w = (p, w1)" "\<And>d. db_keys (snd (f d)) = db_keys d" for f p w w1
    using pw.Exec_step [OF that(1)] that(2) by (auto simp: pw_keys_def)
  have ins: "db_keys (snd (insert_link x y d)) = db_keys d" for x y d by (simp add: insert_link_def)
  have upd: "db_keys (snd (update_link x1 x2 x3 x4 x5 x6 x7 d)) = db_keys d" for x1 x2 x3 x4 x5 x6 x7 d
    by (simp add: update_link_def Let_def split: option.split)
  have ex: "pw_keys w2 = pw_keys w1" if "linkExists pw_pool c x w1 = (r, w2)" for x r w1 w2
    using that pw.QueryRow_step [of c "\<lambda>d. Some (BoolRow (db_links d x \<noteq> None))" w1]
    by (auto simp: linkExists_def pw_keys_def split: prod.splits sum.splits row.splits)
  show "FindByCode (pw_repo ul) c k w = (r, w') \<Longrightarrow> pw_keys w' = pw_keys w"
    using pw.Find_db [OF pw_alloc_frame] by (simp add: pw_repo_def pg_repository_def pw_keys_def)
  show "Insert (pw_repo ul) c l w = (q, w') \<Longrightarrow> pw_keys w' = pw_keys w"
    using ins by (auto simp: pw_repo_def pg_repository_def pg_Insert_def dest!: exec split: sum.splits prod.splits)
  show "Update (pw_repo ul) c l v w = (q, w') \<Longrightarrow> pw_keys w' = pw_keys w"
    using upd
    by (auto simp: pw_repo_def pg_repository_def pg_Update_def dest!: exec ex split: sum.splits prod.splits if_splits)
  show "IdemGet (pw_store ul) c u k w = (r, w') \<Longrightarrow> pw_keys w' = pw_keys w"
    using pw.Get_db [OF pw_alloc_frame] by (simp add: pw_store_def pg_idempotency_store_def pw_keys_def)
qed

lemma pw_keys_Save:
  "IdemSave (pw_store ul) c u k l w = (q, w') \<Longrightarrow> pw_keys w x = Some v \<Longrightarrow> pw_keys w' x = Some v"
  using pw.Save_keeps_keys [of c u k l w q w']
  by (cases x; cases v) (simp add: pw_store_def pg_idempotency_store_def pw_keys_def)

lemma pw_keys_others:
  "pw_Now w = (t, w') \<Longrightarrow> pw_keys w' = pw_keys w"
  "pw_alloc w = (a, w') \<Longrightarrow> pw_keys w' = pw_keys w"
  "pw_Generate c w = (g, w') \<Longrightarrow> pw_keys w' = pw_keys w"
  "CacheGet (pw_cache ul) c k w = (r, w') \<Longrightarrow> pw_keys w' = pw_keys w"
  "PutIfNewer (pw_cache ul) c m ttl w = (q, w') \<Longrightarrow> pw_keys w' = pw_keys w"
  "pw_keys (RecordCacheGet pw_metrics n d w) = pw_keys w"
  "pw_keys (RecordSourceLookup pw_metrics n d w) = pw_keys w"
  "pw_keys (RecordCachePut pw_metrics n d w) = pw_keys w"
  by (auto simp: pw_keys_def pw_Now_def pw_alloc_def pw_Generate_def pw_cache_lift lift_iff pw_metrics_def)

lemma pw_keys_refresh: "Refresh world_timeout (pw_refresher ul config) c l w = (q, w') \<Longrightarrow> pw_keys w' = pw_keys w"
  by (auto simp: Refresh_def pw_refresher_def dest!: pw_keys_others(1,5) split: sum.splits prod.splits if_splits)

lemma pw_keys_main:
  "Update (pw_main_repo ul cache) c l v w = (q, w') \<Longrightarrow> pw_keys w' = pw_keys w"
  by (cases cache)
    (auto simp: pw_main_repo_def CacheRefreshingRepository_def refreshing_Update_def
      dest!: pw_keys_frame pw_keys_refresh split: prod.splits option.splits)

lemma pw_keys_change:
  assumes "guarded_change (pw_main_repo ul cache) c k u v m w = (r, w')"
    "\<And>l s a s'. m l s = (a, s') \<Longrightarrow> pw_keys s' = pw_keys s"
  shows "pw_keys w' = pw_keys w"
  using assms
  by (auto simp: guarded_change_def dest!: pw_keys_frame pw_keys_main split: if_splits prod.splits sum.splits option.splits)

lemma pw_keys_changes:
  "status_change pw_Now st l w = (a, w') \<Longrightarrow> pw_keys w' = pw_keys w"
  "destination_change ul pw_Now raw l w = (a, w') \<Longrightarrow> pw_keys w' = pw_keys w"
  "expiration_change pw_Now pw_alloc t l w = (a, w') \<Longrightarrow> pw_keys w' = pw_keys w"
  by (auto simp: status_change_def destination_change_def expiration_change_def dest!: pw_keys_others(1,2)
      split: prod.splits LinkStatus.splits sum.splits option.splits)

lemma pw_keys_resolve:
  "RepositoryResolver_Resolve (pw_repo ul) c k w = (r, w') \<Longrightarrow> pw_keys w' = pw_keys w"
  "CacheAside_Resolve world_timeout pw_Now (pw_resolver ul config) c k w = (r, w') \<Longrightarrow> pw_keys w' = pw_keys w"
proof -
  have src: "RepositoryResolver_Resolve (pw_repo ul) c k w = (r, w') \<Longrightarrow> pw_keys w' = pw_keys w" for w r w'
    by (auto simp: RepositoryResolver_Resolve_def dest!: pw_keys_frame split: prod.splits sum.splits)
  then show "RepositoryResolver_Resolve (pw_repo ul) c k w = (r, w') \<Longrightarrow> pw_keys w' = pw_keys w" .
  show "CacheAside_Resolve world_timeout pw_Now (pw_resolver ul config) c k w = (r, w') \<Longrightarrow> pw_keys w' = pw_keys w"
    by (auto simp: CacheAside_Resolve_def pw_resolver_def recordCacheGet_def recordSourceLookup_def recordCachePut_def
        Let_def pw_keys_others(6-8) dest!: pw_keys_others(1-5) src split: prod.splits sum.splits if_splits)
qed

lemma pg_serve_keys:
  assumes "pg_serve ul cache q w = (r, w')" "pw_keys w x = Some v"
  shows "pw_keys w' x = Some v"
proof (cases q)
  case (ReqCreate c y)
  then obtain p where "CreateGeneratedLink ul (pw_main_repo ul cache) pw_Generate pw_Now pw_alloc
      (Some (pw_store ul)) c y w = (p, w')"
    using assms(1) by (auto split: prod.splits)
  then show ?thesis
    by (rule create_keeps [where I = "\<lambda>s. pw_keys s x = Some v"])
      (use assms(2) in \<open>auto simp: pw_keys_frame pw_keys_others dest: pw_keys_Save\<close>)
next
  case (ReqGet c y)
  with assms show ?thesis
    by (auto simp: GetManagedLink_def Let_def dest!: pw_keys_frame split: prod.splits sum.splits if_splits)
next
  case (ReqRedirect c k)
  with assms show ?thesis
    by (cases cache)
      (auto simp: RedirectLink_def pw_main_resolver_def dest!: pw_keys_resolve pw_keys_others(1)
        split: prod.splits sum.splits if_splits)
next
  case (ReqStatus c y)
  with assms(1) obtain p where "guarded_change (pw_main_repo ul cache) c (s_Code y) (s_OwnerID y)
      (s_ExpectedVersion y) (status_change pw_Now (s_Status y)) w = (p, w')"
    by (auto simp: ChangeLinkStatus_guarded split: prod.splits)
  from pw_keys_change [OF this pw_keys_changes(1)] assms(2) show ?thesis by simp
next
  case (ReqDestination c y)
  with assms(1) obtain p where "guarded_change (pw_main_repo ul cache) c (d_Code y) (d_OwnerID y)
      (d_ExpectedVersion y) (destination_change ul pw_Now (d_Destination y)) w = (p, w')"
    by (auto simp: ChangeLinkDestination_guarded split: prod.splits)
  from pw_keys_change [OF this pw_keys_changes(2)] assms(2) show ?thesis by simp
next
  case (ReqExpiration c y)
  with assms(1) obtain p where "guarded_change (pw_main_repo ul cache) c (e_Code y) (e_OwnerID y)
      (e_ExpectedVersion y) (expiration_change pw_Now pw_alloc (e_ExpiresAt y)) w = (p, w')"
    by (auto simp: ChangeLinkExpiration_guarded split: prod.splits)
  from pw_keys_change [OF this pw_keys_changes(3)] assms(2) show ?thesis by simp
qed

lemma pg_serve_all_keys:
  "pg_serve_all ul cache qs w = (rs, w') \<Longrightarrow> pw_keys w x = Some v \<Longrightarrow> pw_keys w' x = Some v"
proof (induction qs arbitrary: w rs)
  case (Cons q qs)
  obtain r w1 where q: "pg_serve ul cache q w = (r, w1)" by fastforce
  obtain rs1 w2 where "pg_serve_all ul cache qs w1 = (rs1, w2)" by fastforce
  with Cons q pg_serve_keys [OF q] show ?case by auto
qed simp

text \<open>A key stands for the link its code has by now.\<close>

lemma pg_keys_saved:
  assumes "pw_inv ul w" "pw_saved w u k = Some x"
  shows "\<exists>t. pw_keys w (u, k) = Some (code x, t)" "pw_stored w (code x) = Some x"
proof -
  have ok: "pg_ok ul (pg_db (pw_server w))" using assms(1) by (simp add: pw_inv_def)
  obtain c t where ct: "pw_keys w (u, k) = Some (c, t)"
    using assms(2) by (auto simp: pw_saved_def pg_saved_def pw_keys_def split: option.splits)
  from pg_ok_key [OF ok ct [unfolded pw_keys_def]] obtain l where "pg_content (pg_db (pw_server w)) c = Some l"
    "pw_saved w u k = Some l" "code l = c"
    by (auto simp: pw_saved_def)
  with assms(2) ct show "\<exists>t. pw_keys w (u, k) = Some (code x, t)" "pw_stored w (code x) = Some x"
    by (auto simp: pw_stored_def)
qed

lemma pw_keys_saved: "pw_keys w (u, k) = Some (c, t) \<Longrightarrow> pw_saved w u k = pw_stored w c"
  by (simp add: pw_keys_def pw_saved_def pg_saved_def pw_stored_def)

lemma pg_create_replayed:
  assumes "pg_serve ul cache (ReqCreate c q) w = (LinkResponse (Inr l), w1)" "pg_ready ul cache w"
    and "pg_serve_all ul cache qs w1 = (rs, w2)"
    and "pg_serve ul cache (ReqCreate c' q') w2 = (LinkResponse (Inr l'), w3)"
    and "pg_request ul (ReqCreate c q)" "pg_request ul (ReqCreate c' q')" "\<forall>x \<in> set qs. pg_request ul x"
    and "c_IdempotencyKey q \<noteq> []" "c_OwnerID q' = c_OwnerID q" "c_IdempotencyKey q' = c_IdempotencyKey q"
  shows "pw_stored w1 (code l) = Some (pg_keep l) \<and> pw_stored w2 (code l) = Some (pg_keep l')
    \<and> pw_stored w3 = pw_stored w2 \<and> pg_link_step\<^sup>*\<^sup>* (pg_keep l) (pg_keep l')"
proof -
  have "pw_inv ul w" using assms(2) by (simp add: pg_ready_def)
  from pg_create_stored [OF assms(1) [unfolded pg_serve_create] this] assms(5,8)
  have s1: "pw_inv ul w1" "pw_saved w1 (c_OwnerID q) (c_IdempotencyKey q) = Some (pg_keep l)" by simp_all
  note at1 = pg_keys_saved [OF s1, simplified]
  then obtain t where "pw_keys w1 (c_OwnerID q, c_IdempotencyKey q) = Some (code l, t)" by blast
  from pw_keys_saved [OF pg_serve_all_keys [OF assms(3) this]]
  have s2: "pw_saved w2 (c_OwnerID q) (c_IdempotencyKey q) = pw_stored w2 (code l)" .
  have "pg_ready ul cache w1" using pg_serve_ready [OF assms(1,2,5)] by simp
  from pg_serve_all_ready [OF assms(3) this assms(7)] have w2: "pg_ready ul cache w2"
    "pg_links_step\<^sup>*\<^sup>* (pw_stored w1) (pw_stored w2)" by simp_all
  from pg_links_steps_life [OF w2(2) at1(2)] obtain x where x: "pw_stored w2 (code l) = Some x"
    "pg_link_step\<^sup>*\<^sup>* (pg_keep l) x" by blast
  have "pw_inv ul w2" using w2(1) by (simp add: pg_ready_def)
  from pg_create_again [OF assms(4) [unfolded pg_serve_create] this] assms(6,8,10) s2 x(1)
  have "pw_stored w3 = pw_stored w2 \<and> pg_keep l' = x" by (simp add: assms(9))
  with x at1(2) show ?thesis by simp
qed

end
