(* ===== verification/PgWeb.thy ===== *)
theory PgWeb
  imports PgService WebFacts
begin

text \<open>
  The server of \<^verbatim>\<open>cmd/linkd/main.go\<close> over PostgreSQL: the handlers that its start builds from a
  configuration, and what HTTP requests to them do to the tables and the cache.
\<close>

section \<open>The platform\<close>

definition pw_events :: "(ctx, pg_world) redirect_event_recorder" where
  "pw_events = pg_Record pw_pool"

definition pw_http_metrics :: "pg_world MetricsRecorder" where
  "pw_http_metrics =
     \<lparr>hm_RecordRedirect = (\<lambda>n d w. put_world (hm_RecordRedirect world_http_metrics n d (pw_world w)) w),
      hm_RecordAnalytics = (\<lambda>n d w. put_world (hm_RecordAnalytics world_http_metrics n d (pw_world w)) w)\<rparr>"

text \<open>\<open>Ping\<close> of a pool is a call that reads nothing.\<close>

definition pw_ping :: "(ctx, pg_world) Checker" where
  "pw_ping c w =
     (case lift pw_server put_server (pg_call c (\<lambda>d. (Inr (), d))) w of
        (Inl e, w') \<Rightarrow> (Some e, w')
      | (Inr _, w') \<Rightarrow> (None, w'))"

definition pw_redis_ping :: "(ctx, pg_world) Checker" where
  "pw_redis_ping c = lift pw_world put_world (world_ping c)"

definition pw_new_memory :: "pg_world \<Rightarrow> ((ctx, pg_world) link_repository \<times> (ctx, pg_world) idempotency_store
    \<times> (ctx, pg_world) redirect_event_recorder) \<times> pg_world" where
  "pw_new_memory =
     lift pw_world put_world (\<lambda>w.
       ((lift_repository pw_world put_world world_repo, lift_idempotency pw_world put_world world_store,
         \<lambda>c e. lift pw_world put_world (world_events c e)), snd (new_memory w)))"

definition pw_new_metrics :: "pg_world \<Rightarrow> (pg_world RedirectCacheMetrics \<times> pg_world MetricsRecorder
    \<times> (pg_world \<Rightarrow> Recorder option)) \<times> pg_world" where
  "pw_new_metrics w =
     ((pw_metrics, pw_http_metrics, w_metrics \<circ> pw_world), put_world (snd (new_metrics (pw_world w))) w)"

text \<open>A pool is opened without a connection, if its URL parses (\<open>parse_pg\<close> is the error otherwise).\<close>

definition pw_open :: "(string \<Rightarrow> err option) \<Rightarrow> ctx \<Rightarrow> string \<Rightarrow> pg_world \<Rightarrow> (err + pg_world pool_handle) \<times> pg_world" where
  "pw_open parse_pg c url w =
     ((case parse_pg url of
         Some e \<Rightarrow> Inl e
       | None \<Rightarrow> Inr \<lparr>pl_pool = pw_pool, pl_Ping = pw_ping, pl_Close = (\<lambda>w. w)\<rparr>), w)"

definition pg_platform ::
    "(string \<Rightarrow> err option) \<Rightarrow> (string \<Rightarrow> err + 'o) \<Rightarrow> ('o, redis_data, pg_world) platform" where
  "pg_platform parse_pg parse_redis =
     \<lparr>pf_timeout = world_timeout, pf_TimeNow = pw_Now, pf_Now = pw_Now, pf_alloc = pw_alloc,
      pf_Generate = pw_Generate, pf_new_memory = pw_new_memory, pf_new_metrics = pw_new_metrics,
      pf_pgxpool_New = pw_open parse_pg, pf_redis_ParseURL = parse_redis,
      pf_redis_NewClient = (\<lambda>_. \<lparr>rc_client = pw_client, rc_Ping = pw_redis_ping, rc_Close = (\<lambda>w. w)\<rparr>),
      pf_redis_commands = server_commands\<rparr>"

section \<open>The server that is started\<close>

definition pg_link_handler :: "(string \<Rightarrow> string) \<Rightarrow> Config \<Rightarrow> pg_world Handler" where
  "pg_link_handler ul cfg =
     \<lparr>h_createGeneratedLink =
        CreateGeneratedLink ul (pw_main_repo ul (cache_of cfg)) pw_Generate pw_Now pw_alloc (Some (pw_store ul)),
      h_redirectLink = RedirectLink (pw_main_resolver ul (cache_of cfg)) pw_Now,
      h_baseURL = cfg_BaseURL cfg, h_analyticsRecorder = Some pw_events, h_clock = Some pw_Now,
      h_metrics = Some pw_http_metrics\<rparr>"

definition pg_management_handler :: "(string \<Rightarrow> string) \<Rightarrow> Config \<Rightarrow> pg_world ManagementHandler" where
  "pg_management_handler ul cfg =
     \<lparr>m_getManagedLink = GetManagedLink (pw_main_repo ul (cache_of cfg)),
      m_changeLinkStatus = ChangeLinkStatus (pw_main_repo ul (cache_of cfg)) pw_Now,
      m_changeLinkDestination = ChangeLinkDestination ul (pw_main_repo ul (cache_of cfg)) pw_Now,
      m_changeLinkExpiration = ChangeLinkExpiration (pw_main_repo ul (cache_of cfg)) pw_Now pw_alloc\<rparr>"

definition pg_server_of :: "(string \<Rightarrow> string) \<Rightarrow> Config \<Rightarrow> pg_world server" where
  "pg_server_of ul cfg =
     \<lparr>srv_Addr = cfg_Addr cfg, srv_link = pg_link_handler ul cfg, srv_management = pg_management_handler ul cfg,
      srv_health =
        \<lparr>hh_readiness = Some pw_ping,
         hh_diagnostics =
           \<lparr>k_Name = ''postgres'', k_Required = True, k_Checker = Some pw_ping\<rparr>
           # (if cfg_Cache cfg = CacheNone then []
              else [\<lparr>k_Name = ''redis'', k_Required = False, k_Checker = Some pw_redis_ping\<rparr>]),
         hh_diagnosticsToken = cfg_DiagnosticsToken cfg\<rparr>,
      srv_metrics = \<lparr>mh_recorder = w_metrics \<circ> pw_world, mh_token = cfg_DiagnosticsToken cfg\<rparr>,
      srv_cleanup = (\<lambda>w. w)\<rparr>"

lemma pw_resolver_New:
  "validateRedirectCacheConfig config = None \<Longrightarrow>
     NewCacheAsideResolver (pw_cache ul) (RepositoryResolver_Resolve (pw_repo ul)) pw_Now config
       [WithRedirectCacheMetrics pw_metrics] = Inr (pw_resolver ul config)"
  by (simp add: NewCacheAsideResolver_def pw_resolver_def WithRedirectCacheMetrics_def)

lemma pw_refresher_New:
  "validateRedirectCacheConfig config = None \<Longrightarrow>
     NewRedirectCacheRefresher (pw_cache ul) pw_Now config = Inr (pw_refresher ul config)"
  by (simp add: NewRedirectCacheRefresher_def pw_refresher_def)

lemma pg_start_builds:
  assumes "Load ul getenv = Inr cfg" "cfg_Storage cfg = StoragePostgres" "parse_pg (cfg_DatabaseURL cfg) = None"
    and "pw_ping ctx w = (None, w1)"
    and "cfg_Cache cfg = CacheRedis \<Longrightarrow> parse_redis (cfg_RedisURL cfg) = Inr options"
  shows "start_run ul (pg_platform parse_pg parse_redis) getenv ctx w
    = (Inr (pg_server_of ul cfg), snd (pw_new_metrics w1))"
proof -
  have v: "config_valid cfg" using Load_ok [OF assms(1)] .
  have ids: "(\<lambda>w. w) \<circ> (\<lambda>w :: pg_world. w) = (\<lambda>w. w)" by (simp add: fun_eq_iff)
  have st: "StoragePostgres \<noteq> StorageMemory" by (simp add: StoragePostgres_def StorageMemory_def)
  consider "cfg_Cache cfg = CacheNone" | "cfg_Cache cfg = CacheRedis" "cfg_Cache cfg \<noteq> CacheNone"
    using v by (auto simp: config_valid_def CacheNone_def CacheRedis_def)
  then show ?thesis
  proof cases
    case 1
    then show ?thesis
      using assms(1-4) ids st
      by (simp add: start_run_def buildStorage_def buildLinkResolver_def pg_platform_def OpenPool_def pw_open_def
          pw_new_metrics_def pg_server_of_def pg_link_handler_def pg_management_handler_def pw_repo_def [symmetric]
          pw_store_def [symmetric] pw_events_def [symmetric]
          NewHandler_def WithAnalytics_def WithMetrics_def NewManagementHandler_def NewHealthHandler_def
          NewMetricsHandler_def cache_of_def pw_main_repo_def pw_main_resolver_def Let_def)
  next
    case 2
    then show ?thesis
      using assms ids st valid_cache_config [OF v]
      by (simp add: start_run_def buildStorage_def buildLinkResolver_def pg_platform_def OpenPool_def pw_open_def
          pw_new_metrics_def pg_server_of_def pg_link_handler_def pg_management_handler_def pw_repo_def [symmetric]
          pw_store_def [symmetric] pw_events_def [symmetric] pw_cache_def [symmetric]
          NewHandler_def WithAnalytics_def WithMetrics_def NewManagementHandler_def NewHealthHandler_def
          NewMetricsHandler_def cache_of_def pw_main_repo_def pw_main_resolver_def Let_def
          pw_resolver_New pw_refresher_New)
  qed
qed

section \<open>Quiet and fading steps\<close>

text \<open>A step is quiet if the tables keep their links and keys and the cache its entries.\<close>

definition pg_quiet :: "pg_world \<Rightarrow> pg_world \<Rightarrow> bool" where
  "pg_quiet w w' \<longleftrightarrow>
     db_links (pg_db (pw_server w')) = db_links (pg_db (pw_server w))
     \<and> db_keys (pg_db (pw_server w')) = db_keys (pg_db (pw_server w))
     \<and> w_clock (pw_world w') = w_clock (pw_world w) \<and> w_redis (pw_world w') = w_redis (pw_world w)"

definition pg_faded :: "(string \<Rightarrow> string) \<Rightarrow> pg_world \<Rightarrow> pg_world \<Rightarrow> bool" where
  "pg_faded ul w w' \<longleftrightarrow>
     db_links (pg_db (pw_server w')) = db_links (pg_db (pw_server w))
     \<and> db_keys (pg_db (pw_server w')) = db_keys (pg_db (pw_server w))
     \<and> w_clock (pw_world w') = w_clock (pw_world w)
     \<and> (\<forall>k. pw_cached ul w' k = pw_cached ul w k \<or> pw_cached ul w' k = None)"

lemma pg_quiet_faded: "pg_quiet w w' \<Longrightarrow> pg_faded ul w w'"
  by (simp add: pg_quiet_def pg_faded_def pw_cached_def cached_for_eq)

lemma pg_faded_trans: "pg_faded ul w w1 \<Longrightarrow> pg_faded ul w1 w2 \<Longrightarrow> pg_faded ul w w2"
  unfolding pg_faded_def by metis

lemma pg_faded_frame:
  assumes "pg_faded ul w w'"
  shows "pw_stored w' = pw_stored w" "pg_ready ul cache w \<Longrightarrow> pg_ready ul cache w'"
proof -
  have db: "db_links (pg_db (pw_server w')) = db_links (pg_db (pw_server w))"
    "db_keys (pg_db (pw_server w')) = db_keys (pg_db (pw_server w))"
    and clk: "w_clock (pw_world w') = w_clock (pw_world w)"
    and c: "\<forall>k. pw_cached ul w' k = pw_cached ul w k \<or> pw_cached ul w' k = None"
    using assms by (simp_all add: pg_faded_def)
  show s: "pw_stored w' = pw_stored w" using db by (simp add: pw_stored_def pg_content_def fun_eq_iff)
  then have ok: "pg_ok ul (pg_db (pw_server w')) = pg_ok ul (pg_db (pw_server w))"
    unfolding pg_ok_def db by (simp add: pw_stored_def)
  then have "pw_inv ul w' = pw_inv ul w" using clk by (simp add: pw_inv_def clock_ok_def)
  then show "pg_ready ul cache w \<Longrightarrow> pg_ready ul cache w'"
    using s c unfolding pg_ready_def pg_coherent_def by (metis option.distinct(1))
qed

lemma pg_quiet_frame:
  assumes "pg_quiet w w'"
  shows "pw_stored w' = pw_stored w" "pg_ready ul cache w \<Longrightarrow> pg_ready ul cache w'"
  using pg_faded_frame [OF pg_quiet_faded [OF assms]] by blast+

lemma pw_Now_quiet: "pw_Now w = (t, w') \<Longrightarrow> pg_quiet w w'"
  by (auto simp: pw_Now_def lift_iff world_Now_def pg_quiet_def)

lemma pw_http_metrics_quiet:
  "pg_quiet w (hm_RecordRedirect pw_http_metrics n d w)" "pg_quiet w (hm_RecordAnalytics pw_http_metrics n d w)"
  by (simp_all add: pw_http_metrics_def world_http_metrics_def pg_quiet_def)

lemma pw_events_quiet: "pw_events c e w = (p, w') \<Longrightarrow> pg_quiet w w'"
proof -
  assume a: "pw_events c e w = (p, w')"
  obtain q w1 where x: "Exec pw_pool c (insert_event e) w = (q, w1)" by fastforce
  with a have "w' = w1" by (cases q) (simp_all add: pw_events_def pg_Record_def)
  moreover have "pg_db (pw_server w1) = pg_db (pw_server w)
      \<or> pg_db (pw_server w1) = snd (insert_event e (pg_db (pw_server w)))"
    using pw.Exec_step [OF x] by auto
  ultimately show ?thesis
    using pool_frame(1) [OF x] by (auto simp: pg_quiet_def insert_event_def)
qed

lemma pw_ping_db:
  assumes "pw_ping c w = (q, w')"
  shows "pg_db (pw_server w') = pg_db (pw_server w) \<and> pw_world w' = pw_world w"
proof -
  obtain p s where p: "pg_call c (\<lambda>d. (Inr (), d)) (pw_server w) = (p, s)" "w' = put_server s w"
    using assms by (auto simp: pw_ping_def lift_def split: prod.splits sum.splits)
  from pg_call_step [OF p(1)] p(2) show ?thesis by auto
qed

lemma pw_pings_fade:
  "pw_ping c w = (q, w') \<Longrightarrow> pg_faded ul w w'"
  "pw_redis_ping c w = (q, w') \<Longrightarrow> pg_faded ul w w'"
proof -
  show "pw_ping c w = (q, w') \<Longrightarrow> pg_faded ul w w'"
    by (drule pw_ping_db) (simp add: pg_faded_def pw_cached_def)
  assume "pw_redis_ping c w = (q, w')"
  then obtain v where v: "world_ping c (pw_world w) = (q, v)" "w' = put_world v w"
    by (auto simp: pw_redis_ping_def lift_iff)
  have "w_clock v = w_clock (pw_world w)"
    using v(1) by (auto simp: world_ping_def lift_def put_redis_def split: prod.splits sum.splits)
  with ping_faded [OF v(1), of ul] v(2) show "pg_faded ul w w'"
    by (simp add: pg_faded_def faded_def pw_cached_def)
qed

section \<open>Every request\<close>

lemma pg_parts [simp]:
  "srv_link (pg_server_of ul cfg) = pg_link_handler ul cfg"
  "srv_management (pg_server_of ul cfg) = pg_management_handler ul cfg"
  "pf_TimeNow (pg_platform p q) = pw_Now"
  by (simp_all add: pg_server_of_def pg_platform_def)

lemma pg_checks:
  "check \<in> set (hh_diagnostics (srv_health (pg_server_of ul cfg))) \<Longrightarrow>
     k_Checker check = Some pw_ping \<or> k_Checker check = Some pw_redis_ping"
  "hh_readiness (srv_health (pg_server_of ul cfg)) = Some pw_ping"
  by (auto simp: pg_server_of_def split: if_splits)

interpretation pg_web: http_server "pg_server_of ul cfg" "pg_platform p q" cfg "pg_serve ul (cache_of cfg)" pg_quiet
    "pg_faded ul" for ul cfg p q
proof (unfold_locales, goal_cases)
  case (17 check f c s p' s')
  then show ?case using pg_checks(1) [OF 17(1)] pw_pings_fade by auto
next
  case (18 f c s p' s')
  then show ?case using pg_checks(2) pw_pings_fade by auto
qed (auto simp: pg_link_handler_def pg_management_handler_def pg_quiet_def [of s s for s]
      intro: pg_faded_trans pg_quiet_faded pw_Now_quiet pw_events_quiet pw_http_metrics_quiet,
    auto simp: pg_quiet_def)

definition pg_linkd ::
    "(string \<Rightarrow> string) \<Rightarrow> (string \<Rightarrow> string) \<Rightarrow> (err \<Rightarrow> string) \<Rightarrow> Config \<Rightarrow> http_request \<Rightarrow> pg_world
     \<Rightarrow> answer \<times> pg_world" where
  "pg_linkd ul sha256 et cfg = handle ul sha256 (pg_platform (\<lambda>_. None) (\<lambda>u. Inr u)) et (pg_server_of ul cfg)"

definition pg_http_request :: "(string \<Rightarrow> string) \<Rightarrow> http_request \<Rightarrow> bool" where
  "pg_http_request ul r =
     (case as_request ul (ServeMux (rq_Method r) (rq_EscapedPath r)) r of None \<Rightarrow> True | Some q \<Rightarrow> pg_request ul q)"

lemma pg_linkd_step:
  assumes "pg_linkd ul sha256 et cfg r w = (a, w')" "pg_ready ul (cache_of cfg) w" "pg_http_request ul r"
  shows "pg_ready ul (cache_of cfg) w' \<and> pg_links_step (pw_stored w) (pw_stored w')"
proof (cases "as_request ul (ServeMux (rq_Method r) (rq_EscapedPath r)) r")
  case None
  from pg_faded_frame [OF pg_web.handle_other [OF assms(1) [unfolded pg_linkd_def] None]] assms(2)
  show ?thesis by simp
next
  case (Some q)
  from pg_web.handle_serving [OF assms(1) [unfolded pg_linkd_def] Some] obtain w0 x w1 where
    s: "pg_quiet w w0" "pg_serve ul (cache_of cfg) q w0 = (x, w1)" "pg_quiet w1 w'"
    unfolding pg_web.serving_def by blast
  have "pg_ready ul (cache_of cfg) w0" using pg_quiet_frame(2) [OF s(1) assms(2)] .
  moreover have "pg_request ul q" using assms(3) Some by (simp add: pg_http_request_def)
  ultimately show ?thesis
    using pg_serve_ready [OF s(2)] pg_quiet_frame(1) [OF s(1)] pg_quiet_frame [OF s(3)] by metis
qed

fun pg_linkd_all ::
    "(string \<Rightarrow> string) \<Rightarrow> (string \<Rightarrow> string) \<Rightarrow> (err \<Rightarrow> string) \<Rightarrow> Config \<Rightarrow> http_request list \<Rightarrow> pg_world
     \<Rightarrow> answer list \<times> pg_world" where
  "pg_linkd_all ul sha256 et cfg [] w = ([], w)"
| "pg_linkd_all ul sha256 et cfg (r # rs) w =
     (case pg_linkd ul sha256 et cfg r w of (a, w1) \<Rightarrow>
        (case pg_linkd_all ul sha256 et cfg rs w1 of (as, w2) \<Rightarrow> (a # as, w2)))"

lemma pg_linkd_all_step:
  "pg_linkd_all ul sha256 et cfg rs w = (as, w') \<Longrightarrow> pg_ready ul (cache_of cfg) w \<Longrightarrow>
     \<forall>r \<in> set rs. pg_http_request ul r \<Longrightarrow>
     pg_ready ul (cache_of cfg) w' \<and> pg_links_step\<^sup>*\<^sup>* (pw_stored w) (pw_stored w')"
proof (induction rs arbitrary: w as)
  case (Cons r rs)
  obtain a w1 where r: "pg_linkd ul sha256 et cfg r w = (a, w1)" by fastforce
  obtain as1 w2 where "pg_linkd_all ul sha256 et cfg rs w1 = (as1, w2)" by fastforce
  with Cons r pg_linkd_step [OF r] show ?case by (auto intro: converse_rtranclp_into_rtranclp)
qed simp

section \<open>A change over HTTP\<close>

lemma transport_answer: "transport e \<Longrightarrow> writeManagementMutationError e = http_Error ''internal server error'' 500"
  unfolding transport_def
  by (elim insertE emptyE) (simp_all add: writeManagementMutationError_def isValidationError_def)

lemma pg_named_response: "named_link q = Some (k, u) \<Longrightarrow> \<exists>x. fst (pg_serve ul cache q w) = LinkResponse x"
  by (cases q) (simp_all split: prod.split)

lemma pg_linkd_change:
  assumes "pg_linkd ul sha256 et cfg r w = (a, w')" "ServeMux (rq_Method r) (rq_EscapedPath r) = RoutePatchLink c"
    and "pg_ready ul (cache_of cfg) w" "pg_http_request ul r"
  shows "(\<exists>l x l'. parseIfMatch (TrimSpace (header_get r ''If-Match'')) = Inr (version l)
      \<and> pw_stored w (TrimSpace c) = Some (pg_keep l) \<and> ownerID l = TrimSpace (header_get r ''X-Owner-ID'')
      \<and> apply_op x l = (None, l') \<and> pw_stored w' = (pw_stored w)(TrimSpace c \<mapsto> pg_keep l')
      \<and> (a = LinkAnswer (writeManagedLinkResponse 200 l')
         \<or> a = LinkAnswer (http_Error ''internal server error'' 500)))
    \<or> (\<exists>x. a = LinkAnswer x \<and> rp_Status x \<noteq> 200 \<and> pw_stored w' = pw_stored w)"
proof (cases "patch_request ul c r")
  case None
  with assms(1,2) show ?thesis
    by (auto simp: pg_linkd_def handle_def Patch_request http_Error_def split: sum.splits)
next
  case (Some q)
  then have q: "as_request ul (ServeMux (rq_Method r) (rq_EscapedPath r)) r = Some q" using assms(2) by simp
  note n = patch_request_named [OF Some]
  obtain v where v: "expected_version q = Some v" "parseIfMatch (TrimSpace (header_get r ''If-Match'')) = Inr v"
    using n(2) by blast
  from pg_web.handle_serving [OF assms(1) [unfolded pg_linkd_def] q] obtain w0 y w1 where
    s: "pg_quiet w w0" "pg_serve ul (cache_of cfg) q w0 = (y, w1)" "pg_quiet w1 w'"
    "a = LinkAnswer (answer_to cfg q y)"
    unfolding pg_web.serving_def by blast
  obtain x where x: "y = LinkResponse x"
    using pg_named_response [OF n(1), of ul "cache_of cfg" w0] s(2) by auto
  have "pw_inv ul w0" using pg_quiet_frame(2) [OF s(1) assms(3)] by (simp add: pg_ready_def)
  moreover have "pg_request ul q" using assms(4) q by (simp add: pg_http_request_def)
  ultimately have did: "isl x \<and> pw_stored w1 = pw_stored w0
      \<or> pg_changed (TrimSpace c) (TrimSpace (header_get r ''X-Owner-ID'')) v w0 x w1"
    using pg_serve_change [OF s(2) [unfolded x] n(1) v(1)] by blast
  have st: "pw_stored w0 = pw_stored w" "pw_stored w' = pw_stored w1" using pg_quiet_frame(1) s(1,3) by auto
  have an: "answer_to cfg q (LinkResponse (Inr l)) = writeManagedLinkResponse 200 l"
    "answer_to cfg q (LinkResponse (Inl e)) = writeManagementMutationError e" for l e
    using patch_request_kind [OF Some] by auto
  from did show ?thesis
  proof
    assume "isl x \<and> pw_stored w1 = pw_stored w0"
    with st an(2) s(4) x mutation_error_status show ?thesis by (cases x) auto
  next
    assume "pg_changed (TrimSpace c) (TrimSpace (header_get r ''X-Owner-ID'')) v w0 x w1"
    then obtain l z l' where c: "pw_stored w0 (TrimSpace c) = Some (pg_keep l)"
      "ownerID l = TrimSpace (header_get r ''X-Owner-ID'')" "version l = v" "apply_op z l = (None, l')"
      "pw_stored w1 = (pw_stored w0)(TrimSpace c \<mapsto> pg_keep l')"
      "case x of Inr l'' \<Rightarrow> l'' = l' | Inl e \<Rightarrow> transport e"
      unfolding pg_changed_def by blast
    then have "a = LinkAnswer (writeManagedLinkResponse 200 l')
        \<or> a = LinkAnswer (http_Error ''internal server error'' 500)"
      using s(4) x an transport_answer by (cases x) auto
    with c st v(2) show ?thesis by metis
  qed
qed

section \<open>The start\<close>

definition pg_started :: "ctx \<Rightarrow> pg_world \<Rightarrow> pg_world" where
  "pg_started c w = snd (pw_new_metrics (snd (pw_ping c w)))"

lemma pg_started_quiet:
  "pg_quiet w (pg_started c w)" "pg_quiet (pg_started c w) w"
proof -
  obtain q w1 where p: "pw_ping c w = (q, w1)" by fastforce
  have s: "pw_server (pg_started c w) = pw_server w1" "w_clock (pw_world (pg_started c w)) = w_clock (pw_world w1)"
    "w_redis (pw_world (pg_started c w)) = w_redis (pw_world w1)"
    by (simp_all add: pg_started_def p pw_new_metrics_def new_metrics_def world_Now_def)
  with pw_ping_db [OF p] show "pg_quiet w (pg_started c w)" "pg_quiet (pg_started c w) w"
    by (simp_all add: pg_quiet_def)
qed

lemma pg_started_ready: "pg_ready ul cache (pg_started c w) \<longleftrightarrow> pg_ready ul cache w"
  using pg_quiet_frame(2) pg_started_quiet by blast

lemma pg_started_same:
  "pg_db (pw_server (pg_started c w)) = pg_db (pw_server w)" "pw_cached ul (pg_started c w) = pw_cached ul w"
proof -
  obtain q w1 where p: "pw_ping c w = (q, w1)" by fastforce
  then show "pg_db (pw_server (pg_started c w)) = pg_db (pw_server w)"
    using pw_ping_db [OF p] by (simp add: pg_started_def pw_new_metrics_def)
  show "pw_cached ul (pg_started c w) = pw_cached ul w"
    using pg_started_quiet(1) by (simp add: pg_quiet_def pw_cached_def cached_for_eq)
qed

lemma pg_start_fails:
  assumes "Load ul getenv = Inr cfg" "cfg_Storage cfg = StoragePostgres" "parse_pg (cfg_DatabaseURL cfg) = None"
    and "pw_ping ctx w = (Some e, w1)"
  shows "start_run ul (pg_platform parse_pg parse_redis) getenv ctx w
    = (Inl (Wrap ''build storage'' (Wrap ''ping postgres'' e)), w1)"
  using assms
  by (simp add: start_run_def buildStorage_def pg_platform_def OpenPool_def pw_open_def StoragePostgres_def
      StorageMemory_def)

end
