(* ===== verification/Migrations.thy ===== *)
theory Migrations
  imports GoStrings "HOL-Library.Multiset"
begin

text \<open>
  \<^verbatim>\<open>internal/storage/postgres/migrations.go\<close> and \<^verbatim>\<open>cmd/migrate/main.go\<close>: the migrations of a
  directory are applied to the database in the order of their versions, each in a transaction that
  also records it.  The directory, the connection and the hash (\<open>sha256\<close>, in hexadecimal) are
  parameters.  Messages of errors keep their constant parts only.
\<close>

section \<open>The migrations of a directory\<close>

record migration =
  mg_version :: int
  mg_name :: string
  mg_sql :: string
  mg_checksum :: string

record dir_entry =
  en_Name :: string
  en_IsDir :: bool

record directory =
  ReadDir :: "err + dir_entry list"
  ReadFile :: "string \<Rightarrow> err + string"

definition migrationAdvisoryLockID :: int where
  "migrationAdvisoryLockID = 824662419235"

text \<open>The submatch of the pattern \<open>^([0-9]+)_.+\.sql$\<close>; the dot matches no newline.\<close>

definition migrationFilenamePattern :: "string \<Rightarrow> string option" where
  "migrationFilenamePattern name =
     (let ds = takeWhile is_digit name;
          r = dropWhile is_digit name;
          stem = take (length r - 4) r
      in if ds \<noteq> [] \<and> HasPrefix r ''_'' \<and> 6 \<le> length r \<and> drop (length r - 4) r = ''.sql''
           \<and> CHR 0x0A \<notin> set stem
         then Some ds else None)"

text \<open>The loop over the entries; \<open>versions\<close> are those seen so far.\<close>

fun discover_loop ::
    "(string \<Rightarrow> string) \<Rightarrow> directory \<Rightarrow> (int \<Rightarrow> string option) \<Rightarrow> migration list \<Rightarrow> dir_entry list
     \<Rightarrow> err + migration list" where
  "discover_loop sha256 dir versions migrations [] = Inr migrations"
| "discover_loop sha256 dir versions migrations (entry # entries) =
     (if en_IsDir entry then discover_loop sha256 dir versions migrations entries
      else
        (case migrationFilenamePattern (en_Name entry) of
           None \<Rightarrow> discover_loop sha256 dir versions migrations entries
         | Some digits \<Rightarrow>
             (case ParseInt digits of
                Inl _ \<Rightarrow> Inl (Plain ''invalid migration version'')
              | Inr version \<Rightarrow>
                  if version \<le> 0 then Inl (Plain ''invalid migration version'')
                  else if versions version \<noteq> None then Inl (Plain ''duplicate migration version'')
                  else
                    (case ReadFile dir (en_Name entry) of
                       Inl e \<Rightarrow> Inl (Wrap ''read migration'' e)
                     | Inr contents \<Rightarrow>
                         discover_loop sha256 dir (versions(version \<mapsto> en_Name entry))
                           (migrations @
                              [\<lparr>mg_version = version, mg_name = en_Name entry, mg_sql = contents,
                                mg_checksum = sha256 contents\<rparr>])
                           entries))))"

definition discoverMigrations :: "(string \<Rightarrow> string) \<Rightarrow> directory \<Rightarrow> err + migration list" where
  "discoverMigrations sha256 dir =
     (case ReadDir dir of
        Inl e \<Rightarrow> Inl (Wrap ''read migrations directory'' e)
      | Inr entries \<Rightarrow>
          (case discover_loop sha256 dir Map.empty [] entries of
             Inl e \<Rightarrow> Inl e
           | Inr migrations \<Rightarrow> Inr (sort_key mg_version migrations)))"

section \<open>Applying them\<close>

text \<open>The calls on a connection, in the order the program makes them.\<close>

record 's migration_connection =
  mc_lock :: "int \<Rightarrow> 's \<Rightarrow> err option \<times> 's"
  mc_unlock :: "int \<Rightarrow> 's \<Rightarrow> err option \<times> 's"
  mc_create_history :: "'s \<Rightarrow> err option \<times> 's"
  mc_checksum :: "int \<Rightarrow> 's \<Rightarrow> (err + string) \<times> 's"
  mc_begin :: "'s \<Rightarrow> err option \<times> 's"
  mc_execute :: "string \<Rightarrow> 's \<Rightarrow> err option \<times> 's"
  mc_record :: "int \<Rightarrow> string \<Rightarrow> string \<Rightarrow> 's \<Rightarrow> err option \<times> 's"
  mc_commit :: "'s \<Rightarrow> err option \<times> 's"
  mc_rollback :: "'s \<Rightarrow> err option \<times> 's"
  mc_close :: "'s \<Rightarrow> 's"

definition NoRows :: err where
  "NoRows = Foreign ''no rows in result set''"

definition migrationWasApplied :: "'s migration_connection \<Rightarrow> migration \<Rightarrow> 's \<Rightarrow> (err + bool) \<times> 's" where
  "migrationWasApplied conn candidate s =
     (case mc_checksum conn (mg_version candidate) s of
        (Inr storedChecksum, s1) \<Rightarrow>
          if storedChecksum \<noteq> mg_checksum candidate
          then (Inl (Plain ''migration checksum changed after it was applied''), s1)
          else (Inr True, s1)
      | (Inl e, s1) \<Rightarrow>
          if errors_is e NoRows then (Inr False, s1)
          else (Inl (Wrap ''read migration history'' e), s1))"

text \<open>The rollback is deferred: after a commit it fails and does nothing.\<close>

definition applyMigration :: "'s migration_connection \<Rightarrow> migration \<Rightarrow> 's \<Rightarrow> err option \<times> 's" where
  "applyMigration conn candidate s =
     (case mc_begin conn s of
        (Some e, s1) \<Rightarrow> (Some (Wrap ''begin migration'' e), s1)
      | (None, s1) \<Rightarrow>
          (let (q, s2) =
             (case mc_execute conn (mg_sql candidate) s1 of
                (Some e, s2) \<Rightarrow> (Some (Wrap ''execute migration'' e), s2)
              | (None, s2) \<Rightarrow>
                  (case mc_record conn (mg_version candidate) (mg_name candidate) (mg_checksum candidate) s2 of
                     (Some e, s3) \<Rightarrow> (Some (Wrap ''record migration'' e), s3)
                   | (None, s3) \<Rightarrow>
                       (case mc_commit conn s3 of
                          (Some e, s4) \<Rightarrow> (Some (Wrap ''commit migration'' e), s4)
                        | (None, s4) \<Rightarrow> (None, s4))))
           in case mc_rollback conn s2 of (_, s3) \<Rightarrow> (q, s3)))"

fun apply_loop ::
    "'s migration_connection \<Rightarrow> migration list \<Rightarrow> string list \<Rightarrow> 's \<Rightarrow> (err + string list) \<times> 's" where
  "apply_loop conn [] applied s = (Inr applied, s)"
| "apply_loop conn (candidate # rest) applied s =
     (case migrationWasApplied conn candidate s of
        (Inl e, s1) \<Rightarrow> (Inl e, s1)
      | (Inr True, s1) \<Rightarrow> apply_loop conn rest applied s1
      | (Inr False, s1) \<Rightarrow>
          (case applyMigration conn candidate s1 of
             (Some e, s2) \<Rightarrow> (Inl e, s2)
           | (None, s2) \<Rightarrow> apply_loop conn rest (applied @ [mg_name candidate]) s2))"

definition releaseMigrationLock :: "'s migration_connection \<Rightarrow> 's \<Rightarrow> 's" where
  "releaseMigrationLock conn s = snd (mc_unlock conn migrationAdvisoryLockID s)"

text \<open>\<open>parse\<close> and \<open>connect\<close> are \<open>pgx.ParseConfig\<close> and \<open>pgx.ConnectConfig\<close>.\<close>

definition RunMigrations ::
    "(string \<Rightarrow> string) \<Rightarrow> (string \<Rightarrow> directory) \<Rightarrow> (string \<Rightarrow> err + 'cfg)
     \<Rightarrow> ('cfg \<Rightarrow> 's \<Rightarrow> (err + 's migration_connection) \<times> 's)
     \<Rightarrow> string \<Rightarrow> string \<Rightarrow> 's \<Rightarrow> (err + string list) \<times> 's" where
  "RunMigrations sha256 open_dir parse connect databaseURL path s =
     (case discoverMigrations sha256 (open_dir path) of
        Inl e \<Rightarrow> (Inl e, s)
      | Inr migrations \<Rightarrow>
          (case parse databaseURL of
             Inl e \<Rightarrow> (Inl (Wrap ''parse database URL'' e), s)
           | Inr config \<Rightarrow>
               (case connect config s of
                  (Inl e, s1) \<Rightarrow> (Inl (Wrap ''connect to Postgres'' e), s1)
                | (Inr conn, s1) \<Rightarrow>
                    (case mc_lock conn migrationAdvisoryLockID s1 of
                       (Some e, s2) \<Rightarrow> (Inl (Wrap ''acquire migration lock'' e), mc_close conn s2)
                     | (None, s2) \<Rightarrow>
                         (let (r, s3) =
                            (case mc_create_history conn s2 of
                               (Some e, s3) \<Rightarrow> (Inl (Wrap ''create migration history'' e), s3)
                             | (None, s3) \<Rightarrow> apply_loop conn migrations [] s3)
                          in (r, mc_close conn (releaseMigrationLock conn s3)))))))"

text \<open>\<^verbatim>\<open>cmd/migrate/main.go\<close>: the environment names the database and the directory.\<close>

definition defaultMigrationsDirectory :: string where
  "defaultMigrationsDirectory = ''migrations/postgres''"

definition migrate_run ::
    "(string \<Rightarrow> string) \<Rightarrow> (string \<Rightarrow> directory) \<Rightarrow> (string \<Rightarrow> err + 'cfg)
     \<Rightarrow> ('cfg \<Rightarrow> 's \<Rightarrow> (err + 's migration_connection) \<times> 's)
     \<Rightarrow> (string \<Rightarrow> string) \<Rightarrow> 's \<Rightarrow> (err + string list) \<times> 's" where
  "migrate_run sha256 open_dir parse connect getenv s =
     (let databaseURL = TrimSpace (getenv ''TINYURL_DATABASE_URL'')
      in if databaseURL = [] then (Inl (Plain ''TINYURL_DATABASE_URL is required''), s)
         else
           let migrationsDirectory = TrimSpace (getenv ''TINYURL_MIGRATIONS_DIR'');
               migrationsDirectory =
                 (if migrationsDirectory = [] then defaultMigrationsDirectory else migrationsDirectory)
           in RunMigrations sha256 open_dir parse connect databaseURL migrationsDirectory s)"

section \<open>What is discovered\<close>

definition regular :: "dir_entry \<Rightarrow> bool" where
  "regular en \<longleftrightarrow> \<not> en_IsDir en \<and> migrationFilenamePattern (en_Name en) \<noteq> None"

text \<open>A migration as its file has it.\<close>

definition from_file :: "(string \<Rightarrow> string) \<Rightarrow> directory \<Rightarrow> migration \<Rightarrow> bool" where
  "from_file sha256 dir m \<longleftrightarrow>
     (\<exists>ds. migrationFilenamePattern (mg_name m) = Some ds \<and> ParseInt ds = Inr (mg_version m))
     \<and> 0 < mg_version m \<and> ReadFile dir (mg_name m) = Inr (mg_sql m) \<and> mg_checksum m = sha256 (mg_sql m)"

lemma discover_loop_sound:
  "discover_loop sha256 dir vs acc entries = Inr ms \<Longrightarrow> dom vs = mg_version ` set acc \<Longrightarrow>
     distinct (map mg_version acc) \<Longrightarrow>
     \<exists>new. ms = acc @ new \<and> map mg_name new = map en_Name (filter regular entries)
       \<and> distinct (map mg_version ms) \<and> (\<forall>m \<in> set new. from_file sha256 dir m)"
proof (induction sha256 dir vs acc entries rule: discover_loop.induct)
  case (2 sha256 dir vs acc en entries)
  show ?case
  proof (cases "regular en")
    case False
    with 2 show ?thesis by (auto simp: regular_def split: if_splits option.splits)
  next
    case True
    then obtain ds where ds: "\<not> en_IsDir en" "migrationFilenamePattern (en_Name en) = Some ds"
      by (auto simp: regular_def)
    with "2.prems"(1) obtain v sql where v: "ParseInt ds = Inr v" "\<not> v \<le> 0" "vs v = None"
      "ReadFile dir (en_Name en) = Inr sql"
      by (auto split: sum.splits if_splits)
    define m where "m = \<lparr>mg_version = v, mg_name = en_Name en, mg_sql = sql, mg_checksum = sha256 sql\<rparr>"
    have r: "discover_loop sha256 dir (vs(v \<mapsto> en_Name en)) (acc @ [m]) entries = Inr ms"
      using "2.prems"(1) ds v by (simp add: m_def)
    have new: "v \<notin> mg_version ` set acc" using v(3) "2.prems"(2) by auto
    have "dom (vs(v \<mapsto> en_Name en)) = mg_version ` set (acc @ [m])" "distinct (map mg_version (acc @ [m]))"
      using "2.prems"(2,3) new by (simp_all add: m_def)
    from "2.IH"(3) [OF ds v(1,2) _ v(4) r [unfolded m_def] this [unfolded m_def]] v(3)
    obtain xs where "ms = (acc @ [m]) @ xs" "map mg_name xs = map en_Name (filter regular entries)"
      "distinct (map mg_version ms)" "\<forall>m \<in> set xs. from_file sha256 dir m"
      unfolding m_def by blast
    moreover have "from_file sha256 dir m" using ds v by (simp add: from_file_def m_def)
    moreover have "mg_name m = en_Name en" by (simp add: m_def)
    ultimately show ?thesis using True by (intro exI [of _ "m # xs"]) simp
  qed
qed simp

lemma discoverMigrations_ok:
  assumes "discoverMigrations sha256 dir = Inr ms" "ReadDir dir = Inr entries"
  shows "sorted_wrt (<) (map mg_version ms) \<and> (\<forall>m \<in> set ms. from_file sha256 dir m)
    \<and> mg_name ` set ms = en_Name ` set (filter regular entries) \<and> length ms = length (filter regular entries)"
proof -
  obtain xs where xs: "discover_loop sha256 dir Map.empty [] entries = Inr xs" "ms = sort_key mg_version xs"
    using assms by (auto simp: discoverMigrations_def split: sum.splits)
  from discover_loop_sound [OF xs(1)] have n: "map mg_name xs = map en_Name (filter regular entries)"
    "distinct (map mg_version xs)" "\<forall>m \<in> set xs. from_file sha256 dir m"
    by auto
  have "mset (map mg_version ms) = mset (map mg_version xs)" by (simp add: xs(2))
  then have "distinct (map mg_version ms)" using n(2) mset_eq_imp_distinct_iff by metis
  then have "sorted_wrt (<) (map mg_version ms)"
    by (simp add: strict_sorted_iff xs(2))
  moreover have "mg_name ` set xs = en_Name ` set (filter regular entries)"
    using n(1) by (metis set_map)
  moreover have "length xs = length (filter regular entries)" using n(1) by (metis length_map)
  ultimately show ?thesis using n(3) by (simp add: xs(2))
qed

section \<open>What is applied\<close>

text \<open>
  What the database keeps: the recorded migrations, and the scripts that have been run, in their
  order.  A transaction works on a copy, which a commit makes the new state as a whole.
\<close>

record migration_state =
  history :: "int \<Rightarrow> (string \<times> string) option"
  scripts :: "string list"

definition apply_one :: "migration \<Rightarrow> migration_state \<Rightarrow> migration_state" where
  "apply_one m st =
     \<lparr>history = (history st)(mg_version m \<mapsto> (mg_name m, mg_checksum m)),
      scripts = scripts st @ [mg_sql m]\<rparr>"

text \<open>The migrations a state has not recorded.\<close>

definition missing :: "migration_state \<Rightarrow> migration list \<Rightarrow> migration list" where
  "missing st ms = filter (\<lambda>m. history st (mg_version m) = None) ms"

lemma missing_apply:
  "mg_version m \<notin> mg_version ` set ms \<Longrightarrow> missing (apply_one m st) ms = missing st ms"
  unfolding missing_def by (rule filter_cong [OF refl]) (metis apply_one_def fun_upd_other imageI migration_state.select_convs(1))

definition recorded_in :: "migration_state \<Rightarrow> migration \<Rightarrow> bool" where
  "recorded_in st m \<longleftrightarrow> (\<exists>n. history st (mg_version m) = Some (n, mg_checksum m))"

lemma history_fold:
  "v \<notin> mg_version ` set ms \<Longrightarrow> history (fold apply_one ms st) v = history st v"
  by (induction ms arbitrary: st) (auto simp: apply_one_def)

lemma recorded_fold:
  "recorded_in st m \<Longrightarrow> mg_version m \<notin> mg_version ` set ms \<Longrightarrow> recorded_in (fold apply_one ms st) m"
  by (simp add: recorded_in_def history_fold)

lemma recorded_before:
  assumes "recorded_in (fold apply_one (missing st ms) st) m" "history st (mg_version m) \<noteq> None"
  shows "recorded_in st m"
proof -
  have "mg_version m \<notin> mg_version ` set (missing st ms)" using assms(2) by (auto simp: missing_def)
  with assms(1) show ?thesis by (simp add: recorded_in_def history_fold)
qed

locale migration_database =
  fixes conn :: "'s migration_connection"
    and committed :: "'s \<Rightarrow> migration_state"
    and pending :: "'s \<Rightarrow> migration_state"
  assumes lock: "mc_lock conn i s = (q, s') \<Longrightarrow> committed s' = committed s"
    and unlock: "mc_unlock conn i s = (q, s') \<Longrightarrow> committed s' = committed s"
    and create_history: "mc_create_history conn s = (q, s') \<Longrightarrow> committed s' = committed s"
    and close: "committed (mc_close conn s) = committed s"
    and checksum:
      "mc_checksum conn v s = (r, s') \<Longrightarrow>
         committed s' = committed s \<and>
         (r = (case history (committed s) v of None \<Rightarrow> Inl NoRows | Some (_, c) \<Rightarrow> Inr c)
          \<or> (\<exists>e. r = Inl e \<and> \<not> errors_is e NoRows))"
    and start:
      "mc_begin conn s = (q, s') \<Longrightarrow>
         committed s' = committed s \<and> (q = None \<longrightarrow> pending s' = committed s)"
    and execute:
      "mc_execute conn sql s = (q, s') \<Longrightarrow>
         committed s' = committed s \<and>
         (q = None \<longrightarrow> pending s' = (pending s)\<lparr>scripts := scripts (pending s) @ [sql]\<rparr>)"
    and record_row:
      "mc_record conn v n c s = (q, s') \<Longrightarrow>
         committed s' = committed s \<and>
         (q = None \<longrightarrow> pending s' = (pending s)\<lparr>history := (history (pending s))(v \<mapsto> (n, c))\<rparr>)"
    and commit:
      "mc_commit conn s = (q, s') \<Longrightarrow>
         committed s' = pending s \<or> q \<noteq> None \<and> committed s' = committed s"
    and rollback: "mc_rollback conn s = (q, s') \<Longrightarrow> committed s' = committed s"
begin

lemma applyMigration_atomic:
  assumes "applyMigration conn m s = (q, s')"
  shows "committed s' = apply_one m (committed s) \<or> q \<noteq> None \<and> committed s' = committed s"
proof -
  obtain q1 s1 where b: "mc_begin conn s = (q1, s1)" by fastforce
  obtain q2 s2 where x: "mc_execute conn (mg_sql m) s1 = (q2, s2)" by fastforce
  obtain q3 s3 where h: "mc_record conn (mg_version m) (mg_name m) (mg_checksum m) s2 = (q3, s3)" by fastforce
  obtain q4 s4 where c: "mc_commit conn s3 = (q4, s4)" by fastforce
  have rb: "committed (snd (mc_rollback conn t)) = committed t" for t
    using rollback by (metis prod.collapse)
  show ?thesis
  proof (cases "q1 = None \<and> q2 = None \<and> q3 = None")
    case True
    then have "pending s3 = apply_one m (committed s)" "committed s3 = committed s"
      using start [OF b] execute [OF x] record_row [OF h] by (simp_all add: apply_one_def)
    moreover have "s' = snd (mc_rollback conn s4)" "q = None \<longleftrightarrow> q4 = None"
      using assms b x h c True by (auto simp: applyMigration_def split: prod.splits option.splits)
    ultimately show ?thesis using commit [OF c] rb by auto
  next
    case False
    then have "q \<noteq> None" "s' \<in> {s1, snd (mc_rollback conn s2), snd (mc_rollback conn s3)}"
      using assms b x h by (auto simp: applyMigration_def split: prod.splits option.splits)
    then show ?thesis
      using start [OF b] execute [OF x] record_row [OF h] rb by auto
  qed
qed

lemma migrationWasApplied_ok:
  assumes "migrationWasApplied conn m s = (r, s')"
  shows "committed s' = committed s"
    "r = Inr True \<Longrightarrow> \<exists>n. history (committed s) (mg_version m) = Some (n, mg_checksum m)"
    "r = Inr False \<Longrightarrow> history (committed s) (mg_version m) = None"
proof -
  obtain p s1 where p: "mc_checksum conn (mg_version m) s = (p, s1)" by fastforce
  note c = checksum [OF p]
  show "committed s' = committed s"
    using assms p c by (auto simp: migrationWasApplied_def split: sum.splits if_splits)
  show "r = Inr True \<Longrightarrow> \<exists>n. history (committed s) (mg_version m) = Some (n, mg_checksum m)"
    "r = Inr False \<Longrightarrow> history (committed s) (mg_version m) = None"
    using assms p c
    by (auto simp: migrationWasApplied_def NoRows_def split: sum.splits if_splits option.splits)
qed

text \<open>A run that succeeds applies what is missing, in the order given; one that fails applies a prefix
  of it.\<close>

lemma apply_loop_applies:
  "apply_loop conn ms applied s = (r, s') \<Longrightarrow> distinct (map mg_version ms) \<Longrightarrow>
     (case r of
        Inr names \<Rightarrow>
          names = applied @ map mg_name (missing (committed s) ms)
          \<and> committed s' = fold apply_one (missing (committed s) ms) (committed s)
          \<and> (\<forall>m \<in> set ms. recorded_in (committed s') m)
      | Inl _ \<Rightarrow>
          \<exists>n. committed s' = fold apply_one (take n (missing (committed s) ms)) (committed s))"
proof (induction ms arbitrary: applied s)
  case Nil
  then show ?case by (auto simp: missing_def)
next
  case (Cons m ms)
  obtain w s1 where w: "migrationWasApplied conn m s = (w, s1)" by fastforce
  note a = migrationWasApplied_ok [OF w]
  have ms: "distinct (map mg_version ms)" "mg_version m \<notin> mg_version ` set ms"
    using Cons.prems(2) by auto
  have sub: "mg_version m \<notin> mg_version ` set (missing st ms)" for st
    using ms(2) by (auto simp: missing_def)
  consider e where "w = Inl e" | "w = Inr True" | "w = Inr False" by (cases w) auto
  then show ?case
  proof cases
    case 1
    with Cons.prems w a(1) have "r = Inl e" "committed s' = fold apply_one (take 0 (missing (committed s) (m # ms))) (committed s)"
      by simp_all
    then have "\<exists>n. committed s' = fold apply_one (take n (missing (committed s) (m # ms))) (committed s)"
      by blast
    with \<open>r = Inl e\<close> show ?thesis by simp
  next
    case 2
    with Cons.prems w have l: "apply_loop conn ms applied s1 = (r, s')" by simp
    from a(2) 2 have "recorded_in (committed s) m" "missing (committed s) (m # ms) = missing (committed s) ms"
      by (auto simp: recorded_in_def missing_def)
    with Cons.IH [OF l ms(1)] recorded_fold [OF _ sub] a(1) show ?thesis by (auto split: sum.splits)
  next
    case 3
    obtain q s2 where q: "applyMigration conn m s1 = (q, s2)" by fastforce
    from a(3) 3 have mi: "missing (committed s) (m # ms) = m # missing (committed s) ms"
      by (simp add: missing_def)
    note at = applyMigration_atomic [OF q, unfolded a(1)]
    show ?thesis
    proof (cases q)
      case (Some e)
      with Cons.prems w 3 q have r: "r = Inl e" "s' = s2" by simp_all
      from at have "\<exists>n. committed s2 = fold apply_one (take n (m # missing (committed s) ms)) (committed s)"
      proof
        assume "committed s2 = apply_one m (committed s)"
        then show ?thesis by (intro exI [of _ 1]) simp
      next
        assume "q \<noteq> None \<and> committed s2 = committed s"
        then show ?thesis by (intro exI [of _ 0]) simp
      qed
      then show ?thesis using r mi by simp
    next
      case None
      with Cons.prems w 3 q have l: "apply_loop conn ms (applied @ [mg_name m]) s2 = (r, s')" by simp
      from at None have c: "committed s2 = apply_one m (committed s)" by simp
      then have m2: "missing (committed s2) ms = missing (committed s) ms"
        using missing_apply [OF ms(2)] by simp
      have "recorded_in (committed s2) m" by (simp add: c recorded_in_def apply_one_def)
      then have rec: "recorded_in (fold apply_one (missing (committed s) ms) (committed s2)) m"
        using recorded_fold [OF _ sub] by blast
      show ?thesis
      proof (cases r)
        case (Inr names)
        with Cons.IH [OF l ms(1)] m2 c mi rec show ?thesis by auto
      next
        case (Inl e)
        with Cons.IH [OF l ms(1)] obtain n where
          "committed s' = fold apply_one (take n (missing (committed s2) ms)) (committed s2)" by auto
        then have "committed s' = fold apply_one (take (Suc n) (missing (committed s) (m # ms))) (committed s)"
          by (simp add: m2 [unfolded c] c mi)
        with Inl show ?thesis by auto
      qed
    qed
  qed
qed

lemma RunMigrations_applies:
  assumes "RunMigrations sha256 open_dir parse connect url path s = (r, s')"
    and "\<forall>cfg t. committed (snd (connect cfg t)) = committed t \<and> (\<forall>x. fst (connect cfg t) = Inr x \<longrightarrow> x = conn)"
  shows "(\<exists>e. r = Inl e \<and> committed s' = committed s) \<or>
    (\<exists>ms. discoverMigrations sha256 (open_dir path) = Inr ms \<and>
      (case r of
         Inr names \<Rightarrow>
           names = map mg_name (missing (committed s) ms)
           \<and> committed s' = fold apply_one (missing (committed s) ms) (committed s)
           \<and> (\<forall>m \<in> set ms. recorded_in (committed s') m)
       | Inl _ \<Rightarrow>
           \<exists>n. committed s' = fold apply_one (take n (missing (committed s) ms)) (committed s)))"
proof (cases "discoverMigrations sha256 (open_dir path)")
  case (Inl e)
  with assms(1) show ?thesis by (auto simp: RunMigrations_def)
next
  case (Inr ms)
  note d = this
  have distinct: "distinct (map mg_version ms)"
    using d discoverMigrations_ok [OF d] by (auto simp: discoverMigrations_def strict_sorted_iff split: sum.splits)
  show ?thesis
  proof (cases "parse url")
    case (Inl e)
    with assms(1) d show ?thesis by (auto simp: RunMigrations_def)
  next
    case (Inr cfg)
    note p = this
    consider (refused) e s1 where "connect cfg s = (Inl e, s1)" "committed s1 = committed s"
      | (connected) s1 where "connect cfg s = (Inr conn, s1)" "committed s1 = committed s"
      using assms(2) by (metis prod.collapse sum.exhaust)
    then show ?thesis
    proof cases
      case refused
      with assms(1) d p show ?thesis by (auto simp: RunMigrations_def)
    next
      case connected
      obtain q s2 where l: "mc_lock conn migrationAdvisoryLockID s1 = (q, s2)" by fastforce
      note cl = lock [OF l] connected(2)
      show ?thesis
      proof (cases q)
        case (Some e)
        with assms(1) d p connected(1) l cl close show ?thesis by (auto simp: RunMigrations_def)
      next
        case None
        obtain q3 s3 where h: "mc_create_history conn s2 = (q3, s3)" by fastforce
        have released: "committed (mc_close conn (releaseMigrationLock conn t)) = committed t" for t
          using unlock [of migrationAdvisoryLockID t] close by (simp add: releaseMigrationLock_def prod_eq_iff)
        note c3 = create_history [OF h] cl
        show ?thesis
        proof (cases q3)
          case (Some e)
          with assms(1) d p connected(1) l None h c3 released show ?thesis by (auto simp: RunMigrations_def)
        next
          case n3: None
          obtain r4 s4 where a: "apply_loop conn ms [] s3 = (r4, s4)" by fastforce
          with assms(1) d p connected(1) l None h n3 have e: "r = r4" "committed s' = committed s4"
            by (auto simp: RunMigrations_def released)
          have "committed s3 = committed s" using c3 by simp
          from apply_loop_applies [OF a distinct, unfolded this append_Nil] show ?thesis
            unfolding e using d by auto
        qed
      qed
    qed
  qed
qed

end

section \<open>A database server\<close>

text \<open>
  A server with transactions, reached through a network that may lose a request or a reply.
  \<open>sv_accepts\<close> tells which scripts it can execute; \<open>sv_tx\<close> is the state of the open transaction.
\<close>

record migration_server =
  sv_state :: migration_state
  sv_tx :: migration_state
  sv_locked :: bool
  sv_calls :: nat
  sv_network :: "nat \<Rightarrow> network"
  sv_accepts :: "string \<Rightarrow> bool"

definition lost :: err where
  "lost = Foreign ''unexpected EOF''"

definition sv_call ::
    "(err \<Rightarrow> 'a) \<Rightarrow> (migration_server \<Rightarrow> 'a \<times> migration_server) \<Rightarrow> migration_server \<Rightarrow> 'a \<times> migration_server" where
  "sv_call failed f s =
     (let s1 = s\<lparr>sv_calls := Suc (sv_calls s)\<rparr>
      in case sv_network s (sv_calls s) of
           RequestLost \<Rightarrow> (failed lost, s1)
         | ReplyLost \<Rightarrow> (failed lost, snd (f s1))
         | Delivered \<Rightarrow> f s1)"

definition migration_conn :: "migration_server migration_connection" where
  "migration_conn =
     \<lparr>mc_lock = (\<lambda>i. sv_call Some (\<lambda>s. (None, s\<lparr>sv_locked := True\<rparr>))),
      mc_unlock = (\<lambda>i. sv_call Some (\<lambda>s. (None, s\<lparr>sv_locked := False\<rparr>))),
      mc_create_history = sv_call Some (\<lambda>s. (None, s)),
      mc_checksum = (\<lambda>v. sv_call Inl (\<lambda>s.
        (case history (sv_state s) v of None \<Rightarrow> Inl NoRows | Some (_, c) \<Rightarrow> Inr c, s))),
      mc_begin = sv_call Some (\<lambda>s. (None, s\<lparr>sv_tx := sv_state s\<rparr>)),
      mc_execute = (\<lambda>sql. sv_call Some (\<lambda>s.
        if sv_accepts s sql then (None, s\<lparr>sv_tx := (sv_tx s)\<lparr>scripts := scripts (sv_tx s) @ [sql]\<rparr>\<rparr>)
        else (Some (Foreign ''syntax error''), s))),
      mc_record = (\<lambda>v n c. sv_call Some (\<lambda>s.
        if history (sv_tx s) v = None
        then (None, s\<lparr>sv_tx := (sv_tx s)\<lparr>history := (history (sv_tx s))(v \<mapsto> (n, c))\<rparr>\<rparr>)
        else (Some (Foreign ''23505''), s))),
      mc_commit = sv_call Some (\<lambda>s. (None, s\<lparr>sv_state := sv_tx s\<rparr>)),
      mc_rollback = sv_call Some (\<lambda>s. (None, s)),
      mc_close = (\<lambda>s. s\<lparr>sv_locked := False\<rparr>)\<rparr>"

lemma sv_call_cases:
  assumes "sv_call failed f s = (q, s')"
  shows "q = failed lost \<and> s' = s\<lparr>sv_calls := Suc (sv_calls s)\<rparr>
    \<or> q = failed lost \<and> s' = snd (f (s\<lparr>sv_calls := Suc (sv_calls s)\<rparr>))
    \<or> (q, s') = f (s\<lparr>sv_calls := Suc (sv_calls s)\<rparr>)"
  using assms by (auto simp: sv_call_def Let_def split: network.splits)

interpretation sv: migration_database migration_conn sv_state sv_tx
proof (unfold_locales, goal_cases)
  case (5 v s r s')
  then show ?case
    by (auto simp: migration_conn_def lost_def NoRows_def dest!: sv_call_cases split: option.splits)
qed (auto simp: migration_conn_def dest!: sv_call_cases split: if_splits)

definition sv_connect :: "'cfg \<Rightarrow> migration_server \<Rightarrow> (err + migration_server migration_connection) \<times> migration_server" where
  "sv_connect cfg =
     sv_call Inl (\<lambda>s. (Inr migration_conn, s))"

lemma sv_connect_frame:
  "\<forall>cfg t. sv_state (snd (sv_connect cfg t)) = sv_state t \<and> (\<forall>x. fst (sv_connect cfg t) = Inr x \<longrightarrow> x = migration_conn)"
  by (auto simp: sv_connect_def sv_call_def Let_def split: network.splits)

section \<open>The properties\<close>

text \<open>C28: the migrations of a directory are its regular files named as the pattern asks, each once, with
  the number their name starts with, their content and its hash, in strictly increasing order of these
  numbers.\<close>

theorem discoverMigrations_sound:
  assumes "discoverMigrations sha256 dir = Inr ms" "ReadDir dir = Inr entries"
  shows "sorted_wrt (<) (map mg_version ms) \<and> (\<forall>m \<in> set ms. from_file sha256 dir m)
    \<and> mg_name ` set ms = en_Name ` set (filter regular entries) \<and> length ms = length (filter regular entries)"
  using assms by (rule discoverMigrations_ok)

definition sample_files :: directory where
  "sample_files =
     \<lparr>ReadDir = Inr (map (\<lambda>n. \<lparr>en_Name = n, en_IsDir = False\<rparr>) [''000010_b.sql'', ''000002_a.sql'', ''README.md'']),
      ReadFile = (\<lambda>n. Inr (''create '' @ n))\<rparr>"

lemma sample_discovered:
  "discoverMigrations id sample_files = Inr
     [\<lparr>mg_version = 2, mg_name = ''000002_a.sql'', mg_sql = ''create 000002_a.sql'', mg_checksum = ''create 000002_a.sql''\<rparr>,
      \<lparr>mg_version = 10, mg_name = ''000010_b.sql'', mg_sql = ''create 000010_b.sql'', mg_checksum = ''create 000010_b.sql''\<rparr>]"
  by code_simp

lemma discoverMigrations_sound_witness:
  "length [''000002_a.sql'', ''000010_b.sql''] =
     length (filter regular (map (\<lambda>n. \<lparr>en_Name = n, en_IsDir = False\<rparr>) [''000010_b.sql'', ''000002_a.sql'', ''README.md'']))"
  using discoverMigrations_sound [OF sample_discovered, unfolded sample_files_def, simplified] by simp

text \<open>C17: a run of the migrations that succeeds has applied exactly the ones that were not recorded, in
  the order of their versions, returns their names, and leaves every migration of the directory
  recorded with its checksum (so none recorded before has changed); one that fails has applied a
  prefix of them, each with its record or not at all.\<close>

theorem migrations_applied:
  assumes "RunMigrations sha256 open_dir parse sv_connect url path s = (r, s')"
  shows "(\<exists>e. r = Inl e \<and> sv_state s' = sv_state s) \<or>
    (\<exists>ms. discoverMigrations sha256 (open_dir path) = Inr ms \<and>
      (case r of
         Inr names \<Rightarrow>
           names = map mg_name (missing (sv_state s) ms)
           \<and> sv_state s' = fold apply_one (missing (sv_state s) ms) (sv_state s)
           \<and> (\<forall>m \<in> set ms. recorded_in (sv_state s') m
                \<and> (history (sv_state s) (mg_version m) \<noteq> None \<longrightarrow> recorded_in (sv_state s) m))
       | Inl _ \<Rightarrow>
           \<exists>n. sv_state s' = fold apply_one (take n (missing (sv_state s) ms)) (sv_state s)))"
proof (cases r)
  case (Inl e)
  with sv.RunMigrations_applies [OF assms sv_connect_frame] show ?thesis by simp
next
  case (Inr names)
  with sv.RunMigrations_applies [OF assms sv_connect_frame] obtain ms where ms:
    "discoverMigrations sha256 (open_dir path) = Inr ms"
    "names = map mg_name (missing (sv_state s) ms)"
    "sv_state s' = fold apply_one (missing (sv_state s) ms) (sv_state s)"
    "\<forall>m \<in> set ms. recorded_in (sv_state s') m"
    by auto
  have "history (sv_state s) (mg_version m) \<noteq> None \<longrightarrow> recorded_in (sv_state s) m" if "m \<in> set ms" for m
    using recorded_before [of "sv_state s" ms m] ms(3,4) that by simp
  with ms Inr show ?thesis by simp
qed

definition sample_server :: "(nat \<Rightarrow> network) \<Rightarrow> migration_server" where
  "sample_server net =
     \<lparr>sv_state = \<lparr>history = Map.empty, scripts = []\<rparr>, sv_tx = \<lparr>history = Map.empty, scripts = []\<rparr>,
      sv_locked = False, sv_calls = 0, sv_network = net, sv_accepts = (\<lambda>_. True)\<rparr>"

definition sample_run :: "migration_server \<Rightarrow> (err + string list) \<times> migration_server" where
  "sample_run = RunMigrations id (\<lambda>_. sample_files) (\<lambda>u. Inr u) sv_connect ''postgres://db'' ''migrations''"

lemma sample_run_names:
  "fst (sample_run (sample_server (\<lambda>_. Delivered))) = Inr [''000002_a.sql'', ''000010_b.sql'']"
  by code_simp

lemma migrations_applied_witness:
  "history (sv_state (snd (sample_run (sample_server (\<lambda>_. Delivered))))) 10 = Some (''000010_b.sql'', ''create 000010_b.sql'')"
proof -
  have "sample_run (sample_server (\<lambda>_. Delivered))
      = (Inr [''000002_a.sql'', ''000010_b.sql''], snd (sample_run (sample_server (\<lambda>_. Delivered))))"
    by (simp add: sample_run_names prod_eq_iff)
  from migrations_applied [OF this [unfolded sample_run_def]] show ?thesis
    by (simp add: sample_discovered missing_def apply_one_def sample_server_def sample_run_def)
qed

text \<open>C29: after a run that has succeeded, another run over the same directory changes nothing, and if it
  succeeds it applies no migration.\<close>

theorem migrations_run_twice:
  assumes "RunMigrations sha256 open_dir parse sv_connect url path s = (Inr names, s1)"
    and "sv_state s2 = sv_state s1"
    and "RunMigrations sha256 open_dir parse sv_connect url path s2 = (r, s3)"
  shows "sv_state s3 = sv_state s2 \<and> (\<forall>names'. r = Inr names' \<longrightarrow> names' = [])"
proof -
  from sv.RunMigrations_applies [OF assms(1) sv_connect_frame] obtain ms where
    ms: "discoverMigrations sha256 (open_dir path) = Inr ms" "\<forall>m \<in> set ms. recorded_in (sv_state s2) m"
    unfolding assms(2) by auto
  then have "missing (sv_state s2) ms = []"
    by (auto simp: missing_def recorded_in_def filter_empty_conv)
  with ms(1) sv.RunMigrations_applies [OF assms(3) sv_connect_frame] show ?thesis
    by (cases r) auto
qed

lemma migrations_run_twice_witness:
  "fst (sample_run (snd (sample_run (sample_server (\<lambda>_. Delivered))))) = Inr []"
proof -
  let ?s = "snd (sample_run (sample_server (\<lambda>_. Delivered)))"
  have a: "sample_run (sample_server (\<lambda>_. Delivered)) = (Inr [''000002_a.sql'', ''000010_b.sql''], ?s)"
    by (simp add: sample_run_names prod_eq_iff)
  have "\<not> isl (fst (sample_run ?s))" by code_simp
  then obtain names where "sample_run ?s = (Inr names, snd (sample_run ?s))"
    by (metis isl_def prod.collapse sum.collapse(2))
  with migrations_run_twice [OF a [unfolded sample_run_def] refl, of "Inr names" "snd (sample_run ?s)"] show ?thesis
    by (metis fst_conv sample_run_def)
qed

end
