(* ===== verification/Spec2Isabelle.thy ===== *)
theory Spec2Isabelle
  imports Sample PgWeb Migrations
begin

text \<open>
  A model of the URL shortener of this repository (Go, \<^verbatim>\<open>cmd/\<close> and \<^verbatim>\<open>internal/\<close>), and the theorems
  that make it correct.

  \<^bold>\<open>The program.\<close>  \<^verbatim>\<open>cmd/linkd\<close> serves HTTP: an owner creates a link from a short code to a destination,
  reads it and changes its status, destination or expiry under optimistic concurrency control (the
  version of the link is its entity tag), and everybody is redirected through active links that have
  not expired.  Links, idempotency keys and redirect events live in memory or in PostgreSQL;
  redirects can be cached in Redis.  \<^verbatim>\<open>cmd/migrate\<close> applies the migrations of the database.

  \<^bold>\<open>Conventions.\<close>  A Go string is a list of bytes (\<open>string\<close>), a \<open>uint64\<close> is \<open>64 word\<close>, a \<open>time.Time\<close> the
  \<open>int\<close> of its nanoseconds since the zero time, a duration an \<open>int\<close>, \<open>float64\<close> a rational that every
  operation rounds (\<open>GoFloat\<close>).  A function with an error result returns \<open>err + 'a\<close> or \<open>err option\<close>;
  \<open>err\<close> keeps the sentinels and the wrapping that \<open>errors.Is\<close> looks through, and the constant parts
  of messages.  Effects pass the state explicitly: an operation on a port takes the state and
  returns it.  A Go interface value is a record of such functions, and its contract is a locale.
  A context is the error it reports, if any.  Expiry pointers keep their address, because the
  memory store compares them.

  \<^bold>\<open>Theories, by part of the program.\<close>
    \<^item> \<open>Prelude\<close>: types, errors, \<open>errors_is\<close>, lifting of a state into a larger one.
    \<^item> Go's library, as far as the program reaches it: \<open>GoStrings\<close> (\<open>strings\<close>, \<open>strconv\<close>), \<open>GoUrl\<close>
      (\<open>net/url\<close>), \<open>GoTime\<close> (RFC 3339, \<open>ParseDuration\<close>), \<open>GoJson\<close> (\<open>encoding/json\<close>), \<open>GoHttp\<close> (requests,
      responses, \<open>http.Redirect\<close>, \<open>net.SplitHostPort\<close>), \<open>GoFloat\<close>.
    \<^item> \<^verbatim>\<open>internal/link/domain\<close>: \<open>Status\<close>, \<open>Destination\<close>, \<open>Link\<close> (record \<open>link\<close>, one function per method, and the
      relation \<open>link_step\<close> of a link before and after one mutation), \<open>RedirectMapping\<close>.
    \<^item> \<^verbatim>\<open>internal/link/ports\<close>: \<open>Ports\<close>, with the locales \<open>repository_contract\<close>, \<open>idempotency_contract\<close>,
      \<open>redirect_cache_contract\<close>.
    \<^item> \<^verbatim>\<open>internal/link/application\<close>: \<open>ManageLink\<close> (locale \<open>managed_links\<close>), \<open>CreateLink\<close> (\<open>create_links\<close>),
      \<open>Resolver\<close> (the redirect, cache-aside resolver, refresher and refreshing repository),
      \<open>CacheCoherence\<close> (what they promise together: \<open>cached_links\<close>, \<open>refreshed_links\<close>).
    \<^item> \<^verbatim>\<open>internal/link/adapters\<close>: \<open>MemoryRepository\<close>, \<open>MemoryIdempotency\<close>, \<open>CodeGen\<close>, \<open>RedisCache\<close> (with its
      Lua script, over the locale \<open>redis_service\<close>), \<open>Postgres\<close> (over \<open>postgres_pool\<close>; \<open>PostgresLinks\<close> shows
      that the repository and the idempotency store meet the contracts of the ports), \<open>LinkHttp\<close>.
    \<^item> \<^verbatim>\<open>internal/analytics\<close>: \<open>Analytics\<close>, and \<open>pg_Record\<close> of \<open>Postgres\<close>.  \<^verbatim>\<open>internal/metrics\<close>: \<open>Metrics\<close>, its HTTP
      handler in \<open>Health\<close>.  \<^verbatim>\<open>internal/health\<close>: \<open>Health\<close>.  \<^verbatim>\<open>internal/config\<close>: \<open>Config\<close>.
      \<^verbatim>\<open>internal/storage/postgres\<close> and \<^verbatim>\<open>cmd/migrate\<close>: \<open>Migrations\<close> (locale \<open>migration_database\<close>).
    \<^item> \<^verbatim>\<open>cmd/linkd/main.go\<close>: \<open>Server\<close> (\<open>start_run\<close> builds the server from the environment over a \<open>platform\<close>
      of drivers, \<open>ServeMux\<close> and \<open>handle\<close> route a request, \<open>finish_run\<close> is the result of the shutdown).
    \<^item> Services that are not part of the program, as they are documented: \<open>RedisServer\<close>, \<open>PostgresServer\<close>
      and the server at the end of \<open>Migrations\<close>.  Calls may fail, and a failed call may or may not
      have taken effect.  Each interprets the locale of its client.
    \<^item> The whole: \<open>World\<close> (one state under all ports on memory storage, and the interpretations of the
      contracts on it), \<open>Service\<close> (sequences of requests to the use cases, \<open>serve\<close>), \<open>Concurrency\<close>
      (interleaved calls, the step relation \<open>pstep\<close>), \<open>HttpServer\<close> (an HTTP request as a request to a use
      case, over any storage: the locale \<open>http_server\<close>), \<open>WebService\<close> and \<open>WebFacts\<close> (the HTTP server over
      the world, \<open>linkd\<close>).  Over PostgreSQL, up to the microseconds that a row keeps (\<open>pg_keep\<close>), and for
      destinations whose text is validated to themselves: \<open>PgWorld\<close>, \<open>PgService\<close> (\<open>pg_serve\<close>) and \<open>PgWeb\<close>
      (\<open>pg_linkd\<close>).  \<open>Sample\<close> (the run the witnesses evaluate), and this theory.

  \<^bold>\<open>What the theorems show.\<close>
    \<^item> The HTTP server, below: every sequence of requests keeps the store well-formed and the cache
      coherent, and loses no link; a change needs the owner and the current version, and returns the
      tag for the next one; links of others are hidden; a new link redirects in the request that follows
      its creation; redirects are recorded once; the start wires what the configuration asks for (over
      PostgreSQL it keeps tables and cache as it finds them; memory storage starts empty, so the
      invariants then need a Redis server without mappings).  \<open>handle_serving\<close> reduces each request to
      at most one request to the use cases, whose own theorems stand beside.  Over PostgreSQL the same
      holds whatever calls are lost, and only the answer 500 leaves a change open.
    \<^item> The use cases: exact answers without the cache, and with it the versions that can be answered;
      creation, its idempotency and its failures; at most one winner of concurrent changes, and
      coherence under every interleaving (mutexes, statements and scripts are atomic steps).
    \<^item> The parts: invariant, versions and life cycle of a link; destinations that are stable and keep
      their query and what follows it; round trip, version order and TTL of the cache; length,
      alphabet, fairness and termination of the generator; counters and percentiles; the PostgreSQL
      repository refines the one in memory in whole microseconds, but for what a table has no room for,
      and the use cases over it keep the tables, the cache and the keys sound under lost calls;
      migrations are discovered, applied in order, recorded, and not repeated; a configuration that
      loads is valid; diagnostics need the token and report every check.

  \<^bold>\<open>Bounds.\<close>  Versions are taken to stay below the last \<open>uint64\<close> (\<open>below_last_version\<close>,
  \<open>below_last_match\<close>); \<open>version_wraps\<close> shows what happens there.  The loop of the generator may run
  forever and is a partial function; it terminates on a source with acceptable bytes, and always on
  finitely many bytes.  The creation loop has the program's own bound of attempts.  The parsers of \<open>GoJson\<close> and
  \<open>GoTime\<close> recurse on a text that each step shortens, with Go's limit on the nesting of JSON; no
  definition of the model takes fuel.

  \<^bold>\<open>Parameters.\<close>  \<open>strings.ToLower\<close> outside ASCII (\<open>ul\<close>), SHA-256, the environment, texts of errors, the
  readings of the clock (any function of their number; they may step back), the random bytes, the
  time on the Redis server and the failures of the networks, the drivers' URL parsers, and the
  opening of PostgreSQL pools.

  \<^bold>\<open>Not modelled.\<close>  The accept loop and timeouts of \<open>http.Server\<close>, signals and logging; requests with
  method CONNECT or the target \<open>*\<close>; limits of the header and body sizes; the JSON text of answers (an answer is
  the value that is printed) and the zone of a time, which no decision depends on; the effect of
  deadlines other than as failed calls; data races inside one atomic step, which the mutexes
  exclude; the SQL text of the migrations, which the connection executes.
  Interleavings inside a request are shown over memory storage only; over PostgreSQL the requests of the
  HTTP theorems follow one another.
\<close>

section \<open>Redirects\<close>

text \<open>C8: without a cache, a redirect answers with the destination of the stored link exactly when the
  link is active and has not expired at the time of the request (whose clock must not read the zero
  time); it answers that the link is not found exactly when there is none, and that it is
  unavailable otherwise.\<close>

theorem redirect_uncached:
  assumes "ready ul None w"
  shows "serve ul None (ReqRedirect None k) w =
    (case stored w k of
       None \<Rightarrow> (RedirectResponse (Inl (Ports ErrLinkNotFound)), w)
     | Some l \<Rightarrow>
         (let now = w_clock w (w_reads w)
          in (RedirectResponse
                (if now \<noteq> 0 \<and> status l = Active \<and> (\<forall>t. ExpiresAt l = Some t \<longrightarrow> now < t)
                 then Inr (dest_String (destination l)) else Inl (App ErrLinkUnavailable)),
              w\<lparr>w_reads := Suc (w_reads w)\<rparr>)))"
proof -
  have "world_inv w" using assms by (simp add: ready_def)
  from redirect_plain [OF this, of ul k] show ?thesis
    by (simp only: CanRedirect_expiry Let_def)
qed

lemma redirect_uncached_witness:
  "fst (serve id None (ReqRedirect None ''77777777'') (after None [ReqCreate None sample_create]))
     = RedirectResponse (Inr ''https://example.com/a'')"
proof -
  let ?w = "after None [ReqCreate None sample_create]"
  have "stored ?w ''77777777'' = Some sample_created" "w_clock ?w (w_reads ?w) = 1001" by code_simp+
  with redirect_uncached [OF after_ready, of "[ReqCreate None sample_create]" "''77777777''"] show ?thesis
    by (simp add: sample_created_def ExpiresAt_def dest_String_def del: serve.simps)
qed



section \<open>Management\<close>

text \<open>C9: reading or changing a link succeeds only for its owner, and a change only at the version the
  request names; a read changes nothing, and a change makes one mutation of that link and touches no
  other.\<close>

theorem management_granted:
  assumes "serve ul cache q w = (LinkResponse (Inr l'), w')" "named_link q = Some (k, u)"
    and "ready ul cache w" "below_last_version q"
  shows "\<exists>l. stored w k = Some l \<and> ownerID l = u \<and>
    (case expected_version q of
       None \<Rightarrow> l' = l \<and> stored w' = stored w
     | Some v \<Rightarrow> version l = v \<and> v \<noteq> 0 \<and> link_step l l' \<and> stored w' = (stored w)(k \<mapsto> l'))"
  using serve_granted [OF assms(1,2) _ assms(4)] assms(3) by (simp add: ready_def)

lemma management_granted_witness:
  "\<exists>l. stored (after None [ReqCreate None sample_create]) ''77777777'' = Some l \<and> ownerID l = ''bob''
     \<and> version l = 1"
proof -
  let ?w = "after None [ReqCreate None sample_create]" and ?q = "ReqStatus None (sample_disable ''bob'' 1)"
  let ?l = "sample_created\<lparr>status := Disabled, version := 2, updatedAt := 1001\<rparr>"
  have "fst (serve id None ?q ?w) = LinkResponse (Inr ?l)" by code_simp
  moreover have "named_link ?q = Some (''77777777'', ''bob'')" by code_simp
  moreover have "below_last_version ?q" by (simp add: sample_disable_def)
  moreover have "expected_version ?q = Some 1" by (simp add: sample_disable_def)
  moreover have "ready id None ?w" by (simp add: after_ready)
  ultimately show ?thesis using management_granted [OF fst_run] by fastforce
qed

section \<open>Creation\<close>

text \<open>C10: a creation that succeeds returns either the link its idempotency key was saved with, and then
  changes nothing, or a new active link at version 1 that is what the request asks for, under a code
  no link had; the new link is stored, and saved under the key when there is one.\<close>

theorem create_granted:
  assumes "serve ul cache (ReqCreate c q) w = (LinkResponse (Inr l), w')" "ready ul cache w"
  shows "(c_IdempotencyKey q \<noteq> [] \<and> saved_key w (c_OwnerID q) (c_IdempotencyKey q) = Some l
      \<and> stored w' = stored w \<and> saved_key w' = saved_key w)
    \<or> (asked_for ul q l \<and> stored w (code l) = None \<and> stored w' = (stored w)(code l \<mapsto> l) \<and>
       (c_IdempotencyKey q \<noteq> [] \<longrightarrow> saved_key w (c_OwnerID q) (c_IdempotencyKey q) = None \<and>
          saved_key w' (c_OwnerID q) (c_IdempotencyKey q) = Some l))"
  using serve_created [OF assms(1)] assms(2) by (simp add: ready_def)

lemma create_granted_witness:
  "asked_for id sample_create sample_created \<and> stored (after None [ReqCreate None sample_create]) ''77777777'' = Some sample_created"
proof -
  have "fst (serve id None (ReqCreate None sample_create) sample_world) = LinkResponse (Inr sample_created)"
    by code_simp
  moreover have "saved_key sample_world (c_OwnerID sample_create) (c_IdempotencyKey sample_create) = None" by code_simp
  moreover have "after None [ReqCreate None sample_create] = snd (serve id None (ReqCreate None sample_create) sample_world)"
    by (simp add: after_def split: prod.split del: serve.simps)
  ultimately show ?thesis
    using create_granted [OF fst_run initial_ready_sample, of id None None sample_create sample_created]
    by (auto simp: sample_created_def)
qed

text \<open>C11: two creations of one owner under one idempotency key that both succeed return the same link,
  whatever the second one asks for, and the second stores nothing.\<close>

theorem create_idempotent:
  assumes "serve ul cache (ReqCreate c q) w = (LinkResponse (Inr l), w1)" "ready ul cache w"
    and "c_IdempotencyKey q \<noteq> []" "c_OwnerID q' = c_OwnerID q" "c_IdempotencyKey q' = c_IdempotencyKey q"
    and "serve ul cache (ReqCreate c' q') w1 = (LinkResponse (Inr l'), w2)"
  shows "l' = l \<and> stored w2 = stored w1"
  using serve_create_twice [OF assms(1) _ assms(3-6)] assms(2) by (simp add: ready_def)

lemma create_idempotent_witness:
  "\<exists>w. fst (serve id None (ReqCreate None (sample_create\<lparr>c_Destination := ''http://other.org/''\<rparr>)) w)
      = LinkResponse (Inr sample_created)
    \<and> stored (snd (serve id None (ReqCreate None (sample_create\<lparr>c_Destination := ''http://other.org/''\<rparr>)) w)) = stored w"
proof -
  let ?w = "snd (serve id None (ReqCreate None sample_create) sample_world)"
  let ?q = "sample_create\<lparr>c_Destination := ''http://other.org/''\<rparr>"
  have created: "fst (serve id None (ReqCreate None sample_create) sample_world) = LinkResponse (Inr sample_created)"
    "fst (serve id None (ReqCreate None ?q) ?w) = LinkResponse (Inr sample_created)"
    by code_simp+
  have "c_IdempotencyKey sample_create \<noteq> []" "c_OwnerID ?q = c_OwnerID sample_create"
    "c_IdempotencyKey ?q = c_IdempotencyKey sample_create"
    by (simp_all add: sample_create_def)
  then have "stored (snd (serve id None (ReqCreate None ?q) ?w)) = stored ?w"
    using create_idempotent [OF fst_run [OF created(1)] initial_ready_sample _ _ _ fst_run [OF created(2)]]
    by blast
  with created show ?thesis by blast
qed

text \<open>C12: a creation that fails saves no key; it stores nothing, except when the new link was stored and
  saving its key failed: then the link stays, under a code the client never learns.\<close>

theorem create_refused:
  assumes "serve ul cache (ReqCreate c q) w = (LinkResponse (Inl e), w')" "ready ul cache w"
  shows "saved_key w' = saved_key w \<and>
    (stored w' = stored w \<or> c_IdempotencyKey q \<noteq> [] \<and>
       (\<exists>l. asked_for ul q l \<and> stored w (code l) = None \<and> stored w' = (stored w)(code l \<mapsto> l)))"
  using serve_create_refused [OF assms(1)] assms(2) by (simp add: ready_def)

lemma create_refused_witness:
  "saved_key (snd (serve id None (ReqCreate None (sample_create\<lparr>c_OwnerID := '' ''\<rparr>)) sample_world)) = saved_key sample_world"
proof -
  have "fst (serve id None (ReqCreate None (sample_create\<lparr>c_OwnerID := '' ''\<rparr>)) sample_world)
      = LinkResponse (Inl (Domain ErrEmptyOwnerID))"
    by code_simp
  from create_refused [OF fst_run [OF this] initial_ready_sample] show ?thesis by blast
qed

section \<open>Requests in parallel\<close>

text \<open>C2: however the calls of the requests interleave, and whatever is abandoned on the way, the cache
  stays coherent with the store, no link is lost, and links only take steps of their life cycle.\<close>

theorem interleaving_keeps_coherence:
  assumes "psteps ul config (initial_world clk tape elapse net, []) (w, as)"
    and "psteps ul config (w, as) (w', as')"
  shows "coherent_world ul w' \<and>
    (\<forall>k l. stored w k = Some l \<longrightarrow> (\<exists>l'. stored w' k = Some l' \<and> link_step\<^sup>*\<^sup>* l l'))"
proof -
  have "config_ok ul (w, as)" using psteps_keep [OF assms(1) initial_config_ok] by blast
  from psteps_keep [OF assms(2) this] links_steps_life show ?thesis
    by (auto simp: config_ok_def)
qed

lemma sample_steps:
  "psteps ul config (sample_world, []) (sample_stored, [Changing 1 sample_disabled])"
proof -
  have n: "NewLink 0 ''77777777'' \<lparr>dest_value = ''https://example.com/a''\<rparr> ''bob'' 1000 None = Inr sample_created"
    by code_simp
  have "pstep ul config (sample_world, []) (sample_stored, [])"
    unfolding sample_stored_def by (rule pstep.insert [OF n prod.collapse [symmetric]])
  moreover have "FindByCode world_repo None ''77777777'' sample_stored = (Inr sample_created, sample_stored)"
  proof -
    have "stored sample_stored ''77777777'' = Some sample_created" by code_simp
    then show ?thesis by (simp add: Find_world)
  qed
  moreover have "apply_op (OpDisable 2000) sample_created = (None, sample_disabled)" "version sample_created = 1"
    by code_simp+
  ultimately have "pstep ul config (sample_stored, []) (sample_stored, [Changing (version sample_created) sample_disabled])"
    by (intro pstep.begin_change [where x = "OpDisable 2000"]) auto
  with \<open>pstep ul config (sample_world, []) (sample_stored, [])\<close> \<open>version sample_created = 1\<close> show ?thesis by simp
qed

lemma interleaving_keeps_coherence_witness:
  "coherent_world id sample_stored"
  using interleaving_keeps_coherence [OF sample_steps [unfolded sample_world_def] rtranclp.rtrancl_refl] by blast

text \<open>C3: of the changes that have read one version of a link, at most one is stored: after it succeeds,
  whatever steps come between, every other update that expects that version meets a version
  conflict and changes nothing.\<close>

theorem no_lost_update:
  assumes "psteps ul config (initial_world clk tape elapse net, []) (w, as)"
    and "Changing v l1 \<in> set as" "Update world_repo c l1 v w = (None, w1)"
    and "psteps ul config (w1, Refreshing l1 # remove1 (Changing v l1) as) (w2, as2)" "code l2 = code l1"
  shows "Update world_repo None l2 v w2 = (Some (Ports ErrVersionConflict), w2)"
proof -
  have "config_ok ul (w, as)" using psteps_keep [OF assms(1) initial_config_ok] by blast
  from one_winner [OF this assms(2-5)] show ?thesis .
qed

lemma no_lost_update_witness:
  "fst (Update world_repo None (sample_created\<lparr>status := Deleted, version := 2\<rparr>) 1
     (snd (Update world_repo None sample_disabled 1 sample_stored))) = Some (Ports ErrVersionConflict)"
proof -
  have "fst (Update world_repo None sample_disabled 1 sample_stored) = None" by code_simp
  from no_lost_update [OF sample_steps [unfolded sample_world_def] _ fst_run [OF this] rtranclp.rtrancl_refl,
      where ?l2.0 = "sample_created\<lparr>status := Deleted, version := 2\<rparr>"]
  show ?thesis by (simp add: sample_disabled_def)
qed

section \<open>The server\<close>

text \<open>C19: with a configuration that loads, memory storage, and a Redis URL that parses if the cache is on,
  the program starts: it serves the links with exactly the use cases over the configured wiring, on
  stores without links and without keys.  The invariants of the server hold from the start exactly when
  the cache is off or the Redis server holds no mapping: one that an earlier run left there reflects no
  link.\<close>

theorem start_serves:
  assumes "Load ul getenv = Inr cfg" "cfg_Storage cfg = StorageMemory"
    and "cfg_Cache cfg = CacheRedis \<Longrightarrow> \<exists>options. parse_redis (cfg_RedisURL cfg) = Inr options"
  shows "start_run ul (world_platform parse_redis open_pg) getenv ctx w = (Inr (linkd_server ul cfg), started w)
    \<and> stored (started w) = Map.empty \<and> (\<forall>u. saved_key (started w) u = Map.empty)
    \<and> (ready ul (cache_of cfg) (started w) \<longleftrightarrow> cache_of cfg = None \<or> (\<forall>k. cached_for ul w k = None))"
proof -
  obtain options where "cfg_Cache cfg = CacheRedis \<Longrightarrow> parse_redis (cfg_RedisURL cfg) = Inr options"
    using assms(3) by blast
  then have "start_run ul (world_platform parse_redis open_pg) getenv ctx w = (Inr (linkd_server ul cfg), started w)"
    by (rule start_run_builds [OF assms(1,2)])
  with started_empty started_ready show ?thesis by blast
qed

lemma start_serves_witness:
  "start_run id (world_platform (\<lambda>u. Inr u) (\<lambda>_ _ w. (Inl (Foreign ''no server''), w))) (\<lambda>_. '' '') None sample_world
     = (Inr (linkd_server id default_config), started sample_world)
   \<and> ready id (cache_of default_config) (started sample_world)"
proof -
  have "TrimSpace '' '' = ''''" by code_simp
  then have l: "Load id (\<lambda>_. '' '') = Inr default_config" by (rule Load_blank)
  have "cached_for id sample_world k = None" for k
    by (simp add: sample_world_def initial_world_def cached_for_def live_fields_def live_entry_def)
  then show ?thesis
    using start_serves [OF l, where ctx = None and w = sample_world and parse_redis = "\<lambda>u. Inr u"
        and open_pg = "\<lambda>_ _ w. (Inl (Foreign ''no server''), w)"]
    by (simp add: default_config_def)
qed

text \<open>A restart on memory storage whose Redis server still holds the mapping of a link goes on redirecting
  through a link that is gone.\<close>

lemma restart_redirects_stale:
  "stored (started (after (Some sample_config) [ReqCreate None sample_create, ReqRedirect None ''77777777''])) ''77777777''
     = None
   \<and> fst (serve id (Some sample_config) (ReqRedirect None ''77777777'')
       (started (after (Some sample_config) [ReqCreate None sample_create, ReqRedirect None ''77777777''])))
     = RedirectResponse (Inr ''https://example.com/a'')"
  by (intro conjI) code_simp+

text \<open>C1: any sequence of HTTP requests keeps the invariant of the store and the coherence of the cache;
  no link is lost, and every link only takes steps of its life cycle.\<close>

theorem http_run_keeps_links:
  assumes "linkd_all ul sha256 et cfg rs w = (as, w')" "ready ul (cache_of cfg) w" "\<forall>r \<in> set rs. below_last_match r"
  shows "ready ul (cache_of cfg) w' \<and>
    (\<forall>k l. stored w k = Some l \<longrightarrow> (\<exists>l'. stored w' k = Some l' \<and> link_step\<^sup>*\<^sup>* l l'))"
  using linkd_all_step [OF assms] links_steps_life by blast

definition sample_requests :: "http_request list" where
  "sample_requests =
     [http ''GET'' ''/77777777'' [] '''', http ''GET'' ''/healthz'' [] '''',
      sample_patch ''bob'' ''1'', http ''GET'' ''/v1/links/77777777'' [(''X-Owner-ID'', ''bob'')] '''']"

lemma http_run_keeps_links_witness:
  "\<exists>l'. stored (snd (linkd_all id id (\<lambda>_. '''') default_config sample_requests
      (after None [ReqCreate None sample_create]))) ''77777777'' = Some l' \<and> link_step\<^sup>*\<^sup>* sample_created l'"
proof -
  let ?w = "after None [ReqCreate None sample_create]"
  have "ready id (cache_of default_config) ?w" by (simp add: after_ready cache_of_def default_config_def)
  moreover have "\<forall>r \<in> set sample_requests. below_last_match r" by code_simp
  moreover have "stored ?w ''77777777'' = Some sample_created" by code_simp
  ultimately show ?thesis using http_run_keeps_links [OF prod.collapse [symmetric]] by blast
qed

text \<open>C5: the management interface does not tell a link of another owner from a link that does not exist:
  in two states where the caller owns no link at the code, a request for it gets the same answer.\<close>

theorem http_hides_foreign_links:
  assumes "managed_route r = Some c"
    and "hidden w1 (TrimSpace c) (TrimSpace (header_get r ''X-Owner-ID''))"
    and "hidden w2 (TrimSpace c) (TrimSpace (header_get r ''X-Owner-ID''))"
  shows "fst (linkd ul sha256 et cfg r w1) = fst (linkd ul sha256 et cfg r w2)
    \<and> stored (snd (linkd ul sha256 et cfg r w1)) = stored w1"
  using linkd_hides [OF assms] .

lemma http_hides_foreign_links_witness:
  "fst (served (http ''GET'' ''/v1/links/77777777'' [(''X-Owner-ID'', ''eve'')] '''') sample_stored)
     = fst (served (http ''GET'' ''/v1/links/77777777'' [(''X-Owner-ID'', ''eve'')] '''') sample_world)"
proof -
  let ?r = "http ''GET'' ''/v1/links/77777777'' [(''X-Owner-ID'', ''eve'')] ''''"
  have "managed_route ?r = Some ''77777777''" "TrimSpace ''77777777'' = ''77777777''"
    "TrimSpace (header_get ?r ''X-Owner-ID'') = ''eve''"
    "stored sample_stored ''77777777'' = Some sample_created" "stored sample_world ''77777777'' = None"
    by code_simp+
  then show ?thesis
    using http_hides_foreign_links [of ?r "''77777777''" sample_stored sample_world id id "\<lambda>_. ''''" default_config]
    by (simp add: hidden_def served_def sample_created_def)
qed

text \<open>C6: with the cache or without, and whatever becomes of the calls to the Redis server: when a creation
  without an idempotency key, or with a key that its owner has not saved before, is answered with a
  link, the short URL is the public URL followed by the new code, and a GET of that code that is the
  very next request is redirected to the destination in the answer, if the clock does not reach the
  expiry that was asked for (nor ever reads the zero time) and the client does not cancel.  (A creation that replays a saved key is answered with the link as it was
  saved, which may have been changed or deleted since.)\<close>

theorem http_create_then_redirect:
  assumes "linkd ul sha256 et cfg r w = (LinkAnswer a, w1)" "rp_Body a = Json (CreatedLink c short dest)"
    and "createLinkHTTPRequest (rq_Body r) = Some (d, u, expires)"
    and "fresh_key w u (header_get r ''Idempotency-Key'')" "ready ul (cache_of cfg) w"
    and "\<forall>n \<ge> w_reads w. w_clock w n \<noteq> 0 \<and> (\<forall>t. expires = Some t \<longrightarrow> w_clock w n < t)"
    and "rq_Method g = ''GET''" "rq_Path g = ''/'' @ c" "rq_EscapedPath g = ''/'' @ c" "rq_ctx g = None"
  shows "short = cfg_BaseURL cfg @ ''/'' @ c
    \<and> fst (linkd ul sha256 et cfg g w1) = LinkAnswer (http_Redirect dest)"
proof -
  let ?cache = "cache_of cfg" and ?w1 = "w1\<lparr>w_reads := Suc (w_reads w1)\<rparr>"
  obtain q l w0 w2 where s: "link_request r = Some (ReqCreate (rq_ctx r) q)" "quiet w w0"
    "serve ul ?cache (ReqCreate (rq_ctx r) q) w0 = (LinkResponse (Inr l), w2)" "quiet w2 w1"
    "c = code l" "short = cfg_BaseURL cfg @ ''/'' @ c" "dest = dest_String (destination l)"
    using created_answer [OF assms(1,2)] by metis
  have q: "c_IdempotencyKey q = header_get r ''Idempotency-Key''" "c_ExpiresAt q = expires" "c_OwnerID q = u"
    using s(1) assms(3) by (auto simp: link_request_def split: if_splits)
  then have key: "fresh_key w0 (c_OwnerID q) (c_IdempotencyKey q)"
    using assms(4) quiet_frame(2) [OF s(2)] by (simp add: fresh_key_def)
  have r0: "ready ul ?cache w0" using quiet_frame(3) [OF s(2)] assms(5) by blast
  then have inv: "world_inv w0" by (simp add: ready_def)
  from serve_created [OF s(3) inv] key have l: "asked_for ul q l" "stored w2 = (stored w0)(code l \<mapsto> l)" "stored w0 (code l) = None"
    by (auto simp: fresh_key_def)
  have "world_Now w1 = (w_clock w1 (w_reads w1), ?w1)" by (simp add: world_Now_def)
  then have q1: "quiet w2 ?w1" using quiet_trans [OF s(4) quiet_Now] by blast
  have "ready ul ?cache ?w1" "stored ?w1 c = Some l"
    using serve_ready [OF s(3) r0] quiet_frame [OF q1] l(2) s(5) by simp_all
  moreover have "cached_for ul ?w1 c = None" if "?cache \<noteq> None"
    using unstored_uncached [OF r0 that l(3)] create_redis [OF s(3)] q1 s(5) by (simp add: quiet_def cached_for_eq)
  moreover have "\<forall>n \<ge> w_reads ?w1. CanRedirect l (w_clock ?w1 n)"
    using l(1) q(2) assms(6) linkd_create_no_event [OF assms(1) s(1)]
    by (auto simp: asked_for_def CanRedirect_expiry no_event_def)
  ultimately have "fst (serve ul ?cache (ReqRedirect None c) ?w1) = RedirectResponse (Inr dest)"
    unfolding s(7) by (rule redirect_uncached_code)
  from linkd_redirects [OF this _ assms(7-10)] created_code [OF s(3) inv key] s(5,6) show ?thesis by simp
qed

lemma http_create_then_redirect_witness:
  "fst (served (http ''GET'' ''/77777777'' [] '''') posted) = LinkAnswer (http_Redirect ''https://example.com/a'')"
proof -
  have "createLinkHTTPRequest (rq_Body sample_post) = Some (''https://example.com/a'', ''bob'', None)"
    "header_get sample_post ''Idempotency-Key'' = ''''"
    by code_simp+
  moreover have "w_clock sample_world n \<noteq> 0" for n by (simp add: sample_world_def initial_world_def)
  ultimately show ?thesis
    using http_create_then_redirect [OF sample_posted(1) [unfolded served_def], of "''77777777''" _ "''https://example.com/a''"
        "''https://example.com/a''" "''bob''" None "http ''GET'' ''/77777777'' [] ''''"]
    by (simp add: writeJSON_def http_def served_def default_config_def fresh_key_def)
qed

text \<open>C4: a change over HTTP is answered with 200 only when the \<open>If-Match\<close> header names the version of a
  stored link of the caller; it then makes one mutation of that link, and the entity tag of the answer
  is the next version, which the next change can name.  With any other answer no link changes.\<close>

theorem http_change:
  assumes "linkd ul sha256 et cfg r w = (a, w')" "ServeMux (rq_Method r) (rq_EscapedPath r) = RoutePatchLink c"
    and "ready ul (cache_of cfg) w" "below_last_match r"
  shows "(\<exists>l l' v tag. a = LinkAnswer (writeManagedLinkResponse 200 l')
      \<and> parseIfMatch (TrimSpace (header_get r ''If-Match'')) = Inr v
      \<and> stored w (TrimSpace c) = Some l \<and> ownerID l = TrimSpace (header_get r ''X-Owner-ID'') \<and> version l = v
      \<and> link_step l l' \<and> stored w' = (stored w)(TrimSpace c \<mapsto> l')
      \<and> map_of (rp_Header (writeManagedLinkResponse 200 l')) ''ETag'' = Some tag \<and> parseIfMatch tag = Inr (v + 1))
    \<or> (\<exists>x. a = LinkAnswer x \<and> rp_Status x \<noteq> 200 \<and> stored w' = stored w)"
proof -
  have tag: "map_of (rp_Header (writeManagedLinkResponse 200 l')) ''ETag'' = Some ([CHR 0x22] @ FormatUint (version l') @ [CHR 0x22])
      \<and> parseIfMatch ([CHR 0x22] @ FormatUint (version l') @ [CHR 0x22]) = Inr (version l + 1)"
    if "link_step l l'" "version l \<noteq> - 1" for l l'
  proof -
    have "version l' = version l + 1" "version l + 1 \<noteq> 0"
      using link_step_facts [OF that(1)] that(2) by (auto simp: add_eq_0_iff2)
    then show ?thesis using parseIfMatch_quoted [of "version l'"] by (simp add: writeManagedLinkResponse_def)
  qed
  from linkd_change [OF assms] show ?thesis
  proof (elim disjE exE conjE)
    fix l l' v
    assume x: "a = LinkAnswer (writeManagedLinkResponse 200 l')"
      "parseIfMatch (TrimSpace (header_get r ''If-Match'')) = Inr v" "stored w (TrimSpace c) = Some l"
      "ownerID l = TrimSpace (header_get r ''X-Owner-ID'')" "version l = v" "link_step l l'"
      "stored w' = (stored w)(TrimSpace c \<mapsto> l')"
    then have "version l \<noteq> - 1" using assms(4) by (auto simp: below_last_match_def)
    with tag [OF x(6)] x show ?thesis by blast
  qed blast
qed

lemma http_change_witness:
  "\<exists>l'. fst (served (sample_patch ''bob'' ''1'') (after None [ReqCreate None sample_create]))
       = LinkAnswer (writeManagedLinkResponse 200 l') \<and> link_step sample_created l' \<and>
     stored (snd (served (sample_patch ''bob'' ''1'') (after None [ReqCreate None sample_create]))) ''77777777'' = Some l'"
proof -
  let ?w = "after None [ReqCreate None sample_create]" and ?r = "sample_patch ''bob'' ''1''"
  have "map_option rp_Status (link_answer (fst (served ?r ?w))) = Some 200" by code_simp
  moreover have "ServeMux (rq_Method ?r) (rq_EscapedPath ?r) = RoutePatchLink ''77777777''" "below_last_match ?r"
    "TrimSpace ''77777777'' = ''77777777''" "stored ?w ''77777777'' = Some sample_created"
    by code_simp+
  moreover have "ready id (cache_of default_config) ?w" by (simp add: after_ready cache_of_def default_config_def)
  ultimately show ?thesis
    using http_change [of id id "\<lambda>_. ''''" default_config ?r ?w, OF prod.collapse [symmetric]]
    by (auto simp: served_def link_answer_Some)
qed

text \<open>C23: a GET of a code that is answered with a redirect records one event, with the code, one reading
  of the clock and the headers of the request, unless the context is cancelled or the code or the
  reading is empty; any other answer records none.\<close>

theorem http_redirect_recorded:
  assumes "linkd ul sha256 et cfg r w = (LinkAnswer a, w')"
    and "ServeMux (rq_Method r) (rq_EscapedPath r) = RouteLink" "rq_Method r = ''GET''" "isCodePath (rq_Path r)"
  shows "\<exists>n. Events (w_events w') = Events (w_events w) @
    (if rp_Status a = 302 then redirect_recorded r (TrimPrefix (rq_Path r) ''/'') (w_clock w n) else [])"
proof (rule handleRedirect_events)
  show "handleRedirect world_Now (link_handler ul cfg) r w = (a, w')"
    using assms by (auto simp: linkd_def handle_def Handler_ServeHTTP_def apfst_def map_prod_def split: prod.splits)
qed

lemma http_redirect_recorded_witness:
  "\<exists>n. Events (w_events (snd (served (http ''GET'' ''/77777777'' [] '''') (after None [ReqCreate None sample_create])))) =
     redirect_recorded (http ''GET'' ''/77777777'' [] '''') ''77777777''
       (w_clock (after None [ReqCreate None sample_create]) n)"
proof -
  let ?w = "after None [ReqCreate None sample_create]" and ?r = "http ''GET'' ''/77777777'' [] ''''"
  have r: "link_answer (fst (served ?r ?w)) = Some (http_Redirect ''https://example.com/a'')"
    "Events (w_events ?w) = []"
    by code_simp+
  have s: "linkd id id (\<lambda>_. '''') default_config ?r ?w
      = (LinkAnswer (http_Redirect ''https://example.com/a''), snd (served ?r ?w))"
    using r(1) by (simp add: link_answer_Some prod_eq_iff served_def)
  have "ServeMux (rq_Method ?r) (rq_EscapedPath ?r) = RouteLink" "isCodePath (rq_Path ?r)"
    "TrimPrefix (rq_Path ?r) ''/'' = ''77777777''" "rq_Method ?r = ''GET''"
    by code_simp+
  with http_redirect_recorded [OF s] r(2) show ?thesis by (simp add: http_Redirect_def)
qed

section \<open>Over PostgreSQL\<close>

text \<open>The sample run over a server all of whose calls are delivered, but for the replies to those named.\<close>

definition sample_pg :: "nat list \<Rightarrow> pg_world" where
  "sample_pg unanswered = initial_pg (\<lambda>i. if i \<in> set unanswered then ReplyLost else Delivered) sample_world"

definition pg_after :: "nat list \<Rightarrow> request list \<Rightarrow> pg_world" where
  "pg_after unanswered qs = snd (pg_serve_all id None qs (sample_pg unanswered))"

lemma sample_pg_ready [simp]: "pg_ready ul cache (sample_pg unanswered)"
  unfolding sample_pg_def
  by (rule initial_pg_ready)
    (simp_all add: sample_world_def initial_world_def cached_for_def live_fields_def live_entry_def)

lemma sample_pg_requests [simp]:
  "pg_request id (ReqCreate None sample_create)"
  "pg_request id (ReqCreate None (sample_create\<lparr>c_Destination := ''http://other.org/''\<rparr>))"
  "pg_request id (ReqStatus None (sample_disable ''bob'' 1))"
  by code_simp+

lemma pg_after_ready [simp]: "pg_ready id None (pg_after unanswered [ReqCreate None sample_create])"
  unfolding pg_after_def
  using pg_serve_all_ready [of id None "[ReqCreate None sample_create]" "sample_pg unanswered"]
  by (metis sample_pg_ready sample_pg_requests(1) list.set(1,2) empty_iff insert_iff prod.collapse)

lemma pg_after_created: "pw_stored (pg_after [] [ReqCreate None sample_create]) ''77777777'' = Some sample_created"
  "pw_stored (pg_after [4] [ReqCreate None sample_create]) ''77777777'' = Some sample_created"
  by code_simp+

text \<open>C20: with a configuration that loads, PostgreSQL as the storage, a database URL that parses, and a Redis URL
  that parses if the cache is on, the program starts if the server answers a ping, and ends with the
  error of the ping otherwise.  The start leaves the tables and what the cache holds as they are, so
  the invariants of the server hold after it exactly when they held before: a restart goes on with what
  an earlier run left in the tables and in Redis, and a first start needs well-formed tables and a
  cache coherent with them.\<close>

theorem pg_start_serves:
  assumes "Load ul getenv = Inr cfg" "cfg_Storage cfg = StoragePostgres" "parse_pg (cfg_DatabaseURL cfg) = None"
    and "cfg_Cache cfg = CacheRedis \<Longrightarrow> \<exists>options. parse_redis (cfg_RedisURL cfg) = Inr options"
  shows "start_run ul (pg_platform parse_pg parse_redis) getenv ctx w =
      (case pw_ping ctx w of
         (None, w1) \<Rightarrow> (Inr (pg_server_of ul cfg), pg_started ctx w)
       | (Some e, w1) \<Rightarrow> (Inl (Wrap ''build storage'' (Wrap ''ping postgres'' e)), w1))
    \<and> pg_db (pw_server (pg_started ctx w)) = pg_db (pw_server w)
    \<and> pw_cached ul (pg_started ctx w) = pw_cached ul w
    \<and> (pg_ready ul (cache_of cfg) (pg_started ctx w) \<longleftrightarrow> pg_ready ul (cache_of cfg) w)"
proof -
  obtain options where o: "cfg_Cache cfg = CacheRedis \<Longrightarrow> parse_redis (cfg_RedisURL cfg) = Inr options"
    using assms(4) by blast
  obtain q w1 where p: "pw_ping ctx w = (q, w1)" by fastforce
  have "start_run ul (pg_platform parse_pg parse_redis) getenv ctx w =
      (case pw_ping ctx w of
         (None, w1) \<Rightarrow> (Inr (pg_server_of ul cfg), pg_started ctx w)
       | (Some e, w1) \<Rightarrow> (Inl (Wrap ''build storage'' (Wrap ''ping postgres'' e)), w1))"
  proof (cases q)
    case None
    from pg_start_builds [where parse_pg = parse_pg and parse_redis = parse_redis, OF assms(1-3) p [unfolded None] o]
      p None show ?thesis by (simp add: pg_started_def)
  next
    case (Some e)
    from pg_start_fails [where parse_pg = parse_pg, OF assms(1-3) p [unfolded Some]] p Some show ?thesis by simp
  qed
  with pg_started_same pg_started_ready show ?thesis by blast
qed

definition sample_env :: "string \<Rightarrow> string" where
  "sample_env name =
     (if name = ''TINYURL_STORAGE'' then '' Postgres'' else if name = ''TINYURL_DATABASE_URL'' then ''postgres://db'' else '''')"

lemma pg_start_serves_witness:
  "fst (start_run id (pg_platform (\<lambda>_. None) (\<lambda>u. Inr u)) sample_env None (sample_pg [])) =
     Inr (pg_server_of id (default_config\<lparr>cfg_Storage := StoragePostgres, cfg_DatabaseURL := ''postgres://db''\<rparr>))
   \<and> pg_ready id None (pg_started None (sample_pg []))
   \<and> fst (start_run id (pg_platform (\<lambda>_. None) (\<lambda>u. Inr u)) sample_env None (sample_pg [0])) =
     Inl (Wrap ''build storage'' (Wrap ''ping postgres'' (Foreign ''unexpected EOF'')))"
proof -
  let ?cfg = "default_config\<lparr>cfg_Storage := StoragePostgres, cfg_DatabaseURL := ''postgres://db''\<rparr>"
  have l: "Load id sample_env = Inr ?cfg" by code_simp
  have p: "fst (pw_ping None (sample_pg [])) = None" "fst (pw_ping None (sample_pg [0])) = Some (Foreign ''unexpected EOF'')"
    by code_simp+
  have s: "cfg_Storage ?cfg = StoragePostgres" "cfg_Cache ?cfg \<noteq> CacheRedis" "cache_of ?cfg = None"
    by (simp_all add: default_config_def CacheNone_def CacheRedis_def cache_of_def)
  note starts = pg_start_serves [OF l s(1), where ctx = None and parse_pg = "\<lambda>_. None" and parse_redis = "\<lambda>u. Inr u"]
  show ?thesis
    using starts [of "sample_pg []"] starts [of "sample_pg [0]"] s(2,3) p by (auto split: prod.splits)
qed

text \<open>C13: over PostgreSQL, with the Redis cache or without, whatever becomes of the calls to either server,
  any sequence of HTTP requests keeps the tables well-formed and the cache coherent with them; no link
  is lost, and every link only takes steps of its life cycle.  The destinations must be ones whose text
  is validated to themselves.\<close>

theorem pg_http_run_keeps_links:
  assumes "pg_linkd_all ul sha256 et cfg rs w = (as, w')" "pg_ready ul (cache_of cfg) w"
    and "\<forall>r \<in> set rs. pg_http_request ul r"
  shows "pg_ready ul (cache_of cfg) w' \<and>
    (\<forall>k l. pw_stored w k = Some l \<longrightarrow> (\<exists>l'. pw_stored w' k = Some l' \<and> pg_link_step\<^sup>*\<^sup>* l l'))"
  using pg_linkd_all_step [OF assms] pg_links_steps_life by blast

lemma pg_http_run_keeps_links_witness:
  "\<exists>l'. pw_stored (snd (pg_linkd_all id id (\<lambda>_. '''') default_config sample_requests
      (pg_after [4] [ReqCreate None sample_create]))) ''77777777'' = Some l' \<and> pg_link_step\<^sup>*\<^sup>* sample_created l'"
proof -
  let ?w = "pg_after [4] [ReqCreate None sample_create]"
  have "pg_ready id (cache_of default_config) ?w" by (simp add: cache_of_def default_config_def)
  moreover have "\<forall>r \<in> set sample_requests. pg_http_request id r" by code_simp
  ultimately show ?thesis
    using pg_http_run_keeps_links [OF prod.collapse [symmetric]] pg_after_created(2) by blast
qed

text \<open>C14: over PostgreSQL, a change over HTTP that is answered with 200 was asked for by the owner of the link
  under its version, and makes one mutation of that link, of which the table keeps whole microseconds.
  Only the answer 500 leaves it open whether the change was made; with any other answer no link changes.\<close>

theorem pg_http_change:
  assumes "pg_linkd ul sha256 et cfg r w = (a, w')" "ServeMux (rq_Method r) (rq_EscapedPath r) = RoutePatchLink c"
    and "pg_ready ul (cache_of cfg) w" "pg_http_request ul r"
  shows "(\<exists>l x l'. parseIfMatch (TrimSpace (header_get r ''If-Match'')) = Inr (version l)
      \<and> pw_stored w (TrimSpace c) = Some (pg_keep l) \<and> ownerID l = TrimSpace (header_get r ''X-Owner-ID'')
      \<and> apply_op x l = (None, l') \<and> pw_stored w' = (pw_stored w)(TrimSpace c \<mapsto> pg_keep l')
      \<and> (a = LinkAnswer (writeManagedLinkResponse 200 l')
         \<or> a = LinkAnswer (http_Error ''internal server error'' 500)))
    \<or> (\<exists>x. a = LinkAnswer x \<and> rp_Status x \<noteq> 200 \<and> pw_stored w' = pw_stored w)"
  by (rule pg_linkd_change [OF assms])

lemma pg_http_change_witness:
  "\<exists>l x l'. sample_created = pg_keep l \<and> apply_op x l = (None, l') \<and>
     pw_stored (snd (pg_linkd id id (\<lambda>_. '''') default_config (sample_patch ''bob'' ''1'')
       (pg_after [4] [ReqCreate None sample_create]))) ''77777777'' = Some (pg_keep l')"
proof -
  let ?w = "pg_after [4] [ReqCreate None sample_create]" and ?r = "sample_patch ''bob'' ''1''"
  let ?p = "pg_linkd id id (\<lambda>_. '''') default_config ?r ?w"
  have "map_option version (pw_stored (snd ?p) ''77777777'') = Some 2" by code_simp
  then have changed: "pw_stored (snd ?p) \<noteq> pw_stored ?w"
    using pg_after_created(2) by (auto simp: sample_created_def)
  have r: "ServeMux (rq_Method ?r) (rq_EscapedPath ?r) = RoutePatchLink ''77777777''" "pg_http_request id ?r"
    "TrimSpace ''77777777'' = ''77777777''"
    by code_simp+
  have "pg_ready id (cache_of default_config) ?w" by (simp add: cache_of_def default_config_def)
  from pg_http_change [OF prod.collapse [symmetric] r(1) this r(2), of id "\<lambda>_. ''''"] changed
  obtain l x l' where "pw_stored ?w ''77777777'' = Some (pg_keep l)" "apply_op x l = (None, l')"
    "pw_stored (snd ?p) = (pw_stored ?w)(''77777777'' \<mapsto> pg_keep l')"
    unfolding r(3) by blast
  with pg_after_created(2) show ?thesis by (intro exI [of _ l] exI [of _ x] exI [of _ l']) simp
qed

text \<open>C15: over PostgreSQL too, two creations of one owner under one idempotency key that both succeed return
  the same link, whatever the second asks for, whatever requests come in between and whatever calls
  are lost: the second stores nothing and returns the link that its code has by then, which has taken
  only steps of its life cycle since the first; if no request in between has changed it, it is the link
  the first returned, up to the microseconds the table keeps.  The destinations must be ones whose text
  is validated to themselves, and no change may name the last \<open>uint64\<close> as its version.\<close>

theorem pg_create_idempotent:
  assumes "pg_serve ul cache (ReqCreate c q) w = (LinkResponse (Inr l), w1)" "pg_ready ul cache w"
    and "pg_serve_all ul cache qs w1 = (rs, w2)"
    and "pg_serve ul cache (ReqCreate c' q') w2 = (LinkResponse (Inr l'), w3)"
    and "pg_request ul (ReqCreate c q)" "pg_request ul (ReqCreate c' q')" "\<forall>x \<in> set qs. pg_request ul x"
    and "c_IdempotencyKey q \<noteq> []" "c_OwnerID q' = c_OwnerID q" "c_IdempotencyKey q' = c_IdempotencyKey q"
  shows "pw_stored w3 = pw_stored w2 \<and> code l' = code l \<and> pw_stored w2 (code l) = Some (pg_keep l')
    \<and> pg_link_step\<^sup>*\<^sup>* (pg_keep l) (pg_keep l')
    \<and> (pw_stored w2 (code l) = pw_stored w1 (code l) \<longrightarrow> pg_keep l' = pg_keep l)"
proof -
  have at: "code x = k" if "pw_stored v k = Some x" for v k x using that by (auto simp: pw_stored_def pg_content_def)
  note replayed = pg_create_replayed [OF assms]
  then have "code (pg_keep l') = code l" using at by blast
  with replayed show ?thesis by auto
qed

text \<open>Between two creations under one key the link is disabled: the second returns it as it is by then.\<close>

lemma pg_create_idempotent_witness:
  "\<exists>w l'. pw_stored w ''77777777'' = Some (pg_keep l')
    \<and> fst (pg_serve id None (ReqCreate None (sample_create\<lparr>c_Destination := ''http://other.org/''\<rparr>)) w) = LinkResponse (Inr l')
    \<and> pw_stored (snd (pg_serve id None (ReqCreate None (sample_create\<lparr>c_Destination := ''http://other.org/''\<rparr>)) w))
      = pw_stored w
    \<and> status l' = Disabled \<and> pg_link_step\<^sup>*\<^sup>* (pg_keep sample_created) (pg_keep l')"
proof -
  let ?w1 = "snd (pg_serve id None (ReqCreate None sample_create) (sample_pg []))"
  let ?qs = "[ReqStatus None (sample_disable ''bob'' 1)]"
  let ?w2 = "snd (pg_serve_all id None ?qs ?w1)"
  let ?q = "sample_create\<lparr>c_Destination := ''http://other.org/''\<rparr>"
  let ?l = "sample_created\<lparr>status := Disabled, version := 2, updatedAt := 1000\<rparr>"
  have created: "fst (pg_serve id None (ReqCreate None sample_create) (sample_pg [])) = LinkResponse (Inr sample_created)"
    "fst (pg_serve id None (ReqCreate None ?q) ?w2) = LinkResponse (Inr ?l)"
    by code_simp+
  have code: "code sample_created = ''77777777''" by (simp add: sample_created_def)
  have "c_IdempotencyKey sample_create \<noteq> []" "c_OwnerID ?q = c_OwnerID sample_create"
    "c_IdempotencyKey ?q = c_IdempotencyKey sample_create"
    by (simp_all add: sample_create_def)
  from pg_create_idempotent [OF fst_run [OF created(1)] sample_pg_ready prod.collapse [symmetric] fst_run [OF created(2)]
      sample_pg_requests(1,2) _ this]
  have "pw_stored ?w2 ''77777777'' = Some (pg_keep ?l)" "pg_link_step\<^sup>*\<^sup>* (pg_keep sample_created) (pg_keep ?l)"
    "pw_stored (snd (pg_serve id None (ReqCreate None ?q) ?w2)) = pw_stored ?w2"
    using sample_pg_requests(3) unfolding code by simp_all
  with created(2) show ?thesis by (intro exI [of _ ?w2] exI [of _ ?l]) simp
qed

section \<open>Availability\<close>

text \<open>C18: whatever becomes of the calls to the Redis server, a redirect of a stored link of which the cache
  holds no mapping succeeds, if the link lets redirects pass at the readings of the clock to come.\<close>

theorem redirect_available:
  assumes "ready ul (Some config) w" "stored w k = Some l" "cached_for ul w k = None"
    and "\<forall>n \<ge> w_reads w. CanRedirect l (w_clock w n)"
  shows "fst (serve ul (Some config) (ReqRedirect None k) w) = RedirectResponse (Inr (dest_String (destination l)))"
  using redirect_fails_open [OF _ assms(2-4)] assms(1) by (simp add: ready_def)

text \<open>A world with Bob's link whose network loses every call.\<close>

definition lossy_world :: world where
  "lossy_world = snd (Insert world_repo None sample_created
     (initial_world (\<lambda>n. int n + 1000) (replicate 16 7) (\<lambda>_. 1) (\<lambda>_. RequestLost)))"

lemma redirect_available_witness:
  "fst (serve id (Some sample_config) (ReqRedirect None ''77777777'') lossy_world)
     = RedirectResponse (Inr ''https://example.com/a'')"
proof -
  let ?w0 = "initial_world (\<lambda>n. int n + 1000) (replicate 16 7) (\<lambda>_. 1) (\<lambda>_. RequestLost)"
  have "coherent_world id ?w0" using initial_ready [of id "Some sample_config"] by (simp add: ready_def)
  moreover have "Insert (refreshing_repo id sample_config) None sample_created ?w0
      = (fst (Insert world_repo None sample_created ?w0), lossy_world)"
    by (simp add: refreshing_repo_def CacheRefreshingRepository_def lossy_world_def)
  moreover have "link_ok sample_created" by code_simp
  ultimately have "coherent_world id lossy_world" by (rule coherent_insert)
  then have "ready id (Some sample_config) lossy_world" by (simp add: ready_def coherent_world_def)
  moreover have "stored lossy_world ''77777777'' = Some sample_created" "cached_for id lossy_world ''77777777'' = None"
    by code_simp+
  moreover have "CanRedirect sample_created (w_clock lossy_world n)" for n
    by (simp add: lossy_world_def world_repo_def lift_repository_def lift_def put_links_def initial_world_def
        CanRedirect_expiry sample_created_def ExpiresAt_def split: prod.split)
  ultimately show ?thesis
    using redirect_available [of id sample_config lossy_world "''77777777''" sample_created]
    by (simp add: sample_created_def dest_String_def del: serve.simps)
qed

end
